(* ===== verification/Prelude.thy ===== *)
theory Prelude
  imports Main "HOL-Library.AList" "HOL-Library.Char_ord" "HOL-Library.List_Lexorder"
    "HOL-Library.Sublist"
begin

text \<open>
  Shared vocabulary of the development: the exceptions the services raise, results that may be
  an exception, Python dictionaries as association lists that keep their insertion order,
  first-wins maxima (\<open>max(..., key=...)\<close>, \<open>Counter.most_common(1)\<close>) and duplicate-free lists
  in order of first occurrence. Nothing here models a function of the repository.
\<close>

named_theorems dict_simps \<open>lookups and keys of association-list dictionaries\<close>
named_theorems bounds_intro \<open>introduction rules for numeric bounds\<close>

section \<open>Exceptions and results\<close>

text \<open>
  \<open>ParseError\<close>, \<open>ConfigError\<close>, \<open>HeadlineError\<close> and \<open>BenchError\<close> are the classes the code
  declares; the others are the exceptions of Python and of its standard library that the modelled
  code can raise.
\<close>

datatype py_error =
    ParseError string
  | ConfigError string
  | ValueError
  | KeyError
  | IndexError
  | RuntimeError string
  | InvalidOperation
  | DecimalOverflow
  | TypeError
  | OverflowError
  | AttributeError
  | CsvError
  | FileNotFound
  | HeadlineError string
  | BenchError string
  | SystemExit string

type_synonym 'a result = "py_error + 'a"

definition res_bind :: "'a result \<Rightarrow> ('a \<Rightarrow> 'b result) \<Rightarrow> 'b result" where
  "res_bind r f = (case r of Inl e \<Rightarrow> Inl e | Inr v \<Rightarrow> f v)"

lemma res_bind_simps [simp]:
  "res_bind (Inl e) f = Inl e"
  "res_bind (Inr v) f = f v"
  by (simp_all add: res_bind_def)

lemma res_bind_Inr_iff:
  "res_bind r f = Inr w \<longleftrightarrow> (\<exists>v. r = Inr v \<and> f v = Inr w)"
  by (cases r) simp_all

primrec res_map :: "('a \<Rightarrow> 'b result) \<Rightarrow> 'a list \<Rightarrow> 'b list result" where
  "res_map f [] = Inr []"
| "res_map f (x # xs) = res_bind (f x) (\<lambda>y. res_bind (res_map f xs) (\<lambda>ys. Inr (y # ys)))"

lemma res_map_Inr_iff:
  "res_map f xs = Inr ys \<longleftrightarrow> list_all2 (\<lambda>x y. f x = Inr y) xs ys"
proof (induction xs arbitrary: ys)
  case Nil
  then show ?case by auto
next
  case (Cons x xs)
  then show ?case by (cases ys) (auto simp: res_bind_Inr_iff)
qed

lemma res_map_mem: "res_map f xs = Inr ys \<Longrightarrow> y \<in> set ys \<Longrightarrow> \<exists>x \<in> set xs. f x = Inr y"
  by (induction xs arbitrary: ys) (auto simp: res_bind_Inr_iff)

section \<open>Dictionaries\<close>

text \<open>
  A Python \<open>dict\<close> iterates in insertion order and assigning to an existing key keeps the key's
  place: exactly \<^const>\<open>AList.update\<close>. Keys are distinct by construction.
\<close>

type_synonym ('k, 'v) dict = "('k \<times> 'v) list"

abbreviation dict_keys :: "('k, 'v) dict \<Rightarrow> 'k list" where
  "dict_keys d \<equiv> map fst d"

abbreviation dict_get :: "('k, 'v) dict \<Rightarrow> 'k \<Rightarrow> 'v option" where
  "dict_get d k \<equiv> map_of d k"

abbreviation dict_set :: "'k \<Rightarrow> 'v \<Rightarrow> ('k, 'v) dict \<Rightarrow> ('k, 'v) dict" where
  "dict_set k v d \<equiv> AList.update k v d"

text \<open>A dictionary display or comprehension: later entries overwrite earlier ones.\<close>

definition dict_of :: "('k \<times> 'v) list \<Rightarrow> ('k, 'v) dict" where
  "dict_of ps = fold (\<lambda>(k, v) d. dict_set k v d) ps []"

definition dict_get_or :: "('k, 'v) dict \<Rightarrow> 'k \<Rightarrow> 'v \<Rightarrow> 'v" where
  "dict_get_or d k v = (case dict_get d k of None \<Rightarrow> v | Some w \<Rightarrow> w)"

definition dict_setdefault :: "'k \<Rightarrow> 'v \<Rightarrow> ('k, 'v) dict \<Rightarrow> ('k, 'v) dict" where
  "dict_setdefault k v d = (case dict_get d k of None \<Rightarrow> dict_set k v d | Some _ \<Rightarrow> d)"

lemma dict_get_set [simp, dict_simps]:
  "dict_get (dict_set k v d) k' = (if k' = k then Some v else dict_get d k')"
  by (simp add: update_conv')

lemma dict_keys_set [dict_simps]:
  "dict_keys (dict_set k v d) = (if k \<in> set (dict_keys d) then dict_keys d else dict_keys d @ [k])"
  by (induction d) auto

lemma fst_dict_set [simp]: "fst ` set (dict_set k v d) = insert k (fst ` set d)"
  by (induction d) auto

lemma distinct_dict_set [simp]: "distinct (dict_keys d) \<Longrightarrow> distinct (dict_keys (dict_set k v d))"
  by (rule distinct_update)

lemma dict_fold_get:
  "dict_get (fold (\<lambda>(k, v) d. dict_set k v d) ps d) k =
     (case map_of (rev ps) k of None \<Rightarrow> dict_get d k | Some v \<Rightarrow> Some v)"
proof (induction ps arbitrary: d)
  case Nil
  then show ?case by simp
next
  case (Cons p ps)
  obtain a b where p: "p = (a, b)" by (cases p)
  show ?case
    using Cons by (auto simp: p map_add_Some_iff map_add_def split: option.splits)
qed

lemma dict_of_get [dict_simps]: "dict_get (dict_of ps) k = map_of (rev ps) k"
  by (simp add: dict_of_def dict_fold_get split: option.splits)

lemma dict_fold_distinct:
  "distinct (dict_keys d) \<Longrightarrow> distinct (dict_keys (fold (\<lambda>(k, v) d. dict_set k v d) ps d))"
  by (induction ps arbitrary: d) (auto split: prod.splits)

lemma distinct_dict_of [simp]: "distinct (dict_keys (dict_of ps))"
  unfolding dict_of_def by (rule dict_fold_distinct) simp

lemma dict_of_keys [dict_simps]: "set (dict_keys (dict_of ps)) = fst ` set ps"
proof -
  have "k \<in> set (dict_keys (dict_of ps)) \<longleftrightarrow> k \<in> fst ` set ps" for k
    using dict_of_get [of ps k] by (metis map_of_eq_None_iff set_rev list.set_map)
  then show ?thesis by blast
qed

lemma dict_of_get_Some: "dict_get (dict_of ps) k = Some v \<Longrightarrow> (k, v) \<in> set ps"
  by (auto simp: dict_of_get dest: map_of_SomeD)

lemma dict_of_get_distinct:
  "distinct (map fst ps) \<Longrightarrow> (k, v) \<in> set ps \<Longrightarrow> dict_get (dict_of ps) k = Some v"
  using map_of_is_SomeI [of "rev ps" k v] by (simp add: dict_of_get rev_map [symmetric])

section \<open>First occurrences and first maxima\<close>

text \<open>The distinct elements in order of first occurrence: the keys of a \<open>Counter\<close>.\<close>

primrec uniq :: "'a list \<Rightarrow> 'a list" where
  "uniq [] = []"
| "uniq (x # xs) = x # filter (\<lambda>y. y \<noteq> x) (uniq xs)"

lemma set_uniq [simp]: "set (uniq xs) = set xs"
  by (induction xs) auto

lemma distinct_uniq [simp]: "distinct (uniq xs)"
  by (induction xs) auto

lemma uniq_Nil_iff [simp]: "uniq xs = [] \<longleftrightarrow> xs = []"
  by (cases xs) auto

lemma uniq_distinct: "distinct xs \<Longrightarrow> uniq xs = xs"
proof (induction xs)
  case (Cons x xs)
  then have "filter (\<lambda>y. y \<noteq> x) xs = xs" by (intro filter_True) auto
  with Cons show ?case by simp
qed simp

text \<open>\<open>max(iterable, key=f)\<close>: the first element whose key is not exceeded.\<close>

definition pick_max :: "('a \<Rightarrow> 'k::linorder) \<Rightarrow> 'a \<Rightarrow> 'a \<Rightarrow> 'a" where
  "pick_max f b y = (if f b < f y then y else b)"

primrec first_max :: "('a \<Rightarrow> 'k::linorder) \<Rightarrow> 'a list \<Rightarrow> 'a option" where
  "first_max f [] = None"
| "first_max f (x # xs) = Some (foldl (pick_max f) x xs)"

lemma foldl_pick_max:
  "foldl (pick_max f) b xs \<in> insert b (set xs)
   \<and> (\<forall>y \<in> insert b (set xs). f y \<le> f (foldl (pick_max f) b xs))"
proof (induction xs arbitrary: b)
  case (Cons x xs)
  from Cons.IH [of "pick_max f b x"] show ?case
    by (auto simp: pick_max_def split: if_splits)
qed simp

lemma first_max_Some:
  assumes "first_max f xs = Some m"
  shows "m \<in> set xs" and "y \<in> set xs \<Longrightarrow> f y \<le> f m"
  using assms foldl_pick_max [of f "hd xs" "tl xs"] by (cases xs; auto)+

lemma first_max_None [simp]: "first_max f xs = None \<longleftrightarrow> xs = []"
  by (cases xs) auto

text \<open>\<open>Counter(xs).most_common(1)\<close>.\<close>

definition most_common :: "'a list \<Rightarrow> 'a option" where
  "most_common xs = first_max (count_list xs) (uniq xs)"

lemma most_common_None [simp]: "most_common xs = None \<longleftrightarrow> xs = []"
  by (simp add: most_common_def)

lemma most_common_Some:
  assumes "most_common xs = Some m"
  shows "m \<in> set xs" and "count_list xs y \<le> count_list xs m"
proof -
  show "m \<in> set xs"
    using first_max_Some(1) [OF assms [unfolded most_common_def]] by simp
  show "count_list xs y \<le> count_list xs m"
  proof (cases "y \<in> set xs")
    case True
    then show ?thesis using first_max_Some(2) [OF assms [unfolded most_common_def]] by simp
  next
    case False
    then have "count_list xs y = 0" by (simp add: count_list_0_iff)
    then show ?thesis by simp
  qed
qed

lemma most_common_const:
  assumes "xs \<noteq> []" and "\<forall>y \<in> set xs. y = x"
  shows "most_common xs = Some x"
proof -
  obtain m where m: "most_common xs = Some m"
    using assms(1) by (metis most_common_None not_None_eq)
  with assms(2) most_common_Some(1) [OF m] show ?thesis by auto
qed

section \<open>Lists\<close>

lemma map_filter_eq_concat:
  "List.map_filter f xs = concat (map (\<lambda>x. case f x of None \<Rightarrow> [] | Some y \<Rightarrow> [y]) xs)"
  by (induction xs) (auto simp: List.map_filter_simps split: option.splits)

lemma count_filter_partition:
  "length (filter P xs) + length (filter (\<lambda>x. \<not> P x) xs) = length xs"
  by (rule sum_length_filter_compl)

end
