(* ===== verification/PyText.thy ===== *)
theory PyText
  imports Prelude
begin

text \<open>
  The part of Python's \<open>str\<close> the services use. A Python string is a \<^typ>\<open>string\<close>: character
  \<open>n\<close> is code point \<open>n\<close>, so the model covers text whose code points are below 256 (Latin-1);
  within that range the classifications below are the ones of Python's Unicode tables.
\<close>

section \<open>Character classes\<close>

abbreviation ord :: "char \<Rightarrow> nat" where
  "ord c \<equiv> of_char c"

abbreviation chr :: "nat \<Rightarrow> char" where
  "chr n \<equiv> char_of n"

definition is_digit :: "char \<Rightarrow> bool" where
  "is_digit c \<longleftrightarrow> 48 \<le> ord c \<and> ord c \<le> 57"

definition is_space :: "char \<Rightarrow> bool" where
  "is_space c \<longleftrightarrow> (let n = ord c in
     (9 \<le> n \<and> n \<le> 13) \<or> (28 \<le> n \<and> n \<le> 32) \<or> n = 133 \<or> n = 160)"

definition is_upper :: "char \<Rightarrow> bool" where
  "is_upper c \<longleftrightarrow> (let n = ord c in
     (65 \<le> n \<and> n \<le> 90) \<or> (192 \<le> n \<and> n \<le> 222 \<and> n \<noteq> 215))"

definition is_lower :: "char \<Rightarrow> bool" where
  "is_lower c \<longleftrightarrow> (let n = ord c in
     (97 \<le> n \<and> n \<le> 122) \<or> n = 170 \<or> n = 181 \<or> n = 186 \<or> (223 \<le> n \<and> n \<noteq> 247))"

definition is_alpha :: "char \<Rightarrow> bool" where
  "is_alpha c \<longleftrightarrow> is_upper c \<or> is_lower c"

text \<open>\<open>isalnum\<close> also accepts superscript digits (178, 179, 185) and vulgar fractions (188-190).\<close>

definition is_alnum :: "char \<Rightarrow> bool" where
  "is_alnum c \<longleftrightarrow> is_alpha c \<or> is_digit c \<or> (let n = ord c in
     n = 178 \<or> n = 179 \<or> n = 185 \<or> (188 \<le> n \<and> n \<le> 190))"

text \<open>The regular-expression class \<open>\w\<close>.\<close>

definition is_word :: "char \<Rightarrow> bool" where
  "is_word c \<longleftrightarrow> is_alnum c \<or> c = CHR ''_''"

definition to_lower :: "char \<Rightarrow> char" where
  "to_lower c = (if is_upper c then chr (ord c + 32) else c)"

definition lower :: "string \<Rightarrow> string" where
  "lower s = map to_lower s"

text \<open>
  \<open>str.upper\<close> on ASCII letters; in Latin-1 the letters from 224 shift by 32 too, the sharp s
  becomes two letters, and the micro sign and y with diaeresis have capitals outside Latin-1,
  which the model leaves as they are.
\<close>

definition to_upper :: "char \<Rightarrow> string" where
  "to_upper c = (let n = ord c in
     if (97 \<le> n \<and> n \<le> 122) \<or> (224 \<le> n \<and> n \<le> 254 \<and> n \<noteq> 247) then [chr (n - 32)]
     else if n = 223 then ''SS'' else [c])"

definition upper :: "string \<Rightarrow> string" where
  "upper s = concat (map to_upper s)"

lemma ord_chr [simp]: "n < 256 \<Longrightarrow> ord (chr n) = n"
  by simp

lemma to_lower_upper [simp]: "\<not> is_upper (to_lower c)"
proof (cases "is_upper c")
  case True
  then have "ord (to_lower c) = ord c + 32"
    by (auto simp: to_lower_def is_upper_def Let_def)
  with True show ?thesis by (auto simp: is_upper_def Let_def)
qed (simp add: to_lower_def)

lemma to_lower_idem [simp]: "to_lower (to_lower c) = to_lower c"
  by (subst to_lower_def) simp

lemma lower_idem [simp]: "lower (lower s) = lower s"
  by (simp add: lower_def)

lemma lower_Nil [simp]: "lower [] = []"
  by (simp add: lower_def)

lemma length_lower [simp]: "length (lower s) = length s"
  by (simp add: lower_def)

section \<open>Trimming, searching, joining\<close>

definition lstrip :: "string \<Rightarrow> string" where
  "lstrip s = dropWhile is_space s"

definition rstrip :: "string \<Rightarrow> string" where
  "rstrip s = rev (dropWhile is_space (rev s))"

definition strip :: "string \<Rightarrow> string" where
  "strip s = rstrip (lstrip s)"

lemma lstrip_Nil [simp]: "lstrip [] = []" and rstrip_Nil [simp]: "rstrip [] = []"
  by (simp_all add: lstrip_def rstrip_def)

lemma lstrip_rstrip_lstrip: "lstrip (rstrip (lstrip s)) = rstrip (lstrip s)"
proof (cases "lstrip s")
  case Nil
  then show ?thesis by simp
next
  case (Cons c cs)
  then have "\<not> is_space c"
    by (metis hd_dropWhile list.discI list.sel(1) lstrip_def)
  then have "rstrip (c # cs) = c # rstrip cs"
    unfolding rstrip_def by (simp add: dropWhile_append)
  with \<open>\<not> is_space c\<close> Cons show ?thesis by (simp add: lstrip_def)
qed

lemma rstrip_idem [simp]: "rstrip (rstrip s) = rstrip s"
  by (simp only: rstrip_def rev_rev_ident dropWhile_idem)

lemma strip_idem [simp]: "strip (strip s) = strip s"
  by (simp add: strip_def lstrip_rstrip_lstrip)

lemma strip_Nil [simp]: "strip [] = []"
  by (simp add: strip_def)

lemma strip_eq_Nil_iff: "strip s = [] \<longleftrightarrow> (\<forall>c \<in> set s. is_space c)"
proof -
  have "rstrip t = [] \<longleftrightarrow> (\<forall>c \<in> set t. is_space c)" for t
    by (simp add: rstrip_def)
  moreover have "(\<forall>c \<in> set (lstrip s). is_space c) \<longleftrightarrow> (\<forall>c \<in> set s. is_space c)"
    unfolding lstrip_def by (induction s) auto
  ultimately show ?thesis by (simp add: strip_def)
qed

text \<open>\<open>sep.join(parts)\<close>.\<close>

fun join :: "string \<Rightarrow> string list \<Rightarrow> string" where
  "join sep [] = []"
| "join sep [s] = s"
| "join sep (s # t # ts) = s @ sep @ join sep (t # ts)"

text \<open>The text before the first character in a class: \<open>re.split(cls, s, maxsplit=1)[0]\<close>.\<close>

definition before_first :: "(char \<Rightarrow> bool) \<Rightarrow> string \<Rightarrow> string" where
  "before_first P s = takeWhile (\<lambda>c. \<not> P c) s"

text \<open>\<open>t in s\<close>.\<close>

fun contains :: "string \<Rightarrow> string \<Rightarrow> bool" where
  "contains t [] = (t = [])"
| "contains t (c # s) = (prefix t (c # s) \<or> contains t s)"

lemma contains_iff: "contains t s \<longleftrightarrow> sublist t s"
  by (induction t s rule: contains.induct) (auto simp: sublist_Cons_right)

definition remove_chars :: "(char \<Rightarrow> bool) \<Rightarrow> string \<Rightarrow> string" where
  "remove_chars P s = filter (\<lambda>c. \<not> P c) s"

section \<open>Numbers as text\<close>

fun dec_str :: "int \<Rightarrow> string" where
  "dec_str n = (if n < 10 then [chr (48 + nat n)] else dec_str (n div 10) @ [chr (48 + nat (n mod 10))])"

declare dec_str.simps [simp del]

definition int_str :: "int \<Rightarrow> string" where
  "int_str i = (if i < 0 then CHR ''-'' # dec_str (- i) else dec_str i)"

definition nat_str :: "nat \<Rightarrow> string" where
  "nat_str n = int_str (int n)"

definition pad_left :: "nat \<Rightarrow> char \<Rightarrow> string \<Rightarrow> string" where
  "pad_left n c s = replicate (n - length s) c @ s"

text \<open>The value of a run of decimal digits.\<close>

definition digits_val :: "string \<Rightarrow> int" where
  "digits_val s = foldl (\<lambda>n c. 10 * n + (int (ord c) - 48)) 0 s"

lemma digits_val_append:
  "digits_val (s @ [c]) = 10 * digits_val s + (int (ord c) - 48)"
  by (simp add: digits_val_def)

lemma digits_val_dec_str [simp]: "0 \<le> n \<Longrightarrow> digits_val (dec_str n) = n"
proof (induction n rule: dec_str.induct)
  case (1 n)
  show ?case
  proof (cases "n < 10")
    case True
    with "1.prems" show ?thesis by (subst dec_str.simps) (simp add: digits_val_def)
  next
    case False
    then have "int (ord (chr (48 + nat (n mod 10)))) - 48 = n mod 10" by simp
    moreover from False 1 have "digits_val (dec_str (n div 10)) = n div 10" by simp
    moreover from False have "dec_str n = dec_str (n div 10) @ [chr (48 + nat (n mod 10))]"
      by (subst dec_str.simps) simp
    ultimately show ?thesis by (simp add: digits_val_append)
  qed
qed

lemma dec_str_digits: "0 \<le> n \<Longrightarrow> c \<in> set (dec_str n) \<Longrightarrow> is_digit c"
proof (induction n rule: dec_str.induct)
  case (1 n)
  show ?case
  proof (cases "n < 10")
    case True
    with "1.prems" show ?thesis by (subst (asm) dec_str.simps) (auto simp: is_digit_def)
  next
    case False
    have d: "is_digit (chr (48 + nat (n mod 10)))" by (simp add: is_digit_def nat_less_iff)
    from False have eq: "dec_str n = dec_str (n div 10) @ [chr (48 + nat (n mod 10))]"
      by (subst dec_str.simps) simp
    with "1.prems"(2) have "c \<in> set (dec_str (n div 10)) \<or> c = chr (48 + nat (n mod 10))"
      by (simp only: set_append) auto
    then show ?thesis using "1.IH" [OF False] False d by fastforce
  qed
qed

lemma nat_str_dec: "nat_str n = dec_str (int n)"
  by (simp add: nat_str_def int_str_def)

lemma nat_str_inj:
  assumes "nat_str m = nat_str n"
  shows "m = n"
proof -
  have "digits_val (nat_str m) = digits_val (nat_str n)" using assms by (rule arg_cong)
  then show ?thesis by (simp add: nat_str_dec)
qed

lemma nat_str_digits: "c \<in> set (nat_str n) \<Longrightarrow> is_digit c"
  using dec_str_digits [of "int n" c] by (simp add: nat_str_dec)

section \<open>Quoting\<close>

text \<open>
  \<open>repr\<close> of a string, which the evidence messages use for column names: single quotes unless the
  text has one and no double quote, the usual escapes, and \<open>\xNN\<close> for what is not printable.
\<close>

definition hex_digit :: "nat \<Rightarrow> char" where
  "hex_digit n = (if n < 10 then chr (48 + n) else chr (87 + n))"

definition is_printable :: "char \<Rightarrow> bool" where
  "is_printable c \<longleftrightarrow> (let n = ord c in (32 \<le> n \<and> n \<le> 126) \<or> (161 \<le> n \<and> n \<noteq> 173))"

definition repr_char :: "char \<Rightarrow> char \<Rightarrow> string" where
  "repr_char q c =
     (let bs = chr 92 in
      if c = q \<or> c = bs then [bs, c]
      else if ord c = 9 then [bs, CHR ''t'']
      else if ord c = 10 then [bs, CHR ''n'']
      else if ord c = 13 then [bs, CHR ''r'']
      else if is_printable c then [c]
      else [bs, CHR ''x'', hex_digit (ord c div 16), hex_digit (ord c mod 16)])"

definition repr :: "string \<Rightarrow> string" where
  "repr s =
     (let q = (if chr 39 \<in> set s \<and> chr 34 \<notin> set s then chr 34 else chr 39)
      in [q] @ concat (map (repr_char q) s) @ [q])"

end
