(* ===== verification/Masking.thy ===== *)
theory Masking
  imports PyText
begin

text \<open>
  Account-number masking: \<open>python/src/inspector/masking.py\<close>, and the one sanctioned way to log
  an account, \<open>account\<close> in \<open>python/src/inspector/logging.py\<close>. The module-level switch
  \<open>_enabled\<close> is the state, passed explicitly.
\<close>

section \<open>Operations\<close>

definition MIN_REVEALED :: nat where
  "MIN_REVEALED = 4"

text \<open>The switch as the module computes it from the environment variable (unset is empty text).\<close>

definition enabled_from_env :: "string option \<Rightarrow> bool" where
  "enabled_from_env var = (lower (case var of None \<Rightarrow> [] | Some v \<Rightarrow> v) \<noteq> ''false'')"

definition set_enabled :: "bool \<Rightarrow> bool \<Rightarrow> bool" where
  "set_enabled value state = value"

definition stars :: "nat \<Rightarrow> string" where
  "stars n = replicate n (CHR ''*'')"

definition account_number :: "bool \<Rightarrow> string \<Rightarrow> string" where
  "account_number enabled value =
     (if \<not> enabled \<or> value = [] then value
      else if length value \<le> MIN_REVEALED then stars (length value)
      else stars (length value - MIN_REVEALED) @ drop (length value - MIN_REVEALED) value)"

definition account_numbers :: "bool \<Rightarrow> string list \<Rightarrow> string list" where
  "account_numbers enabled values = map (account_number enabled) values"

definition account_name :: "string \<Rightarrow> string" where
  "account_name value = value"

definition log_account :: "bool \<Rightarrow> string \<Rightarrow> string \<Rightarrow> (string, string) dict" where
  "log_account enabled number name =
     [(''number'', account_number enabled number), (''name'', account_name name)]"

section \<open>Lemmas\<close>

lemma length_stars [simp]: "length (stars n) = n"
  by (simp add: stars_def)

lemma length_account_number [simp]: "length (account_number en v) = length v"
  by (simp add: account_number_def)

lemma account_number_disabled [simp]: "account_number False v = v"
  by (simp add: account_number_def)

lemma account_number_long:
  "length v > MIN_REVEALED \<Longrightarrow>
     account_number True v = stars (length v - MIN_REVEALED) @ drop (length v - MIN_REVEALED) v"
  by (auto simp: account_number_def MIN_REVEALED_def)

lemma account_number_short: "length v \<le> MIN_REVEALED \<Longrightarrow> account_number True v = stars (length v)"
  by (auto simp: account_number_def stars_def)

lemma account_number_idem: "account_number True (account_number True v) = account_number True v"
  by (cases "length v \<le> MIN_REVEALED") (simp_all add: account_number_short account_number_long)

text \<open>The revealed part is the last four characters of a longer identifier, nothing otherwise.\<close>

definition revealed :: "string \<Rightarrow> string" where
  "revealed v = (if length v \<le> MIN_REVEALED then [] else drop (length v - MIN_REVEALED) v)"

lemma account_number_revealed:
  "account_number True v = stars (length v - length (revealed v)) @ revealed v"
  by (cases "length v \<le> MIN_REVEALED")
    (auto simp: account_number_short account_number_long revealed_def)

section \<open>Properties\<close>

text \<open>
  Masking hides everything but the last four characters. Two account numbers of the same
  length that agree on what may be revealed have the same masked form, so a log line carries no
  other information about the number; an identifier of at most four characters is hidden whole,
  and the length is kept.
\<close>

lemma masking_hides_prefix:
  "(account_number True v = account_number True w) =
     (length v = length w \<and> revealed v = revealed w)
   \<and> length (account_number True v) = length v
   \<and> length (revealed v) \<le> MIN_REVEALED
   \<and> (length v \<le> MIN_REVEALED \<or> revealed v = drop (length v - MIN_REVEALED) v)"
proof -
  have "account_number True v = account_number True w \<longleftrightarrow> length v = length w \<and> revealed v = revealed w"
  proof
    assume eq: "account_number True v = account_number True w"
    then have len: "length v = length w" by (metis length_account_number)
    then have "length (revealed v) = length (revealed w)" by (simp add: revealed_def)
    with eq len show "length v = length w \<and> revealed v = revealed w"
      by (simp add: account_number_revealed [of v] account_number_revealed [of w])
  next
    assume "length v = length w \<and> revealed v = revealed w"
    then show "account_number True v = account_number True w"
      by (simp add: account_number_revealed [of v] account_number_revealed [of w])
  qed
  moreover have "length (revealed v) \<le> MIN_REVEALED"
    by (simp add: revealed_def)
  moreover have "length v \<le> MIN_REVEALED \<or> revealed v = drop (length v - MIN_REVEALED) v"
    by (simp add: revealed_def)
  ultimately show ?thesis by simp
qed

end
