(* ===== verification/PyFloat.thy ===== *)
theory PyFloat
  imports Complex_Main "HOL-Library.Log_Nat" PyText
begin

text \<open>
  Python floats. A finite double is its exact rational value, and every arithmetic operation is
  the exact operation followed by \<open>fl\<close>, rounding to 53 significant bits, ties to even, which is
  what IEEE 754 prescribes. The exponent range is not bounded: results below \<open>2^-1022\<close> or from
  \<open>2^1024\<close> on, and the sign of zero, are outside the model (the scores of this program lie in
  \<open>[0, 1]\<close> and have at most a few dozen operations behind them). \<open>round(x, n)\<close> is correctly
  rounded in CPython: the decimal nearest to the exact value, ties to even, then the double
  nearest to that decimal. \<open>fixed n x\<close> is the text of an \<open>:.nf\<close> format.

  The locale \<open>rounded_arith\<close> is what the scoring code relies on: rounding is monotone and leaves
  0 and 1 alone. The interpretation at the end shows that \<open>fl\<close> keeps the contract.
\<close>

section \<open>Rounding to an integer, ties to even\<close>

definition round_half_even :: "rat \<Rightarrow> int" where
  "round_half_even x =
     (let f = \<lfloor>x\<rfloor>; r = x - of_int f in
      if r < 1/2 then f else if 1/2 < r then f + 1 else if even f then f else f + 1)"

lemma round_half_even_of_int [simp]: "round_half_even (of_int n) = n"
  by (simp add: round_half_even_def)

lemma round_half_even_bounds: "\<lfloor>x\<rfloor> \<le> round_half_even x" "round_half_even x \<le> \<lfloor>x\<rfloor> + 1"
  by (simp_all add: round_half_even_def Let_def)

lemma round_half_even_mono:
  assumes "x \<le> y"
  shows "round_half_even x \<le> round_half_even y"
proof (cases "\<lfloor>x\<rfloor> = \<lfloor>y\<rfloor>")
  case True
  with assms show ?thesis by (auto simp: round_half_even_def Let_def)
next
  case False
  with assms have "\<lfloor>x\<rfloor> + 1 \<le> \<lfloor>y\<rfloor>" using floor_mono [OF assms] by linarith
  then show ?thesis using round_half_even_bounds(2) [of x] round_half_even_bounds(1) [of y] by linarith
qed

lemma round_half_even_ge: "of_int n \<le> x \<Longrightarrow> n \<le> round_half_even x"
  using round_half_even_mono [of "of_int n" x] by simp

lemma round_half_even_le: "x \<le> of_int n \<Longrightarrow> round_half_even x \<le> n"
  using round_half_even_mono [of x "of_int n"] by simp

lemma round_half_even_near: "\<bar>of_int (round_half_even x) - x\<bar> \<le> 1/2"
proof -
  define f where "f = \<lfloor>x\<rfloor>"
  have "of_int f \<le> x" "x < of_int f + 1"
    using floor_correct [of x] by (simp_all add: f_def)
  then show ?thesis by (auto simp: round_half_even_def Let_def f_def [symmetric] abs_if)
qed

section \<open>The binary exponent\<close>

text \<open>\<open>ilog2 x\<close> is the integer part of the binary logarithm of a positive rational.\<close>

definition pow2 :: "int \<Rightarrow> rat" where
  "pow2 e = (if 0 \<le> e then 2 ^ nat e else 1 / 2 ^ nat (- e))"

lemma pow2_eq: "pow2 e = 2 powi e"
  by (simp add: pow2_def power_int_def inverse_eq_divide power_one_over)

lemma pow2_pos [simp]: "0 < pow2 e"
  by (simp add: pow2_def)

lemma pow2_nonneg [simp]: "0 \<le> pow2 e"
  by (simp add: less_imp_le)

lemma pow2_neq_0 [simp]: "pow2 e \<noteq> 0"
  using pow2_pos [of e] by linarith

lemma pow2_add: "pow2 (a + b) = pow2 a * pow2 b"
  by (simp add: pow2_eq power_int_add)

lemma pow2_mono: "a \<le> b \<Longrightarrow> pow2 a \<le> pow2 b"
  by (simp add: pow2_eq power_int_increasing)

lemma pow2_Suc: "pow2 (a + 1) = 2 * pow2 a"
  by (simp add: pow2_add) (simp add: pow2_def)

lemma pow2_52: "pow2 52 = of_int (2 ^ 52)" and pow2_53: "pow2 53 = of_int (2 ^ 53)"
  by (simp_all add: pow2_def)

definition ilog2 :: "rat \<Rightarrow> int" where
  "ilog2 x = (let (p, q) = quotient_of x; k = bitlen p - bitlen q in
     if pow2 k \<le> x then k else k - 1)"

lemma pow2_bitlen:
  assumes "0 < p"
  shows "pow2 (bitlen p - 1) \<le> of_int p" and "of_int p < pow2 (bitlen p)"
proof -
  have pos: "0 < bitlen p"
    using assms bitlen_eq_zero_iff [of p] bitlen_nonneg [of p] by linarith
  have b: "2 ^ nat (bitlen p - 1) \<le> p" "p < 2 ^ nat (bitlen p)"
    using bitlen_bounds [OF assms] by simp_all
  have "(of_int (2 ^ nat (bitlen p - 1)) :: rat) \<le> of_int p" using b(1) of_int_le_iff by blast
  then show "pow2 (bitlen p - 1) \<le> of_int p" using pos by (simp add: pow2_def)
  have "(of_int p :: rat) < of_int (2 ^ nat (bitlen p))" using b(2) of_int_less_iff by blast
  then show "of_int p < pow2 (bitlen p)" using pos by (simp add: pow2_def)
qed

lemma ilog2_bounds:
  assumes "0 < x"
  shows "pow2 (ilog2 x) \<le> x" and "x < pow2 (ilog2 x + 1)"
proof -
  obtain p q where pq: "quotient_of x = (p, q)" by (cases "quotient_of x")
  have q: "0 < q" and x: "x = of_int p / of_int q"
    using quotient_of_denom_pos [OF pq] quotient_of_div [OF pq] by simp_all
  have p: "0 < p" using assms q x by (simp add: zero_less_divide_iff)
  define k where "k = bitlen p - bitlen q"
  have "of_int p < pow2 (k + 1) * of_int q"
  proof -
    have "of_int p < pow2 (k + 1) * pow2 (bitlen q - 1)"
      using pow2_bitlen(2) [OF p] by (simp add: pow2_add [symmetric] k_def)
    also have "\<dots> \<le> pow2 (k + 1) * of_int q"
      using pow2_bitlen(1) [OF q] by (intro mult_left_mono) simp_all
    finally show ?thesis .
  qed
  then have up: "x < pow2 (k + 1)" using q x by (simp add: divide_less_eq)
  have "pow2 (k - 1) * of_int q \<le> of_int p"
  proof -
    have "pow2 (k - 1) * of_int q \<le> pow2 (k - 1) * pow2 (bitlen q)"
      using pow2_bitlen(2) [OF q] by (intro mult_left_mono) simp_all
    also have "\<dots> \<le> of_int p"
      using pow2_bitlen(1) [OF p] by (simp add: pow2_add [symmetric] k_def)
    finally show ?thesis .
  qed
  then have lo: "pow2 (k - 1) \<le> x" using q x by (simp add: le_divide_eq)
  have def: "ilog2 x = (if pow2 k \<le> x then k else k - 1)"
    by (simp add: ilog2_def pq k_def Let_def)
  show "pow2 (ilog2 x) \<le> x" using lo by (simp add: def)
  show "x < pow2 (ilog2 x + 1)" using up by (simp add: def)
qed

lemma ilog2_mono:
  assumes "0 < x" "x \<le> y"
  shows "ilog2 x \<le> ilog2 y"
proof (rule ccontr)
  assume "\<not> ilog2 x \<le> ilog2 y"
  then have "pow2 (ilog2 y + 1) \<le> pow2 (ilog2 x)" by (intro pow2_mono) simp
  also have "\<dots> \<le> x" by (rule ilog2_bounds(1) [OF assms(1)])
  finally show False using assms ilog2_bounds(2) [of y] by simp
qed

section \<open>Rounding to a double\<close>

definition fl_pos :: "rat \<Rightarrow> rat" where
  "fl_pos x = (let u = pow2 (ilog2 x - 52) in of_int (round_half_even (x / u)) * u)"

definition fl :: "rat \<Rightarrow> rat" where
  "fl x = (if x = 0 then 0 else if x < 0 then - fl_pos (- x) else fl_pos x)"

text \<open>Integer arithmetic for evaluating the two: the quotient's denominator and the power of two are
  kept apart, so no fraction is normalised on the way.\<close>

definition round_div :: "int \<Rightarrow> int \<Rightarrow> int" where
  "round_div p q = (let d = p div q; m = 2 * (p mod q) in if m < q \<or> m = q \<and> even d then d else d + 1)"

lemma round_half_even_div: assumes "0 < q" shows "round_half_even (of_int p / of_int q) = round_div p q"
proof -
  let ?d = "p div q" and ?m = "p mod q"
  have f: "\<lfloor>of_int p / of_int q :: rat\<rfloor> = ?d" by (rule floor_divide_of_int_eq)
  have "(of_int p :: rat) = of_int (?d * q + ?m)" by simp
  then have e: "(of_int p :: rat) = of_int ?d * of_int q + of_int ?m" unfolding of_int_add of_int_mult .
  have r: "of_int p / of_int q - of_int ?d = (of_int ?m / of_int q :: rat)"
    unfolding e using assms by (simp add: add_divide_distrib)
  have "of_int ?m / of_int q < (1/2 :: rat) \<longleftrightarrow> of_int (2 * ?m) < (of_int q :: rat)"
    "1/2 < of_int ?m / (of_int q :: rat) \<longleftrightarrow> (of_int q :: rat) < of_int (2 * ?m)"
    using assms by (simp_all add: field_simps)
  then have "of_int ?m / of_int q < (1/2 :: rat) \<longleftrightarrow> 2 * ?m < q"
    "1/2 < of_int ?m / (of_int q :: rat) \<longleftrightarrow> q < 2 * ?m" unfolding of_int_less_iff by blast+
  then show ?thesis unfolding round_half_even_def Let_def f r round_div_def by auto
qed

lemma fl_pos_code [code]:
  "fl_pos x = (let n = fst (quotient_of x); d = snd (quotient_of x); e = ilog2 x - 52 in
     if 0 \<le> e then of_int (round_div n (d * 2 ^ nat e) * 2 ^ nat e)
     else of_int (round_div (n * 2 ^ nat (- e)) d) / of_int (2 ^ nat (- e)))"
proof -
  obtain n d where q: "quotient_of x = (n, d)" by (cases "quotient_of x")
  have d: "0 < d" and x: "x = of_int n / of_int d"
    using quotient_of_denom_pos [OF q] quotient_of_div [OF q] by simp_all
  define e where "e = ilog2 x - 52"
  show ?thesis
  proof (cases "0 \<le> e")
    case True
    have "x / pow2 e = of_int n / of_int (d * 2 ^ nat e)" using True by (simp add: pow2_def x)
    then show ?thesis using True d q round_half_even_div [of "d * 2 ^ nat e" n]
      by (simp add: fl_pos_def e_def [symmetric] Let_def) (simp add: pow2_def)
  next
    case False
    have "x / pow2 e = of_int (n * 2 ^ nat (- e)) / of_int d" using False by (simp add: pow2_def x)
    then show ?thesis using False d q round_half_even_div [of d "n * 2 ^ nat (- e)"]
      by (simp add: fl_pos_def e_def [symmetric] Let_def) (simp add: pow2_def)
  qed
qed

lemma ilog2_code [code]:
  "ilog2 x = (let p = fst (quotient_of x); q = snd (quotient_of x); k = bitlen p - bitlen q in
     if (if 0 \<le> k then q * 2 ^ nat k \<le> p else q \<le> p * 2 ^ nat (- k)) then k else k - 1)"
proof -
  obtain n d where q: "quotient_of x = (n, d)" by (cases "quotient_of x")
  have d: "0 < d" and x: "x = of_int n / of_int d"
    using quotient_of_denom_pos [OF q] quotient_of_div [OF q] by simp_all
  have "pow2 k \<le> x \<longleftrightarrow> (if 0 \<le> k then d * 2 ^ nat k \<le> n else d \<le> n * 2 ^ nat (- k))" for k
  proof -
    have "pow2 k \<le> x \<longleftrightarrow> (if 0 \<le> k then (of_int (d * 2 ^ nat k) :: rat) \<le> of_int n else (of_int d :: rat) \<le> of_int (n * 2 ^ nat (- k)))"
      using d by (auto simp: pow2_def x field_simps)
    then show ?thesis unfolding of_int_le_iff .
  qed
  then show ?thesis by (simp add: ilog2_def q Let_def)
qed

lemma fl_pos_range:
  assumes "0 < x"
  shows "pow2 (ilog2 x) \<le> fl_pos x" and "fl_pos x \<le> pow2 (ilog2 x + 1)"
proof -
  define e where "e = ilog2 x"
  define u where "u = pow2 (e - 52)"
  have u: "0 < u" by (simp add: u_def)
  have lo: "pow2 52 * u \<le> x" and hi: "x \<le> pow2 53 * u"
    using ilog2_bounds [OF assms]
    by (simp_all add: u_def e_def pow2_add [symmetric] add.commute less_imp_le)
  have "pow2 52 \<le> x / u" using lo u by (simp add: pos_le_divide_eq)
  then have "2 ^ 52 \<le> round_half_even (x / u)" by (intro round_half_even_ge) (simp add: pow2_def)
  then have "(of_int (2 ^ 52) :: rat) \<le> of_int (round_half_even (x / u))"
    using of_int_le_iff by blast
  then have "pow2 52 * u \<le> fl_pos x"
    using u by (simp add: fl_pos_def u_def e_def Let_def pow2_52 mult_right_mono)
  then show "pow2 (ilog2 x) \<le> fl_pos x" by (simp add: u_def e_def pow2_add [symmetric])
  have "x / u \<le> pow2 53" using hi u by (simp add: pos_divide_le_eq)
  then have "round_half_even (x / u) \<le> 2 ^ 53" by (intro round_half_even_le) (simp add: pow2_def)
  then have "(of_int (round_half_even (x / u)) :: rat) \<le> of_int (2 ^ 53)"
    using of_int_le_iff by blast
  then have "fl_pos x \<le> pow2 53 * u"
    using u by (simp add: fl_pos_def u_def e_def Let_def pow2_53 mult_right_mono)
  then show "fl_pos x \<le> pow2 (ilog2 x + 1)"
    by (simp add: u_def e_def pow2_add [symmetric] add.commute)
qed

lemma fl_pos_mono:
  assumes "0 < x" "x \<le> y"
  shows "fl_pos x \<le> fl_pos y"
proof (cases "ilog2 x = ilog2 y")
  case True
  define u where "u = pow2 (ilog2 y - 52)"
  have "x / u \<le> y / u" using assms by (simp add: u_def divide_right_mono)
  then have "round_half_even (x / u) \<le> round_half_even (y / u)" by (rule round_half_even_mono)
  then have "of_int (round_half_even (x / u)) * u \<le> of_int (round_half_even (y / u)) * u"
    by (intro mult_right_mono) (simp_all add: u_def)
  then show ?thesis by (simp add: fl_pos_def True u_def Let_def)
next
  case False
  then have "ilog2 x + 1 \<le> ilog2 y" using ilog2_mono [OF assms] by simp
  then have "pow2 (ilog2 x + 1) \<le> pow2 (ilog2 y)" by (rule pow2_mono)
  then show ?thesis using fl_pos_range(2) [OF assms(1)] fl_pos_range(1) [of y] assms by simp
qed

lemma fl_pos_gt_0: "0 < x \<Longrightarrow> 0 < fl_pos x"
  using fl_pos_range(1) [of x] pow2_pos [of "ilog2 x"] by linarith

lemma fl_0 [simp]: "fl 0 = 0"
  by (simp add: fl_def)

lemma fl_mono: "x \<le> y \<Longrightarrow> fl x \<le> fl y"
  using fl_pos_mono [of x y] fl_pos_mono [of "- y" "- x"] fl_pos_gt_0 [of y] fl_pos_gt_0 [of "- x"]
  by (auto simp: fl_def)

lemma fl_1 [simp]: "fl 1 = 1"
  by code_simp

text \<open>Whole numbers below \<open>2 ^ 53\<close> are doubles.\<close>

lemma fl_of_int:
  assumes "0 \<le> n" "n < 2 ^ 53"
  shows "fl (of_int n) = of_int n"
proof (cases "n = 0")
  case False
  then have pos: "0 < (of_int n :: rat)" using assms by simp
  define e where "e = ilog2 (of_int n)"
  have "e < 53"
  proof (rule ccontr)
    assume "\<not> e < 53"
    then have "pow2 53 \<le> pow2 e" by (intro pow2_mono) simp
    also have "\<dots> \<le> of_int n" unfolding e_def by (rule ilog2_bounds(1) [OF pos])
    finally have "(of_int (2 ^ 53) :: rat) \<le> of_int n" by (simp only: pow2_53)
    then show False using assms(2) by (simp only: of_int_le_iff)
  qed
  then have u: "1 / pow2 (e - 52) = of_int (2 ^ nat (52 - e))"
    using pow2_add [of "e - 52" "52 - e"] by (simp add: field_simps) (simp add: pow2_def)
  have "of_int n / pow2 (e - 52) = of_int (n * 2 ^ nat (52 - e))"
    using u by (simp add: divide_inverse)
  then have "fl_pos (of_int n) = of_int (n * 2 ^ nat (52 - e)) * pow2 (e - 52)"
    by (simp only: fl_pos_def e_def [symmetric] round_half_even_of_int Let_def)
  also have "\<dots> = of_int n / pow2 (e - 52) * pow2 (e - 52)"
    using \<open>of_int n / pow2 (e - 52) = of_int (n * 2 ^ nat (52 - e))\<close> by simp
  finally show ?thesis using pos by (simp add: fl_def)
qed simp

lemma fl_pos_error: "0 < x \<Longrightarrow> \<bar>fl_pos x - x\<bar> \<le> pow2 (ilog2 x - 53)"
proof -
  assume "0 < x"
  define u where "u = pow2 (ilog2 x - 52)"
  have u: "0 < u" by (simp add: u_def)
  have "fl_pos x - x = (of_int (round_half_even (x / u)) - x / u) * u"
    using u by (simp add: fl_pos_def u_def Let_def left_diff_distrib)
  then have "\<bar>fl_pos x - x\<bar> = \<bar>of_int (round_half_even (x / u)) - x / u\<bar> * u"
    using u by (simp add: abs_mult)
  also have "\<dots> \<le> 1/2 * u" using round_half_even_near u by (intro mult_right_mono) auto
  also have "\<dots> = pow2 (ilog2 x - 53)"
    using pow2_Suc [of "ilog2 x - 53"] by (simp add: u_def)
  finally show ?thesis .
qed

section \<open>The contract of rounded arithmetic\<close>

locale rounded_arith =
  fixes rnd :: "rat \<Rightarrow> rat"
  assumes rnd_mono: "x \<le> y \<Longrightarrow> rnd x \<le> rnd y"
    and rnd_zero: "rnd 0 = 0"
    and rnd_one: "rnd 1 = 1"
begin

lemma rnd_nonneg: "0 \<le> x \<Longrightarrow> 0 \<le> rnd x"
  using rnd_mono [of 0 x] by (simp add: rnd_zero)

lemma rnd_le_one: "x \<le> 1 \<Longrightarrow> rnd x \<le> 1"
  using rnd_mono [of x 1] by (simp add: rnd_one)

lemma rnd_prod_mono: "\<lbrakk>0 \<le> w; x \<le> y\<rbrakk> \<Longrightarrow> rnd (w * x) \<le> rnd (w * y)"
  by (intro rnd_mono mult_left_mono)

lemma rnd_sum_mono: "\<lbrakk>x \<le> x'; y \<le> y'\<rbrakk> \<Longrightarrow> rnd (x + y) \<le> rnd (x' + y')"
  by (intro rnd_mono add_mono)

text \<open>The rounded weighted sum of three scores, in the order the code adds them.\<close>

lemma rnd_weighted_mono:
  assumes "0 \<le> u" "0 \<le> v" "0 \<le> w" and "a \<le> a'" "b \<le> b'" "c \<le> c'"
  shows "rnd (rnd (rnd (u * a) + rnd (v * b)) + rnd (w * c))
       \<le> rnd (rnd (rnd (u * a') + rnd (v * b')) + rnd (w * c'))"
  using assms by (intro rnd_sum_mono rnd_prod_mono)

lemma rnd_weighted_nonneg:
  assumes "0 \<le> u" "0 \<le> v" "0 \<le> w" and "0 \<le> a" "0 \<le> b" "0 \<le> c"
  shows "0 \<le> rnd (rnd (rnd (u * a) + rnd (v * b)) + rnd (w * c))"
  using assms by (intro rnd_nonneg add_nonneg_nonneg mult_nonneg_nonneg)

end

interpretation double: rounded_arith fl
  by unfold_locales (simp_all add: fl_mono)

lemmas fl_nonneg [bounds_intro] = double.rnd_nonneg
lemmas fl_le_one [bounds_intro] = double.rnd_le_one

section \<open>\<open>round\<close> and fixed-point formats\<close>

definition py_round :: "nat \<Rightarrow> rat \<Rightarrow> rat" where
  "py_round n x = fl (of_int (round_half_even (x * 10 ^ n)) / 10 ^ n)"

lemma py_round_mono: "x \<le> y \<Longrightarrow> py_round n x \<le> py_round n y"
  unfolding py_round_def
  by (intro fl_mono divide_right_mono) (simp_all add: round_half_even_mono)

lemma py_round_0 [simp]: "py_round n 0 = 0"
  using round_half_even_of_int [of 0] by (simp add: py_round_def)

lemma py_round_1 [simp]: "py_round n 1 = 1"
  using round_half_even_of_int [of "10 ^ n"] by (simp add: py_round_def)

lemma py_round_nonneg [bounds_intro]: "0 \<le> x \<Longrightarrow> 0 \<le> py_round n x"
  using py_round_mono [of 0 x n] by simp

lemma py_round_le_one [bounds_intro]: "x \<le> 1 \<Longrightarrow> py_round n x \<le> 1"
  using py_round_mono [of x 1 n] by simp

definition fixed :: "nat \<Rightarrow> rat \<Rightarrow> string" where
  "fixed n x =
     (let m = round_half_even (\<bar>x\<bar> * 10 ^ n);
          ds = pad_left (n + 1) (CHR ''0'') (dec_str m);
          k = length ds - n
      in (if x < 0 then ''-'' else '''') @ take k ds @ (if n = 0 then '''' else CHR ''.'' # drop k ds))"

text \<open>The text of a \<open>:.0%\<close> format multiplies by 100 in floating point first.\<close>

definition percent0 :: "rat \<Rightarrow> string" where
  "percent0 x = fixed 0 (fl (x * 100)) @ ''%''"

text \<open>Floor of a float, Python's \<open>int(x)\<close> for \<open>0 \<le> x\<close>.\<close>

definition int_of :: "rat \<Rightarrow> int" where
  "int_of x = (if x < 0 then - \<lfloor>- x\<rfloor> else \<lfloor>x\<rfloor>)"

end
