(* ===== verification/PyDecimal.thy ===== *)
theory PyDecimal
  imports PyFloat
begin

text \<open>
  Python's \<open>decimal.Decimal\<close> under the default context (28 significant digits, ties to even,
  largest exponent 999999; \<open>InvalidOperation\<close> and \<open>Overflow\<close> are trapped, so they are raised).
  A number is a sign, a coefficient and an exponent; there are infinities and quiet and
  signalling NaNs, because the constructor accepts their names and the cells of a file can spell
  them. Not modelled: NaN payloads, subnormal results below \<open>1E-999999\<close>, and exponents of more
  than 18 digits in the constructor.
\<close>

datatype decimal =
    Num bool int int \<comment> \<open>negative?, coefficient, exponent\<close>
  | Infinity bool
  | NaN bool \<comment> \<open>signalling?\<close>

definition pow10 :: "int \<Rightarrow> rat" where
  "pow10 e = (if 0 \<le> e then 10 ^ nat e else 1 / 10 ^ nat (- e))"

fun dec_val :: "decimal \<Rightarrow> rat" where
  "dec_val (Num s c e) = (if s then - of_int c else of_int c) * pow10 e"
| "dec_val _ = 0"

fun is_num :: "decimal \<Rightarrow> bool" where
  "is_num (Num _ _ _) = True"
| "is_num _ = False"

fun is_nan :: "decimal \<Rightarrow> bool" where
  "is_nan (NaN _) = True"
| "is_nan _ = False"

fun is_snan :: "decimal \<Rightarrow> bool" where
  "is_snan (NaN s) = s"
| "is_snan _ = False"

section \<open>The constructor\<close>

text \<open>A sign, then digits with at most one point and an exponent, or \<open>Inf\<close>, or \<open>NaN\<close>.\<close>

definition take_digits :: "string \<Rightarrow> string \<times> string" where
  "take_digits s = (takeWhile is_digit s, dropWhile is_digit s)"

definition parse_sign :: "string \<Rightarrow> bool \<times> string" where
  "parse_sign s = (case s of [] \<Rightarrow> (False, []) | c # cs \<Rightarrow>
     if c = CHR ''-'' then (True, cs) else if c = CHR ''+'' then (False, cs) else (False, s))"

definition parse_exponent :: "string \<Rightarrow> int option" where
  "parse_exponent s = (case s of [] \<Rightarrow> Some 0 | c # cs \<Rightarrow>
     if to_lower c \<noteq> CHR ''e'' then None else
       let (neg, ds) = parse_sign cs in
       if ds = [] \<or> \<not> list_all is_digit ds then None
       else Some (if neg then - digits_val ds else digits_val ds))"

definition parse_finite :: "bool \<Rightarrow> string \<Rightarrow> decimal option" where
  "parse_finite neg s =
     (let (ip, r) = take_digits s;
          (fp, r') = (case r of [] \<Rightarrow> ([], []) | c # cs \<Rightarrow>
             if c = CHR ''.'' then take_digits cs else ([], r))
      in if ip = [] \<and> fp = [] then None
         else map_option (\<lambda>e. Num neg (digits_val (ip @ fp)) (e - int (length fp))) (parse_exponent r'))"

definition parse_special :: "bool \<Rightarrow> string \<Rightarrow> decimal option" where
  "parse_special neg s =
     (let t = lower s in
      if t = ''inf'' \<or> t = ''infinity'' then Some (Infinity neg)
      else if take 3 t = ''nan'' \<and> list_all is_digit (drop 3 t) then Some (NaN False)
      else if take 4 t = ''snan'' \<and> list_all is_digit (drop 4 t) then Some (NaN True)
      else None)"

text \<open>
  \<open>Decimal(text)\<close>: surrounding white space and underscores do not count. \<open>None\<close> is the
  \<open>InvalidOperation\<close> of a text that is not a number.
\<close>

definition decimal_of :: "string \<Rightarrow> decimal option" where
  "decimal_of text =
     (let s = filter (\<lambda>c. c \<noteq> CHR ''_'') (strip text);
          (neg, body) = parse_sign s
      in case parse_finite neg body of Some d \<Rightarrow> Some d | None \<Rightarrow> parse_special neg body)"

section \<open>Arithmetic in the default context\<close>

definition prec :: nat where
  "prec = 28"

definition num_digits :: "int \<Rightarrow> nat" where
  "num_digits c = length (dec_str c)"

text \<open>Rounding a result to 28 digits, and the overflow check.\<close>

definition ctx_fix :: "bool \<Rightarrow> int \<Rightarrow> int \<Rightarrow> decimal result" where
  "ctx_fix s c e =
     (let k = num_digits c - prec;
          c' = (if k = 0 then c else round_half_even (of_int c / 10 ^ k));
          (c'', e'') = (if num_digits c' \<le> prec then (c', e + int k) else (c' div 10, e + int k + 1))
      in if c'' \<noteq> 0 \<and> 999999 < e'' + int (num_digits c'') - 1 then Inl DecimalOverflow
         else Inr (Num s c'' e''))"

fun dec_neg :: "decimal \<Rightarrow> decimal result" where
  "dec_neg (Num s c e) = ctx_fix (c \<noteq> 0 \<and> \<not> s) c e"
| "dec_neg (Infinity s) = Inr (Infinity (\<not> s))"
| "dec_neg (NaN s) = (if s then Inl InvalidOperation else Inr (NaN False))"

fun dec_abs :: "decimal \<Rightarrow> decimal result" where
  "dec_abs (Num s c e) = ctx_fix False c e"
| "dec_abs (Infinity s) = Inr (Infinity False)"
| "dec_abs (NaN s) = (if s then Inl InvalidOperation else Inr (NaN False))"

definition nan_or :: "decimal \<Rightarrow> decimal \<Rightarrow> decimal result \<Rightarrow> decimal result" where
  "nan_or a b r =
     (if is_snan a \<or> is_snan b then Inl InvalidOperation
      else if is_nan a \<or> is_nan b then Inr (NaN False) else r)"

fun mul_core :: "decimal \<Rightarrow> decimal \<Rightarrow> decimal result" where
  "mul_core (Num s c e) (Num t d f) = ctx_fix (s \<noteq> t) (c * d) (e + f)"
| "mul_core (Num s c e) (Infinity t) = (if c = 0 then Inl InvalidOperation else Inr (Infinity (s \<noteq> t)))"
| "mul_core (Infinity s) (Num t d f) = (if d = 0 then Inl InvalidOperation else Inr (Infinity (s \<noteq> t)))"
| "mul_core (Infinity s) (Infinity t) = Inr (Infinity (s \<noteq> t))"
| "mul_core _ _ = Inr (NaN False)"

definition dec_mul :: "decimal \<Rightarrow> decimal \<Rightarrow> decimal result" where
  "dec_mul a b = nan_or a b (mul_core a b)"

definition signed :: "bool \<Rightarrow> int \<Rightarrow> int" where
  "signed s c = (if s then - c else c)"

text \<open>The exact difference is taken at the smaller exponent and rounded once.\<close>

fun sub_core :: "decimal \<Rightarrow> decimal \<Rightarrow> decimal result" where
  "sub_core (Num s c e) (Num t d f) =
     (let g = min e f; r = signed s c * 10 ^ nat (e - g) - signed t d * 10 ^ nat (f - g)
      in ctx_fix (r < 0) \<bar>r\<bar> g)"
| "sub_core (Num s c e) (Infinity t) = Inr (Infinity (\<not> t))"
| "sub_core (Infinity s) (Num t d f) = Inr (Infinity s)"
| "sub_core (Infinity s) (Infinity t) = (if s = t then Inl InvalidOperation else Inr (Infinity s))"
| "sub_core _ _ = Inr (NaN False)"

definition dec_sub :: "decimal \<Rightarrow> decimal \<Rightarrow> decimal result" where
  "dec_sub a b = nan_or a b (sub_core a b)"

text \<open>Ordering raises on any NaN; equality raises on a signalling one only.\<close>

fun le_core :: "decimal \<Rightarrow> decimal \<Rightarrow> bool" where
  "le_core (Infinity True) _ = True"
| "le_core _ (Infinity False) = True"
| "le_core (Infinity False) _ = False"
| "le_core _ (Infinity True) = False"
| "le_core a b = (dec_val a \<le> dec_val b)"

definition dec_le :: "decimal \<Rightarrow> decimal \<Rightarrow> bool result" where
  "dec_le a b = (if is_nan a \<or> is_nan b then Inl InvalidOperation else Inr (le_core a b))"

definition dec_is_zero :: "decimal \<Rightarrow> bool result" where
  "dec_is_zero a =
     (if is_snan a then Inl InvalidOperation else Inr (is_num a \<and> dec_val a = 0))"

section \<open>Lemmas\<close>

lemma nan_or_num [simp]: "is_num a \<Longrightarrow> is_num b \<Longrightarrow> nan_or a b r = r"
  by (cases a; cases b) (simp_all add: nan_or_def)

lemma dec_mul_num [simp]: "dec_mul (Num s c e) (Num t d f) = ctx_fix (s \<noteq> t) (c * d) (e + f)"
  by (simp add: dec_mul_def)

lemma dec_le_nan: "is_nan a \<or> is_nan b \<Longrightarrow> dec_le a b = Inl InvalidOperation"
  by (auto simp: dec_le_def)

lemma dec_mul_nan:
  assumes "is_nan a \<or> is_nan b"
  shows "dec_mul a b = Inl InvalidOperation \<or> dec_mul a b = Inr (NaN False)"
  using assms by (auto simp: dec_mul_def nan_or_def)

lemma is_nan_cases: "is_nan d \<longleftrightarrow> (\<exists>s. d = NaN s)"
  by (cases d) auto

lemma dec_le_num: "is_num a \<Longrightarrow> is_num b \<Longrightarrow> dec_le a b = Inr (dec_val a \<le> dec_val b)"
  by (cases a; cases b) (auto simp: dec_le_def)

lemma pow10_pos [simp]: "0 < pow10 e"
  by (simp add: pow10_def)

lemma ctx_fix_small:
  assumes "num_digits c \<le> prec" and "c = 0 \<or> e + int (num_digits c) - 1 \<le> 999999"
  shows "ctx_fix s c e = Inr (Num s c e)"
  using assms by (auto simp: ctx_fix_def Let_def)

end
