(* ===== verification/Canonical.thy ===== *)
theory Canonical
  imports PyText PyDecimal "HOL-Library.Multiset"
begin

text \<open>
  The canonical schema and the Tier 1 alias dictionary:
  \<open>python/src/inspector/mapping/canonical.py\<close>. The tables are the code's, one definition per
  canonical field's aliases; \<open>build_alias_index\<close> is the module's import-time loop, whose
  duplicate guard is an error result, and \<open>ALIAS_INDEX\<close> the dictionary it leaves.
\<close>

section \<open>Domains, tiers and fields\<close>

datatype domain = TRADE | POSITION | CASH | COLLATERAL | UNKNOWN

datatype tier = ALIAS | LOCAL | LLM | HUMAN | UNRESOLVED

primrec domain_str :: "domain \<Rightarrow> string" where
  "domain_str TRADE = ''TRADE''"
| "domain_str POSITION = ''POSITION''"
| "domain_str CASH = ''CASH''"
| "domain_str COLLATERAL = ''COLLATERAL''"
| "domain_str UNKNOWN = ''UNKNOWN''"

definition domain_of :: "string \<Rightarrow> domain option" where
  "domain_of s = find (\<lambda>d. domain_str d = s) [TRADE, POSITION, CASH, COLLATERAL, UNKNOWN]"

primrec tier_str :: "tier \<Rightarrow> string" where
  "tier_str ALIAS = ''ALIAS''"
| "tier_str LOCAL = ''LOCAL''"
| "tier_str LLM = ''LLM''"
| "tier_str HUMAN = ''HUMAN''"
| "tier_str UNRESOLVED = ''UNRESOLVED''"

definition CANONICAL_FIELDS :: "string list" where
  "CANONICAL_FIELDS =
    [''arrival_id'', ''source_system'', ''client_id'', ''account_id'',
     ''account_name'', ''trade_id'', ''instrument_id'', ''instrument_type'',
     ''trade_date'', ''value_date'', ''quantity'', ''trade_price'',
     ''settlement_price'', ''gross_amount'', ''net_amount'', ''market_value'',
     ''currency'', ''side'', ''domain'']"

definition MAPPABLE_FIELDS :: "string list" where
  "MAPPABLE_FIELDS =
    [''source_system'', ''account_id'', ''account_name'', ''trade_id'',
     ''instrument_id'', ''instrument_type'', ''trade_date'', ''quantity'',
     ''trade_price'', ''settlement_price'', ''gross_amount'', ''net_amount'',
     ''market_value'', ''currency'', ''side'']"

definition FIELD_WEIGHTS :: "(string, int) dict" where
  "FIELD_WEIGHTS =
    [(''quantity'', 3),
     (''trade_price'', 3),
     (''settlement_price'', 3),
     (''gross_amount'', 3),
     (''net_amount'', 3),
     (''market_value'', 3),
     (''account_id'', 2),
     (''instrument_id'', 2),
     (''trade_id'', 2),
     (''trade_date'', 2),
     (''currency'', 2)]"

definition DEFAULT_FIELD_WEIGHT :: int where
  "DEFAULT_FIELD_WEIGHT = 1"

definition field_weight :: "string \<Rightarrow> int" where
  "field_weight f = dict_get_or FIELD_WEIGHTS f DEFAULT_FIELD_WEIGHT"

primrec REQUIRED_BY_DOMAIN :: "domain \<Rightarrow> string list" where
  "REQUIRED_BY_DOMAIN TRADE =
     [''account_id'', ''instrument_id'', ''trade_date'', ''quantity'',
      ''trade_price'', ''net_amount'', ''currency'']"
| "REQUIRED_BY_DOMAIN POSITION =
     [''account_id'', ''instrument_id'', ''quantity'', ''settlement_price'',
      ''market_value'']"
| "REQUIRED_BY_DOMAIN CASH =
     [''account_id'', ''net_amount'', ''currency'']"
| "REQUIRED_BY_DOMAIN COLLATERAL =
     [''account_id'', ''instrument_id'', ''market_value'', ''currency'']"
| "REQUIRED_BY_DOMAIN UNKNOWN =
     []"

section \<open>The alias tables\<close>

definition ALIASES_source_system :: "string list" where
  "ALIASES_source_system =
    [''source'', ''sourcesystem'', ''venue'', ''exchange'', ''market'',
     ''clearinghouse'', ''mic'']"

definition ALIASES_account_id :: "string list" where
  "ALIASES_account_id =
    [''accountid'', ''account'', ''acctno'', ''acctnum'', ''accountnumber'',
     ''acctid'', ''accountno'', ''clientaccount'', ''custodyaccount'',
     ''safekeepingaccount'', ''portfolioid'', ''portfolio'', ''book'', ''bookid'',
     ''subaccount'', ''omnibusaccount'', ''clearingaccount'', ''acct'']"

definition ALIASES_account_name :: "string list" where
  "ALIASES_account_name =
    [''accountname'', ''acctname'', ''portfolioname'', ''fundname'', ''clientname'',
     ''accounttitle'', ''safekeepingaccountname'', ''bookname'']"

definition ALIASES_trade_id :: "string list" where
  "ALIASES_trade_id =
    [''tradeid'', ''trdid'', ''dealid'', ''executionid'', ''execid'', ''orderid'',
     ''transactionid'', ''ticket'', ''ticketno'', ''ticketnumber'',
     ''referencenumber'', ''refno'', ''reference'', ''tradereference'',
     ''confirmationid'', ''clordid'', ''tradenumber'']"

definition ALIASES_instrument_id :: "string list" where
  "ALIASES_instrument_id =
    [''instrument'', ''instrumentid'', ''symbol'', ''ticker'', ''isin'', ''cusip'',
     ''sedol'', ''figi'', ''securityid'', ''secid'', ''contractcode'', ''contract'',
     ''occsymbol'', ''productcode'', ''product'', ''underlying'',
     ''underlyingsymbol'', ''securitydescription'', ''description'',
     ''instrumentcode'', ''ric'', ''bbgticker'']"

definition ALIASES_instrument_type :: "string list" where
  "ALIASES_instrument_type =
    [''instrumenttype'', ''assetclass'', ''producttype'', ''sectype'',
     ''securitytype'', ''cficode'', ''instrumentclass'', ''assettype'',
     ''contracttype'']"

definition ALIASES_trade_date :: "string list" where
  "ALIASES_trade_date =
    [''tradedate'', ''trddate'', ''dealdate'', ''executiondate'',
     ''transactiondate'', ''dateexecuted'', ''businessdate'', ''activitydate'',
     ''bookingdate'', ''asof'', ''asofdate'', ''date'']"

definition ALIASES_quantity :: "string list" where
  "ALIASES_quantity =
    [''qty'', ''quantity'', ''lastqty'', ''filledqty'', ''shares'', ''units'',
     ''contracts'', ''numberofcontracts'', ''faceamount'', ''facevalue'',
     ''nominal'', ''nominalamount'', ''lotsize'', ''position'', ''netposition'',
     ''positionquantity'', ''openquantity'', ''balance'', ''holdings'',
     ''tradequantity'', ''settlementquantity'']"

definition ALIASES_trade_price :: "string list" where
  "ALIASES_trade_price =
    [''price'', ''tradeprice'', ''lastprice'', ''execprice'', ''executionprice'',
     ''fillprice'', ''dealprice'', ''avgprice'', ''averageprice'', ''executedprice'',
     ''lastpx'', ''avgpx'', ''pricetraded'', ''unitprice'', ''cleanprice'',
     ''grossprice'']"

definition ALIASES_settlement_price :: "string list" where
  "ALIASES_settlement_price =
    [''settleprice'', ''settlementprice'', ''closeprice'', ''closingprice'',
     ''mtmprice'', ''marktomarketprice'', ''marktomarket'',
     ''officialsettlementprice'', ''officialprice'', ''dccprice'', ''eodprice'',
     ''priorsettleprice'', ''previoussettlementprice'', ''endofdayprice'',
     ''valuationprice'', ''markprice'', ''settlementpx'']"

definition ALIASES_gross_amount :: "string list" where
  "ALIASES_gross_amount =
    [''grossamount'', ''grossamt'', ''grossvalue'', ''grossproceeds'', ''principal'',
     ''principalamount'', ''grosscash'', ''grossconsideration'', ''consideration'']"

definition ALIASES_net_amount :: "string list" where
  "ALIASES_net_amount =
    [''netamount'', ''netamt'', ''netmoney'', ''netcash'', ''proceeds'',
     ''netproceeds'', ''settlementamount'', ''settlementvalue'', ''settleamt'',
     ''settlementamt'', ''cashamount'', ''netsettlementvalue'', ''totalamount'',
     ''amountdue'', ''amount'', ''netconsideration'', ''cashvalue'',
     ''movementamount'', ''debitcredit'']"

definition ALIASES_market_value :: "string list" where
  "ALIASES_market_value =
    [''marketvalue'', ''mktval'', ''mktvalue'', ''mv'', ''currentmarketvalue'',
     ''fairvalue'', ''notionalvalue'', ''notional'', ''valuation'',
     ''positionvalue'', ''collateralvalue'', ''marketvalueinbase'',
     ''basemarketvalue'']"

definition ALIASES_currency :: "string list" where
  "ALIASES_currency =
    [''currency'', ''ccy'', ''curr'', ''cur'', ''settlementcurrency'', ''settleccy'',
     ''tradecurrency'', ''tradeccy'', ''currencycode'', ''isocurrency'',
     ''denomination'']"

definition ALIASES_side :: "string list" where
  "ALIASES_side =
    [''side'', ''buysell'', ''buyorsell'', ''direction'', ''action'', ''longshort'',
     ''transactiontype'', ''dealtype'', ''bs'', ''sidecode'']"

definition FIELD_ALIASES :: "(string, string list) dict" where
  "FIELD_ALIASES =
    [(''source_system'', ALIASES_source_system),
     (''account_id'', ALIASES_account_id),
     (''account_name'', ALIASES_account_name),
     (''trade_id'', ALIASES_trade_id),
     (''instrument_id'', ALIASES_instrument_id),
     (''instrument_type'', ALIASES_instrument_type),
     (''trade_date'', ALIASES_trade_date),
     (''quantity'', ALIASES_quantity),
     (''trade_price'', ALIASES_trade_price),
     (''settlement_price'', ALIASES_settlement_price),
     (''gross_amount'', ALIASES_gross_amount),
     (''net_amount'', ALIASES_net_amount),
     (''market_value'', ALIASES_market_value),
     (''currency'', ALIASES_currency),
     (''side'', ALIASES_side)]"

definition NOISE_TOKENS :: "string list" where
  "NOISE_TOKENS =
    [''usd'', ''eur'', ''gbp'', ''jpy'', ''chf'', ''hkd'', ''local'', ''base'',
     ''reporting'', ''inbase'', ''inlocal'', ''amt'', ''value1'', ''col'']"

section \<open>Normalising headers and looking them up\<close>

definition normalize_header :: "string \<Rightarrow> string" where
  "normalize_header raw = filter is_alnum (lower raw)"

definition strip_token :: "string \<Rightarrow> string \<Rightarrow> string" where
  "strip_token token out =
     (if suffix token out \<and> length token + 2 < length out
      then take (length out - length token) out else out)"

definition strip_noise :: "string \<Rightarrow> string" where
  "strip_noise normalized = fold strip_token NOISE_TOKENS normalized"

text \<open>The body of the inner loop: an alias already claimed by another field stops the import.\<close>

definition add_alias :: "string \<Rightarrow> string \<Rightarrow> (string, string) dict \<Rightarrow> (string, string) dict result" where
  "add_alias canonical alias idx =
     (case dict_get idx alias of
        Some other \<Rightarrow> if other \<noteq> canonical then Inl ValueError else Inr (dict_set alias canonical idx)
      | None \<Rightarrow> Inr (dict_set alias canonical idx))"

primrec add_aliases :: "string \<Rightarrow> string list \<Rightarrow> (string, string) dict \<Rightarrow> (string, string) dict result" where
  "add_aliases canonical [] idx = Inr idx"
| "add_aliases canonical (a # as) idx = res_bind (add_alias canonical a idx) (add_aliases canonical as)"

fun build_alias_index ::
    "(string \<times> string list) list \<Rightarrow> (string, string) dict \<Rightarrow> (string, string) dict result" where
  "build_alias_index [] idx = Inr idx"
| "build_alias_index ((canonical, aliases) # more) idx =
     res_bind (add_aliases canonical aliases
                 (dict_set (normalize_header canonical) canonical (dict_set canonical canonical idx)))
       (build_alias_index more)"

definition ALIAS_INDEX :: "(string, string) dict" where
  "ALIAS_INDEX = (case build_alias_index FIELD_ALIASES [] of Inr idx \<Rightarrow> idx | Inl _ \<Rightarrow> [])"

definition alias_lookup :: "string \<Rightarrow> string option" where
  "alias_lookup raw_header =
     (let normalized = normalize_header raw_header in
      case dict_get ALIAS_INDEX normalized of
        Some hit \<Rightarrow> Some hit
      | None \<Rightarrow> dict_get ALIAS_INDEX (strip_noise normalized))"

definition alias_count :: nat where
  "alias_count = length ALIAS_INDEX"

section \<open>The canonical record\<close>

record canonical_record =
  cr_arrival_id :: string
  cr_source_system :: "string option"
  cr_client_id :: "string option"
  cr_account_id :: "string option"
  cr_account_name :: "string option"
  cr_trade_id :: "string option"
  cr_instrument_id :: "string option"
  cr_instrument_type :: "string option"
  cr_trade_date :: "string option"
  cr_value_date :: "string option"
  cr_quantity :: "decimal option"
  cr_trade_price :: "decimal option"
  cr_settlement_price :: "decimal option"
  cr_gross_amount :: "decimal option"
  cr_net_amount :: "decimal option"
  cr_market_value :: "decimal option"
  cr_currency :: "string option"
  cr_side :: "string option"
  cr_domain :: string

section \<open>The index is consistent\<close>

text \<open>The keys one entry of \<open>FIELD_ALIASES\<close> claims; \<open>alias_of\<close> is the index as a function.\<close>

definition group_keys :: "string \<times> string list \<Rightarrow> string list" where
  "group_keys g = remdups (fst g # normalize_header (fst g) # snd g)"

definition alias_of :: "string \<Rightarrow> string option" where
  "alias_of k = map_option fst (find (\<lambda>g. k \<in> set (group_keys g)) FIELD_ALIASES)"

lemma add_aliases_ok:
  assumes "\<And>a. a \<in> set as \<Longrightarrow> dict_get idx a = None \<or> dict_get idx a = Some c"
  shows "\<exists>idx'. add_aliases c as idx = Inr idx'
           \<and> (\<forall>k. dict_get idx' k = (if k \<in> set as then Some c else dict_get idx k))"
  using assms
proof (induction as arbitrary: idx)
  case (Cons a as)
  have "add_alias c a idx = Inr (dict_set a c idx)"
    using Cons.prems [of a] by (auto simp: add_alias_def)
  moreover have "dict_get (dict_set a c idx) b = None \<or> dict_get (dict_set a c idx) b = Some c"
    if "b \<in> set as" for b
    using Cons.prems [of b] that by simp
  then obtain idx' where "add_aliases c as (dict_set a c idx) = Inr idx'"
    "\<forall>k. dict_get idx' k = (if k \<in> set as then Some c else dict_get (dict_set a c idx) k)"
    using Cons.IH [of "dict_set a c idx"] by blast
  ultimately show ?case by auto
qed simp

lemma build_alias_index_ok:
  assumes "distinct (concat (map group_keys gs))"
    and "\<And>k. k \<in> set (concat (map group_keys gs)) \<Longrightarrow> dict_get idx k = None"
  shows "\<exists>idx'. build_alias_index gs idx = Inr idx'
           \<and> (\<forall>k. dict_get idx' k =
                (case find (\<lambda>g. k \<in> set (group_keys g)) gs of
                   Some g \<Rightarrow> Some (fst g) | None \<Rightarrow> dict_get idx k))"
  using assms
proof (induction gs arbitrary: idx)
  case (Cons g gs)
  obtain c as where g: "g = (c, as)" by (cases g)
  let ?i = "dict_set (normalize_header c) c (dict_set c c idx)"
  have new: "dict_get idx k = None" if "k \<in> set (group_keys g)" for k
    using Cons.prems(2) that by auto
  then have "dict_get ?i a = None \<or> dict_get ?i a = Some c" if "a \<in> set as" for a
    using that by (auto simp: group_keys_def g)
  then obtain i where i: "add_aliases c as ?i = Inr i"
    "\<forall>k. dict_get i k = (if k \<in> set as then Some c else dict_get ?i k)"
    using add_aliases_ok by blast
  have get: "dict_get i k = (if k \<in> set (group_keys g) then Some c else dict_get idx k)" for k
    by (auto simp: i group_keys_def g)
  have "dict_get i k = None" if "k \<in> set (concat (map group_keys gs))" for k
    using Cons.prems that by (auto simp: get)
  then obtain idx' where idx': "build_alias_index gs i = Inr idx'"
    "\<forall>k. dict_get idx' k = (case find (\<lambda>g. k \<in> set (group_keys g)) gs of
        Some g \<Rightarrow> Some (fst g) | None \<Rightarrow> dict_get i k)"
    using Cons.IH [of i] Cons.prems by auto
  have "find (\<lambda>g. k \<in> set (group_keys g)) gs = None" if "k \<in> set (group_keys g)" for k
    using Cons.prems(1) that by (auto simp: find_None_iff)
  then have "dict_get idx' k = (case find (\<lambda>g. k \<in> set (group_keys g)) (g # gs) of
        Some g \<Rightarrow> Some (fst g) | None \<Rightarrow> dict_get idx k)" for k
    by (cases "k \<in> set (group_keys g)") (simp_all add: idx' get g split: option.split)
  moreover have "build_alias_index (g # gs) idx = Inr idx'" by (simp add: g i idx')
  ultimately show ?case by blast
qed simp

lemma group_keys_mem: "k \<in> set (group_keys g) \<longleftrightarrow> k = fst g \<or> k = normalize_header (fst g) \<or> k \<in> set (snd g)"
  by (auto simp: group_keys_def)

lemma alias_of_code [code]:
  "alias_of k = map_option fst
     (find (\<lambda>(c, as). k = c \<or> k \<in> set as \<or> k = normalize_header c) FIELD_ALIASES)"
proof -
  have "(\<lambda>g. k \<in> set (group_keys g)) = (\<lambda>(c, as). k = c \<or> k \<in> set as \<or> k = normalize_header c)"
    by (auto simp: group_keys_mem)
  then show ?thesis by (simp add: alias_of_def)
qed

text \<open>
  That no two entries of the table claim a key is checked by computation: keys are numbered,
  each entry's numbers are sorted, and the sorted lists are merged into a strictly ascending one.
\<close>

definition str_code :: "string \<Rightarrow> int" where
  "str_code s = foldl (\<lambda>n c. n * 256 + of_char c) 1 s"

primrec ins :: "int \<Rightarrow> int list \<Rightarrow> int list" where
  "ins x [] = [x]"
| "ins x (y # ys) = (if x < y then x # y # ys else y # ins x ys)"

fun mrg :: "int list \<Rightarrow> int list \<Rightarrow> int list" where
  "mrg [] ys = ys"
| "mrg xs [] = xs"
| "mrg (x # xs) (y # ys) = (if x < y then x # mrg xs (y # ys) else y # mrg (x # xs) ys)"

fun strict :: "int list \<Rightarrow> bool" where
  "strict (x # y # ys) = (x < y \<and> strict (y # ys))"
| "strict _ = True"

lemma mset_ins [simp]: "mset (ins x ys) = add_mset x (mset ys)"
  by (induction ys) auto

lemma mset_foldr_ins [simp]: "mset (foldr ins xs ys) = mset xs + mset ys"
  by (induction xs) auto

lemma mset_mrg [simp]: "mset (mrg xs ys) = mset xs + mset ys"
  by (induction xs ys rule: mrg.induct) auto

lemma mset_foldl_mrg: "mset (foldl mrg acc xss) = mset acc + mset (concat xss)"
  by (induction xss arbitrary: acc) (auto simp: add.assoc)

lemma strict_distinct: "strict xs \<Longrightarrow> distinct xs"
proof -
  have "strict xs \<Longrightarrow> sorted_wrt (<) xs"
    by (induction xs rule: strict.induct) auto
  then show "strict xs \<Longrightarrow> distinct xs" by (simp add: strict_sorted_iff)
qed

lemma alias_keys_strict:
  "strict (foldl mrg [] (map (\<lambda>g. foldr ins (map str_code (group_keys g)) []) FIELD_ALIASES))"
  by code_simp

lemma alias_keys_distinct: "distinct (concat (map group_keys FIELD_ALIASES))"
proof -
  have "mset (concat (map (\<lambda>g. foldr ins (map str_code (group_keys g)) []) gs))
      = mset (map str_code (concat (map group_keys gs)))" for gs
    by (induction gs) auto
  then have "distinct (map str_code (concat (map group_keys FIELD_ALIASES)))"
    using strict_distinct [OF alias_keys_strict] mset_foldl_mrg
    by (metis add_0 mset.simps(1) mset_eq_imp_distinct_iff)
  then show ?thesis by (simp only: distinct_map)
qed

lemma build_alias_index_FIELD_ALIASES:
  "\<exists>idx. build_alias_index FIELD_ALIASES [] = Inr idx \<and> (\<forall>k. dict_get idx k = alias_of k)"
proof -
  obtain idx where "build_alias_index FIELD_ALIASES [] = Inr idx" and
    get: "\<forall>k. dict_get idx k = (case find (\<lambda>g. k \<in> set (group_keys g)) FIELD_ALIASES of
        Some g \<Rightarrow> Some (fst g) | None \<Rightarrow> dict_get [] k)"
    using build_alias_index_ok [OF alias_keys_distinct, of "[]"] by auto
  moreover have "dict_get idx k = alias_of k" for k
    using get by (cases "find (\<lambda>g. k \<in> set (group_keys g)) FIELD_ALIASES") (simp_all add: alias_of_def)
  ultimately show ?thesis by blast
qed

lemma ALIAS_INDEX_get: "dict_get ALIAS_INDEX k = alias_of k"
  using build_alias_index_FIELD_ALIASES by (auto simp: ALIAS_INDEX_def)

lemma alias_lookup_code [code]:
  "alias_lookup raw =
     (let n = normalize_header raw in
      case alias_of n of Some hit \<Rightarrow> Some hit | None \<Rightarrow> alias_of (strip_noise n))"
  by (cases "alias_of (normalize_header raw)") (simp_all add: alias_lookup_def ALIAS_INDEX_get)

lemma alias_keys_mappable: "list_all (\<lambda>g. fst g \<in> set MAPPABLE_FIELDS) FIELD_ALIASES"
  by code_simp

lemma alias_of_mappable: "alias_of k = Some c \<Longrightarrow> c \<in> set MAPPABLE_FIELDS"
  using alias_keys_mappable by (auto simp: alias_of_def find_Some_iff list_all_length) (metis fst_conv)

lemma alias_lookup_mappable: "alias_lookup h = Some c \<Longrightarrow> c \<in> set MAPPABLE_FIELDS"
  by (auto simp: alias_lookup_code Let_def dest: alias_of_mappable split: option.splits)

lemma distinct_find:
  "distinct (concat (map group_keys gs)) \<Longrightarrow> g \<in> set gs \<Longrightarrow> k \<in> set (group_keys g) \<Longrightarrow>
     find (\<lambda>g. k \<in> set (group_keys g)) gs = Some g"
  by (induction gs) auto

lemma mappable_canonical: "f \<in> set MAPPABLE_FIELDS \<Longrightarrow> f \<in> set CANONICAL_FIELDS"
proof -
  have "list_all (\<lambda>f. f \<in> set CANONICAL_FIELDS) MAPPABLE_FIELDS" by code_simp
  then show "f \<in> set MAPPABLE_FIELDS \<Longrightarrow> f \<in> set CANONICAL_FIELDS" by (simp add: list_all_iff)
qed

lemma field_weight_pos: "0 < field_weight f"
  by (auto simp: field_weight_def dict_get_or_def FIELD_WEIGHTS_def DEFAULT_FIELD_WEIGHT_def)

text \<open>Importing the module does not fail, and every alias of a canonical field is found from any
  header that normalises to it, whatever its case, spaces and punctuation; a header is never
  mapped to a field the mapper may not assign.\<close>

lemma alias_lookup_complete:
  "(\<exists>idx. build_alias_index FIELD_ALIASES [] = Inr idx)
   \<and> (\<forall>(c, as) \<in> set FIELD_ALIASES. \<forall>a \<in> set (c # as). \<forall>h.
        normalize_header h = a \<longrightarrow> alias_lookup h = Some c)
   \<and> (\<forall>h c. alias_lookup h = Some c \<longrightarrow> c \<in> set MAPPABLE_FIELDS)"
proof -
  have "alias_lookup h = Some c"
    if "(c, as) \<in> set FIELD_ALIASES" "normalize_header h \<in> set (c # as)" for c as h
  proof -
    have "alias_of (normalize_header h) = Some c"
      using distinct_find [OF alias_keys_distinct that(1), of "normalize_header h"] that(2)
      by (auto simp: alias_of_def group_keys_mem)
    then show ?thesis by (simp add: alias_lookup_code)
  qed
  then show ?thesis using build_alias_index_FIELD_ALIASES alias_lookup_mappable by fastforce
qed

lemma alias_lookup_complete_witness: "alias_lookup ''Net Settlement-Value'' = Some ''net_amount''"
proof -
  have "(''net_amount'', ALIASES_net_amount) \<in> set FIELD_ALIASES"
    by (simp add: FIELD_ALIASES_def)
  moreover have "normalize_header ''Net Settlement-Value'' = ''netsettlementvalue''" by code_simp
  moreover have "''netsettlementvalue'' \<in> set ALIASES_net_amount" by (simp add: ALIASES_net_amount_def)
  ultimately show ?thesis using alias_lookup_complete by fastforce
qed

end
