(* ===== verification/ParsedTable.thy ===== *)
theory ParsedTable
  imports PyText
begin

text \<open>
  What every parser produces: \<open>python/src/inspector/parsers/base.py\<close>. \<open>make_table\<close> is the
  dataclass constructor with its \<open>__post_init__\<close> check for duplicate headers.
\<close>

type_synonym row = "(string, string) dict"

abbreviation cell :: "row \<Rightarrow> string \<Rightarrow> string" where
  "cell r h \<equiv> dict_get_or r h ''''"

record parsed_table =
  t_headers :: "string list"
  t_rows :: "row list"
  t_evidence :: "(string, string) dict"
  t_warnings :: "string list"

text \<open>\<open>f"{xs}"\<close> for a list of strings.\<close>

definition list_repr :: "string list \<Rightarrow> string" where
  "list_repr xs = ''['' @ join '', '' (map repr xs) @ '']''"

definition make_table ::
    "string list \<Rightarrow> row list \<Rightarrow> (string, string) dict \<Rightarrow> string list \<Rightarrow> parsed_table result" where
  "make_table hs rs ev ws =
     (if distinct hs then Inr \<lparr>t_headers = hs, t_rows = rs, t_evidence = ev, t_warnings = ws\<rparr>
      else Inl (ParseError (''duplicate column headers: ''
             @ list_repr (sort (remdups (filter (\<lambda>h. 1 < count_list hs h) hs))))))"

definition row_count :: "parsed_table \<Rightarrow> nat" where
  "row_count t = length (t_rows t)"

definition t_column :: "parsed_table \<Rightarrow> string \<Rightarrow> string list" where
  "t_column t header = map (\<lambda>r. cell r header) (t_rows t)"

lemma make_table_Inr:
  "make_table hs rs ev ws = Inr t \<longleftrightarrow>
     distinct hs \<and> t = \<lparr>t_headers = hs, t_rows = rs, t_evidence = ev, t_warnings = ws\<rparr>"
  by (auto simp: make_table_def)

lemma length_column [simp]: "length (t_column t h) = length (t_rows t)"
  by (simp add: t_column_def)

end
