(* ===== verification/PyRegex.thy ===== *)
theory PyRegex
  imports PyText
begin

text \<open>
  The fragment of Python's \<open>re\<close> the services use, as a backtracking matcher: a pattern maps a
  position in the text to the list of positions where a match can end, in the order in which the
  engine tries them, so the head of the list is the match that \<open>re\<close> reports. A position keeps
  the text behind it (reversed), the text ahead of it and the named groups captured so far.
\<close>

section \<open>Patterns\<close>

datatype re =
    Eps
  | Chr "char \<Rightarrow> bool"
  | Seq re re
  | Alt re re
  | Rep nat nat re \<comment> \<open>greedy \<open>{m,n}\<close>\<close>
  | Many nat re \<comment> \<open>greedy \<open>{m,}\<close>\<close>
  | Grp string re
  | NotBehind "char \<Rightarrow> bool" \<comment> \<open>\<open>(?<!c)\<close>\<close>
  | NotAhead "char \<Rightarrow> bool" \<comment> \<open>\<open>(?!c)\<close>\<close>
  | WordB \<comment> \<open>\<open>\b\<close>\<close>

type_synonym pos = "string \<times> string \<times> (string \<times> string) list"

definition Lit :: "char \<Rightarrow> re" where
  "Lit c = Chr (\<lambda>x. x = c)"

fun Word :: "string \<Rightarrow> re" where
  "Word [] = Eps"
| "Word [c] = Lit c"
| "Word (c # d # cs) = Seq (Lit c) (Word (d # cs))"

fun Alts :: "re list \<Rightarrow> re" where
  "Alts [] = Chr (\<lambda>_. False)"
| "Alts [r] = r"
| "Alts (r # q # rs) = Alt r (Alts (q # rs))"

fun Seqs :: "re list \<Rightarrow> re" where
  "Seqs [] = Eps"
| "Seqs [r] = r"
| "Seqs (r # q # rs) = Seq r (Seqs (q # rs))"

section \<open>Matching\<close>

primrec rep :: "(pos \<Rightarrow> pos list) \<Rightarrow> nat \<Rightarrow> nat \<Rightarrow> pos \<Rightarrow> pos list" where
  "rep f lo 0 s = (if lo = 0 then [s] else [])"
| "rep f lo (Suc n) s =
     concat (map (rep f (lo - 1) n) (f s)) @ (if lo = 0 then [s] else [])"

definition at_word_boundary :: "string \<Rightarrow> string \<Rightarrow> bool" where
  "at_word_boundary b a \<longleftrightarrow>
     ((case b of [] \<Rightarrow> False | c # _ \<Rightarrow> is_word c) \<noteq> (case a of [] \<Rightarrow> False | c # _ \<Rightarrow> is_word c))"

primrec run :: "re \<Rightarrow> pos \<Rightarrow> pos list" where
  "run Eps s = [s]"
| "run (Chr P) s = (case s of (b, a, g) \<Rightarrow>
     (case a of [] \<Rightarrow> [] | c # cs \<Rightarrow> if P c then [(c # b, cs, g)] else []))"
| "run (Seq r q) s = concat (map (run q) (run r s))"
| "run (Alt r q) s = run r s @ run q s"
| "run (Rep lo hi r) s = rep (run r) lo hi s"
| "run (Many lo r) s = rep (run r) lo (length (fst (snd s))) s"
| "run (Grp n r) s = map (\<lambda>(b, a, g). (b, a, (n, take (length (fst (snd s)) - length a) (fst (snd s))) # g)) (run r s)"
| "run (NotBehind P) s = (case s of (b, a, g) \<Rightarrow>
     (case b of [] \<Rightarrow> [s] | c # _ \<Rightarrow> if P c then [] else [s]))"
| "run (NotAhead P) s = (case s of (b, a, g) \<Rightarrow>
     (case a of [] \<Rightarrow> [s] | c # _ \<Rightarrow> if P c then [] else [s]))"
| "run WordB s = (case s of (b, a, g) \<Rightarrow> if at_word_boundary b a then [s] else [])"

record rmatch =
  m_text :: string
  m_rest :: string
  m_groups :: "(string \<times> string) list"

definition match_at :: "re \<Rightarrow> string \<Rightarrow> string \<Rightarrow> rmatch option" where
  "match_at r b a = (case run r (b, a, []) of
     [] \<Rightarrow> None
   | (b', a', g) # _ \<Rightarrow>
       Some \<lparr>m_text = take (length a - length a') a, m_rest = a', m_groups = g\<rparr>)"

text \<open>\<open>pattern.match(s)\<close> and \<open>pattern.search(s)\<close>.\<close>

definition re_match :: "re \<Rightarrow> string \<Rightarrow> rmatch option" where
  "re_match r s = match_at r [] s"

fun search_from :: "re \<Rightarrow> string \<Rightarrow> string \<Rightarrow> rmatch option" where
  "search_from r b [] = match_at r b []"
| "search_from r b (c # cs) = (case match_at r b (c # cs) of
     Some m \<Rightarrow> Some m | None \<Rightarrow> search_from r (c # b) cs)"

definition re_search :: "re \<Rightarrow> string \<Rightarrow> rmatch option" where
  "re_search r s = search_from r [] s"

text \<open>
  \<open>pattern.finditer(s)\<close>: matches from left to right, each search starting where the last match
  ended. The patterns of this program never match the empty text, and the model steps over an
  empty match, so the recursion consumes text.
\<close>

function find_from :: "re \<Rightarrow> string \<Rightarrow> string \<Rightarrow> rmatch list" where
  "find_from r b [] = []"
| "find_from r b (c # cs) = (case match_at r b (c # cs) of
     Some m \<Rightarrow>
       (if length (m_rest m) < length (c # cs)
        then m # find_from r (rev (m_text m) @ b) (m_rest m)
        else find_from r (c # b) cs)
   | None \<Rightarrow> find_from r (c # b) cs)"
  by pat_completeness auto
termination
  by (relation "measure (\<lambda>(r, b, a). length a)") auto

definition re_findall :: "re \<Rightarrow> string \<Rightarrow> rmatch list" where
  "re_findall r s = find_from r [] s"

section \<open>Matched text comes from the text\<close>

definition advances :: "pos \<Rightarrow> pos \<Rightarrow> bool" where
  "advances s t \<longleftrightarrow> (\<exists>w. fst (snd s) = w @ fst (snd t) \<and> fst t = rev w @ fst s)"

lemma advances_refl [simp]: "advances s s"
  by (simp add: advances_def)

lemma advances_trans: "advances s t \<Longrightarrow> advances t u \<Longrightarrow> advances s u"
  by (force simp: advances_def)

definition keeps_text :: "(pos \<Rightarrow> pos list) \<Rightarrow> bool" where
  "keeps_text f \<longleftrightarrow> (\<forall>s t. t \<in> set (f s) \<longrightarrow> advances s t)"

lemma keeps_textI: "(\<And>s t. t \<in> set (f s) \<Longrightarrow> advances s t) \<Longrightarrow> keeps_text f"
  by (simp add: keeps_text_def)

lemma keeps_textD: "keeps_text f \<Longrightarrow> t \<in> set (f s) \<Longrightarrow> advances s t"
  unfolding keeps_text_def by blast

lemma keeps_text_rep:
  assumes "keeps_text f"
  shows "keeps_text (rep f lo hi)"
proof (induction hi arbitrary: lo)
  case 0
  show ?case by (rule keeps_textI) (simp split: if_splits)
next
  case (Suc n)
  show ?case
  proof (rule keeps_textI)
    fix s t assume "t \<in> set (rep f lo (Suc n) s)"
    then have "(\<exists>u \<in> set (f s). t \<in> set (rep f (lo - 1) n u)) \<or> t = s" by (auto split: if_splits)
    then show "advances s t"
      using keeps_textD [OF assms] keeps_textD [OF Suc.IH] advances_trans by (elim disjE bexE) (blast, simp)
  qed
qed

lemma keeps_text_run: "keeps_text (run r)"
proof (induction r)
  case (Seq r q)
  show ?case
  proof (rule keeps_textI)
    fix s t assume "t \<in> set (run (Seq r q) s)"
    then obtain u where "u \<in> set (run r s)" "t \<in> set (run q u)" by auto
    then show "advances s t" using keeps_textD [OF Seq(1)] keeps_textD [OF Seq(2)] advances_trans by blast
  qed
next
  case (Alt r q)
  show ?case
    using keeps_textD [OF Alt(1)] keeps_textD [OF Alt(2)] by (intro keeps_textI) (simp, blast)
next
  case (Rep lo hi r)
  show ?case using keeps_textD [OF keeps_text_rep [OF Rep]] by (intro keeps_textI) simp
next
  case (Many lo r)
  show ?case using keeps_textD [OF keeps_text_rep [OF Many]] by (intro keeps_textI) simp
next
  case (Grp n r)
  show ?case
  proof (rule keeps_textI)
    fix s t assume "t \<in> set (run (Grp n r) s)"
    then obtain u where "u \<in> set (run r s)" "fst t = fst u" "fst (snd t) = fst (snd u)" by auto
    then show "advances s t" using keeps_textD [OF Grp] by (fastforce simp: advances_def)
  qed
qed (auto simp: keeps_text_def advances_def split: list.splits if_splits)

lemma match_at_text:
  assumes "match_at r b a = Some m"
  shows "a = m_text m @ m_rest m"
proof -
  obtain b' a' g tl where run: "run r (b, a, []) = (b', a', g) # tl"
    and m: "m = \<lparr>m_text = take (length a - length a') a, m_rest = a', m_groups = g\<rparr>"
    using assms by (auto simp: match_at_def split: list.splits prod.splits)
  have "\<exists>w. a = w @ a'"
    using keeps_textD [OF keeps_text_run, of "(b', a', g)" r "(b, a, [])"] run
    by (auto simp: advances_def)
  with m show ?thesis by auto
qed

lemma search_from_sublist:
  "search_from r b a = Some m \<Longrightarrow> sublist (m_text m) a"
proof (induction r b a rule: search_from.induct)
  case (1 r b)
  then show ?case using match_at_text [of r b "[]" m] by simp
next
  case (2 r b c cs)
  show ?case
  proof (cases "match_at r b (c # cs)")
    case None
    with 2 show ?thesis by (simp add: sublist_Cons_right)
  next
    case (Some m')
    have "m' = m" using "2.prems" Some by simp
    with match_at_text [OF Some] have "c # cs = m_text m @ m_rest m" by simp
    then show ?thesis by (metis append_Nil sublist_appendI)
  qed
qed

lemma re_search_sublist: "re_search r s = Some m \<Longrightarrow> sublist (m_text m) s"
  unfolding re_search_def by (rule search_from_sublist)

end
