(* ===== verification/Tier1.thy ===== *)
theory Tier1
  imports Canonical ParsedTable PyRegex PyFloat PyDecimal
begin

text \<open>
  The deterministic mapping pass: \<open>python/src/inspector/mapping/tier1.py\<close>. \<open>to_decimal\<close> and what
  uses it return a result, because negating or comparing a signalling NaN raises
  \<open>InvalidOperation\<close>. Ratios and confidences are IEEE doubles.
\<close>

section \<open>Tables of tokens\<close>

definition SETTLEMENT_TOKENS :: "string list" where
  "SETTLEMENT_TOKENS = [''settle'', ''sett'', ''close'', ''closing'', ''mtm'', ''marktomarket'', ''official'',
     ''eod'', ''dcc'', ''valuation'', ''mark'']"

definition TRADE_TOKENS :: "string list" where
  "TRADE_TOKENS = [''exec'', ''fill'', ''deal'', ''traded'', ''tradeprice'', ''last'', ''avg'', ''average'']"

definition PRICE_HINT :: re where
  "PRICE_HINT = Alts (map (\<lambda>w. Seqs (map (\<lambda>c. Chr (\<lambda>x. to_lower x = c)) w))
     [''price'', ''px'', ''rate'', ''quote''])"

text \<open>\<open>[,\s$EUR GBP YEN %]\<close>; the euro sign is outside the modelled characters.\<close>

definition numeric_noise :: "char \<Rightarrow> bool" where
  "numeric_noise ch \<longleftrightarrow> is_space ch \<or> ch \<in> {CHR '','', CHR ''$'', chr 163, chr 165, CHR ''%''}"

record mapping =
  source_field :: string
  canonical_field :: "string option"
  m_tier :: tier
  m_confidence :: rat
  m_evidence :: string

section \<open>Cells\<close>

definition to_decimal :: "string \<Rightarrow> decimal option result" where
  "to_decimal raw =
     (let txt = strip raw in
      if txt = [] \<or> txt \<in> {''-'', ''--'', ''n/a'', ''N/A'', ''NULL'', ''null''} then Inr None
      else
        let negative = (prefix ''('' txt \<and> suffix '')'' txt);
            txt = (if negative then take (length txt - 2) (drop 1 txt) else txt);
            txt = remove_chars numeric_noise txt;
            (txt, negative) = (if suffix ''-'' txt then (butlast txt, True) else (txt, negative))
        in if txt = [] then Inr None
           else case decimal_of txt of
               None \<Rightarrow> Inr None
             | Some v \<Rightarrow> if negative then res_bind (dec_neg v) (\<lambda>w. Inr (Some w)) else Inr (Some v))"

definition has_token :: "string \<Rightarrow> string list \<Rightarrow> bool" where
  "has_token header tokens = (let n = normalize_header header in list_ex (\<lambda>t. contains t n) tokens)"

definition looks_like_price_column :: "string \<Rightarrow> string list \<Rightarrow> bool result" where
  "looks_like_price_column header values =
     (if re_search PRICE_HINT header = None then Inr False
      else res_bind (res_map to_decimal (filter (\<lambda>v. strip v \<noteq> []) (take 200 values)))
        (\<lambda>parsed.
           let usable = List.map_filter id parsed in
           Inr (usable \<noteq> [] \<and>
                max 1 (int_of (fl (fl (8 / 10) * of_nat (length parsed)))) \<le> int (length usable))))"

text \<open>\<open>distinct / non_empty\<close> over the cells that are not empty.\<close>

definition distinct_ratio :: "string list \<Rightarrow> rat" where
  "distinct_ratio cleaned =
     (let ne = filter (\<lambda>v. v \<noteq> []) cleaned
      in if ne = [] then 0 else fl (of_nat (length (remdups ne)) / of_nat (length ne)))"

definition informative_groups :: "(string \<times> string) list \<Rightarrow> string list list" where
  "informative_groups kvs =
     (let ne = filter (\<lambda>(k, v). v \<noteq> []) kvs;
          members = (\<lambda>k. map snd (filter (\<lambda>(k', v). k' = k) ne))
      in filter (\<lambda>vs. 1 < length vs) (map members (uniq (map fst ne))))"

definition variation_ratio :: "string list \<Rightarrow> string list option \<Rightarrow> rat" where
  "variation_ratio values group_by =
     (let cleaned = map strip values in
      if cleaned = [] then 0
      else case group_by of
          None \<Rightarrow> distinct_ratio cleaned
        | Some keys \<Rightarrow>
            if keys = [] \<or> length keys \<noteq> length cleaned then distinct_ratio cleaned
            else
              let informative = informative_groups (zip keys cleaned) in
              if informative = [] then distinct_ratio cleaned
              else fl (of_nat (length (filter (\<lambda>vs. 1 < length (remdups vs)) informative))
                       / of_nat (length informative)))"

section \<open>Price columns\<close>

definition settlement_preference :: "string \<Rightarrow> rat" where
  "settlement_preference header =
     (let n = normalize_header header;
          score = 1;
          score = (if contains ''official'' n then fl (score + fl (5 / 10)) else score);
          score = (if contains ''settlement'' n \<or> contains ''settle'' n then fl (score + fl (3 / 10)) else score)
      in if list_ex (\<lambda>q. contains q n) [''prior'', ''previous'', ''yesterday'', ''prev'', ''open'']
         then fl (score - fl (8 / 10)) else score)"

definition trade_preference :: "string \<Rightarrow> rat" where
  "trade_preference header =
     (let n = normalize_header header;
          score = 1;
          score = (if list_ex (\<lambda>q. contains q n) [''exec'', ''fill'', ''traded'', ''tradeprice'']
                   then fl (score + fl (5 / 10)) else score)
      in if contains ''avg'' n \<or> contains ''average'' n then fl (score - fl (2 / 10)) else score)"

definition price_conf :: "rat \<Rightarrow> rat" where
  "price_conf strength =
     py_round 3 (min (fl (fl (55 / 100) + fl (fl (35 / 100) * strength))) (fl (90 / 100)))"

text \<open>\<open>_resolve_prices\<close>: the buckets by vocabulary, one vocabulary pass, the structural pass.\<close>

datatype price_bucket = Settlement | Trade | Undecided

definition price_bucket :: "string \<Rightarrow> price_bucket" where
  "price_bucket header =
     (let settlement = has_token header SETTLEMENT_TOKENS; trade = has_token header TRADE_TOKENS
      in if settlement \<and> \<not> trade then Settlement
         else if trade \<and> \<not> settlement then Trade else Undecided)"

definition spaced :: "string \<Rightarrow> string" where
  "spaced f = map (\<lambda>ch. if ch = CHR ''_'' then CHR '' '' else ch) f"

definition unresolved :: "string \<Rightarrow> string \<Rightarrow> mapping" where
  "unresolved header why = \<lparr>source_field = header, canonical_field = None, m_tier = UNRESOLVED,
     m_confidence = 0, m_evidence = why\<rparr>"

definition assigned :: "string \<Rightarrow> string \<Rightarrow> tier \<Rightarrow> rat \<Rightarrow> string \<Rightarrow> mapping" where
  "assigned header f tr conf why = \<lparr>source_field = header, canonical_field = Some f, m_tier = tr,
     m_confidence = conf, m_evidence = why\<rparr>"

definition assign_candidates :: "(string \<times> rat) list \<Rightarrow> string \<Rightarrow> string \<Rightarrow> mapping list" where
  "assign_candidates candidates field reason =
     (case sort_key (\<lambda>p. - snd p) candidates of
        [] \<Rightarrow> []
      | (winner, _) # surplus \<Rightarrow>
          assigned winner field ALIAS (fl (98 / 100)) reason
          # map (\<lambda>(h, _). unresolved h (''also names a '' @ spaced field @ ''; '' @ repr winner
                @ '' is the stronger match for this file'')) surplus)"

primrec assign_scored :: "string \<Rightarrow> (string \<times> rat) list \<Rightarrow> string list \<Rightarrow> mapping list" where
  "assign_scored basis [] taken = []"
| "assign_scored basis (hr # hrs) taken =
     (let (header, ratio) = hr; shown = '' (ratio '' @ fixed 2 ratio @ '')'' in
      if ''trade_price'' \<notin> set taken \<and> 1 / 2 \<le> ratio then
        assigned header ''trade_price'' LOCAL (price_conf ratio) (''varies per row '' @ basis @ shown)
        # assign_scored basis hrs (''trade_price'' # taken)
      else if ''settlement_price'' \<notin> set taken \<and> ratio < 1 / 2 then
        assigned header ''settlement_price'' LOCAL (price_conf (fl (1 - ratio)))
          (''constant '' @ basis @ shown)
        # assign_scored basis hrs (''settlement_price'' # taken)
      else
        unresolved header (''additional price column, roles already assigned'' @ shown)
        # assign_scored basis hrs taken)"

definition instrument_groups :: "parsed_table \<Rightarrow> mapping list \<Rightarrow> string list option" where
  "instrument_groups t settled =
     (case find (\<lambda>m. canonical_field m = Some ''instrument_id'') settled of
        None \<Rightarrow> None
      | Some m \<Rightarrow> if source_field m = [] then None else Some (t_column t (source_field m)))"

definition resolve_prices :: "parsed_table \<Rightarrow> string list \<Rightarrow> mapping list \<Rightarrow> mapping list" where
  "resolve_prices t hs settled =
     (let group_by = instrument_groups t settled;
          bucketed = map (\<lambda>h. (h, price_bucket h)) hs;
          sett = map fst (filter (\<lambda>p. snd p = Settlement) bucketed);
          trad = map fst (filter (\<lambda>p. snd p = Trade) bucketed);
          undecided = map fst (filter (\<lambda>p. snd p = Undecided) bucketed);
          taken = (if trad = [] then [] else [''trade_price'']) @ (if sett = [] then [] else [''settlement_price'']);
          scored = sort_key (\<lambda>p. - snd p) (map (\<lambda>h. (h, variation_ratio (t_column t h) group_by)) undecided);
          basis = (if group_by = None \<or> group_by = Some [] then ''across all rows''
                   else ''within instrument groups'')
      in if hs = [] then []
         else assign_candidates (map (\<lambda>h. (h, settlement_preference h)) sett) ''settlement_price''
                ''header names a settlement or mark price''
            @ assign_candidates (map (\<lambda>h. (h, trade_preference h)) trad) ''trade_price''
                ''header names an execution price''
            @ assign_scored basis scored taken)"

section \<open>The mapper\<close>

definition tier1_overrides :: "(string, string) dict \<Rightarrow> (string, string) dict" where
  "tier1_overrides field_overrides = dict_of (map (\<lambda>(k, v). (normalize_header k, v)) field_overrides)"

definition PRICE_FIELDS :: "string list" where
  "PRICE_FIELDS = [''trade_price'', ''settlement_price'']"

text \<open>The loop over the headers: the mappings made so far, the claimed fields and the deferred
  price columns. \<open>scan_other\<close> is its tail, for a header the dictionary does not settle.\<close>

type_synonym scan_state = "mapping list \<times> string list \<times> string list"

definition scan_other :: "parsed_table \<Rightarrow> string \<Rightarrow> scan_state \<Rightarrow> scan_state result" where
  "scan_other t header = (\<lambda>(ms, claimed, deferred).
     res_bind (looks_like_price_column header (t_column t header)) (\<lambda>price.
       if price then Inr (ms, claimed, deferred @ [header])
       else Inr (ms @ [unresolved header ''no alias match''], claimed, deferred)))"

definition scan_header ::
    "(string, string) dict \<Rightarrow> parsed_table \<Rightarrow> string \<Rightarrow> scan_state \<Rightarrow> scan_state result" where
  "scan_header overrides t header = (\<lambda>(ms, claimed, deferred).
     let override = dict_get_or overrides (normalize_header header) [] in
     if override \<noteq> [] then
       Inr (ms @ [assigned header override HUMAN 1 (''client override -> '' @ override)],
            override # claimed, deferred)
     else case alias_lookup header of
         Some hit \<Rightarrow>
           if hit \<in> set PRICE_FIELDS then Inr (ms, claimed, deferred @ [header])
           else if hit \<in> set MAPPABLE_FIELDS \<and> hit \<notin> set claimed then
             Inr (ms @ [assigned header hit ALIAS 1 (''alias:'' @ normalize_header header)],
                  hit # claimed, deferred)
           else if hit \<in> set claimed then
             Inr (ms @ [unresolved header (''conflicts with an earlier column already mapped to '' @ hit)],
                  claimed, deferred)
           else scan_other t header (ms, claimed, deferred)
       | None \<Rightarrow> scan_other t header (ms, claimed, deferred))"

primrec scan_headers ::
    "(string, string) dict \<Rightarrow> parsed_table \<Rightarrow> string list \<Rightarrow> scan_state \<Rightarrow> scan_state result" where
  "scan_headers overrides t [] s = Inr s"
| "scan_headers overrides t (h # hs) s =
     res_bind (scan_header overrides t h s) (scan_headers overrides t hs)"

definition in_source_order :: "string list \<Rightarrow> mapping list \<Rightarrow> mapping list" where
  "in_source_order hs ms =
     (let by_source = dict_of (map (\<lambda>m. (source_field m, m)) ms)
      in List.map_filter (\<lambda>h. dict_get by_source h) hs)"

definition map_table :: "(string, string) dict \<Rightarrow> parsed_table \<Rightarrow> mapping list result" where
  "map_table field_overrides t =
     res_bind (scan_headers (tier1_overrides field_overrides) t (t_headers t) ([], [], []))
       (\<lambda>(ms, claimed, deferred).
          Inr (in_source_order (t_headers t) (ms @ resolve_prices t deferred ms)))"

text \<open>The same with the result of the scan matched first, for evaluation.\<close>

fun map_scanned :: "parsed_table \<Rightarrow> scan_state result \<Rightarrow> mapping list result" where
  "map_scanned t (Inl e) = Inl e"
| "map_scanned t (Inr (ms, claimed, deferred)) =
     Inr (in_source_order (t_headers t) (ms @ resolve_prices t deferred ms))"

lemma map_table_code [code]:
  "map_table field_overrides t =
     map_scanned t (scan_headers (tier1_overrides field_overrides) t (t_headers t) ([], [], []))"
  by (cases "scan_headers (tier1_overrides field_overrides) t (t_headers t) ([], [], [])")
    (auto simp: map_table_def)

section \<open>The arithmetic cross-check\<close>

definition by_field :: "mapping list \<Rightarrow> (string, string) dict" where
  "by_field ms = dict_of (List.map_filter
     (\<lambda>m. case canonical_field m of
        Some f \<Rightarrow> if f = [] then None else Some (f, source_field m) | None \<Rightarrow> None) ms)"

text \<open>One row: \<open>None\<close> when a value is missing or the amount is zero, else whether it reconciles.\<close>

definition check_row :: "string \<Rightarrow> string \<Rightarrow> string \<Rightarrow> row \<Rightarrow> bool option result" where
  "check_row qty_col price_col amount_col r =
     res_bind (to_decimal (cell r qty_col)) (\<lambda>q.
     res_bind (to_decimal (cell r price_col)) (\<lambda>p.
     res_bind (to_decimal (cell r amount_col)) (\<lambda>a.
       case (q, p, a) of
         (Some qty, Some price, Some amount) \<Rightarrow>
           res_bind (dec_is_zero amount) (\<lambda>zero.
             if zero then Inr None
             else res_bind (dec_mul qty price) (\<lambda>prod.
                  res_bind (dec_abs prod) (\<lambda>expected.
                  res_bind (dec_abs amount) (\<lambda>abs_amount.
                  res_bind (dec_sub expected abs_amount) (\<lambda>diff.
                  res_bind (dec_abs diff) (\<lambda>gap.
                  res_bind (dec_mul abs_amount (Num False 5 (- 2))) (\<lambda>tolerance.
                  res_bind (dec_le gap tolerance) (\<lambda>ok. Inr (Some ok)))))))))
       | _ \<Rightarrow> Inr None)))"

definition cross_check_amount :: "parsed_table \<Rightarrow> mapping list \<Rightarrow> (bool option \<times> string) result" where
  "cross_check_amount t ms =
     (let cols = by_field ms;
          qty_col = dict_get_or cols ''quantity'' [];
          price_col = dict_get_or cols ''trade_price'' [];
          net = dict_get_or cols ''net_amount'' [];
          amount_col = (if net \<noteq> [] then net else dict_get_or cols ''gross_amount'' [])
      in if qty_col = [] \<or> price_col = [] \<or> amount_col = [] then
           Inr (None, ''insufficient columns for an arithmetic cross-check'')
         else res_bind (res_map (check_row qty_col price_col amount_col) (take 200 (t_rows t))) (\<lambda>rs.
           let outcomes = List.map_filter id rs;
               checked = length outcomes;
               agree = length (filter id outcomes)
           in if checked = 0 then Inr (None, ''no rows had all three values populated'')
              else Inr (Some (fl (8 / 10) \<le> fl (of_nat agree / of_nat checked)),
                ''quantity x price reconciles to amount on '' @ nat_str agree @ ''/'' @ nat_str checked
                @ '' rows'')))"

section \<open>One mapping per column\<close>

definition resolved_fields :: "mapping list \<Rightarrow> string list" where
  "resolved_fields ms = List.map_filter canonical_field ms"

lemma resolved_fields_simps [simp]:
  "resolved_fields [] = []"
  "resolved_fields (m # ms) =
     (case canonical_field m of None \<Rightarrow> resolved_fields ms | Some f \<Rightarrow> f # resolved_fields ms)"
  "resolved_fields (xs @ ys) = resolved_fields xs @ resolved_fields ys"
  by (simp_all add: resolved_fields_def map_filter_eq_concat split: option.split)

lemma in_resolved_fields: "f \<in> set (resolved_fields ms) \<longleftrightarrow> (\<exists>m \<in> set ms. canonical_field m = Some f)"
  by (induction ms) (auto split: option.splits)

lemma resolved_fields_mset: "mset xs = mset ys \<Longrightarrow> mset (resolved_fields xs) = mset (resolved_fields ys)"
proof -
  have "mset (resolved_fields zs) =
      (\<Sum>m \<in># mset zs. case canonical_field m of None \<Rightarrow> {#} | Some f \<Rightarrow> {#f#})" for zs
    by (induction zs) (auto split: option.splits)
  then show "mset xs = mset ys \<Longrightarrow> mset (resolved_fields xs) = mset (resolved_fields ys)" by simp
qed

lemma assigned_sel [simp]:
  "source_field (assigned h f r c w) = h" "canonical_field (assigned h f r c w) = Some f"
  "m_tier (assigned h f r c w) = r" "m_confidence (assigned h f r c w) = c"
  by (simp_all add: assigned_def)

lemma unresolved_sel [simp]:
  "source_field (unresolved h w) = h" "canonical_field (unresolved h w) = None"
  "m_tier (unresolved h w) = UNRESOLVED" "m_confidence (unresolved h w) = 0"
  by (simp_all add: unresolved_def)

lemma in_source_order_mset:
  assumes "distinct hs" and "mset (map source_field ms) = mset hs"
  shows "map source_field (in_source_order hs ms) = hs" and "mset (in_source_order hs ms) = mset ms"
proof -
  let ?d = "dict_of (map (\<lambda>m. (source_field m, m)) ms)"
  have dm: "distinct (map source_field ms)" using assms by (metis mset_eq_imp_distinct_iff)
  then have dk: "distinct (map fst (map (\<lambda>m. (source_field m, m)) ms))" by (simp add: comp_def)
  have get: "dict_get ?d h = Some m \<longleftrightarrow> m \<in> set ms \<and> source_field m = h" for h m
    using dict_of_get_distinct [OF dk, of h m] dict_of_get_Some [of "map (\<lambda>m. (source_field m, m)) ms" h m]
    by (simp add: image_iff) blast
  have ss: "source_field ` set ms = set hs" using assms(2) by (metis list.set_map mset_eq_setD)
  then have ex: "\<exists>m. dict_get ?d h = Some m" if "h \<in> set hs" for h
    using that by (force simp: get)
  then have "map source_field (List.map_filter (\<lambda>h. dict_get ?d h) hs') = hs'"
    if "set hs' \<subseteq> set hs" for hs'
    using that
  proof (induction hs')
    case (Cons h hs')
    then obtain m where "dict_get ?d h = Some m" "source_field m = h" using ex get by fastforce
    with Cons show ?case by (simp add: List.map_filter_simps)
  qed (simp add: List.map_filter_simps)
  then show eq: "map source_field (in_source_order hs ms) = hs"
    by (simp add: in_source_order_def)
  have "set (in_source_order hs ms) = {m. \<exists>h \<in> set hs. dict_get ?d h = Some m}"
    by (auto simp: in_source_order_def map_filter_eq_concat split: option.splits)
  also have "\<dots> = set ms" using ss by (auto simp: get)
  finally have "set (in_source_order hs ms) = set ms" .
  moreover have "distinct (in_source_order hs ms)"
    using eq assms(1) by (metis distinct_map)
  ultimately show "mset (in_source_order hs ms) = mset ms"
    using dm by (metis distinct_map set_eq_iff_mset_eq_distinct)
qed

text \<open>The price pass: every deferred column gets exactly one mapping.\<close>

lemma assign_candidates_sources:
  "mset (map source_field (assign_candidates cs f r)) = mset (map fst cs)"
proof (cases "sort_key (\<lambda>p. - snd p) cs")
  case Nil
  then have "cs = []" by (metis mset_sort mset_zero_iff)
  then show ?thesis by (simp add: assign_candidates_def)
next
  case (Cons p ps)
  have "mset (map fst cs) = mset (map fst (p # ps))"
    using Cons by (metis mset_map mset_sort)
  moreover have "map source_field (assign_candidates cs f r) = map fst (p # ps)"
    by (simp add: assign_candidates_def Cons split_beta)
  ultimately show ?thesis by simp
qed

lemma assign_candidates_fields:
  "resolved_fields (assign_candidates cs f r) = (if cs = [] then [] else [f])"
proof -
  have none: "resolved_fields (map (\<lambda>(h, _). unresolved h (e h)) ps) = []"
    for e and ps :: "(string \<times> rat) list"
    by (induction ps) auto
  have "sort_key (\<lambda>p. - snd p) cs = [] \<longleftrightarrow> cs = []"
    by (metis mset_sort mset_zero_iff)
  then show ?thesis
    by (auto simp: assign_candidates_def none split: list.splits)
qed

lemma assign_scored_sources: "map source_field (assign_scored b hrs taken) = map fst hrs"
  by (induction hrs arbitrary: taken) (auto simp: Let_def split_beta)

lemma assign_scored_fields:
  "distinct (resolved_fields (assign_scored b hrs taken))
   \<and> set (resolved_fields (assign_scored b hrs taken)) \<subseteq> set PRICE_FIELDS - set taken"
proof (induction hrs arbitrary: taken)
  case (Cons p ps)
  from Cons [of taken] Cons [of "''trade_price'' # taken"] Cons [of "''settlement_price'' # taken"]
  show ?case by (auto simp: Let_def split_beta PRICE_FIELDS_def)
qed simp

lemma bucket_partition:
  "mset (filter (\<lambda>h. price_bucket h = Settlement) hs) + mset (filter (\<lambda>h. price_bucket h = Trade) hs)
     + mset (filter (\<lambda>h. price_bucket h = Undecided) hs) = mset hs"
proof (induction hs)
  case (Cons h hs)
  then show ?case by (cases "price_bucket h") auto
qed simp

lemma map_fst_pair [simp]: "map fst (map (\<lambda>h. (h, f h)) hs) = hs"
  by (simp add: comp_def)

lemma bucketed_filter:
  "map fst (filter (\<lambda>p. snd p = b) (map (\<lambda>h. (h, price_bucket h)) hs)) = filter (\<lambda>h. price_bucket h = b) hs"
  by (induction hs) auto

lemma resolve_prices_sources: "mset (map source_field (resolve_prices t hs s)) = mset hs"
proof -
  have "mset (map fst (sort_key k cs)) = mset (map fst cs)" for k :: "string \<times> rat \<Rightarrow> rat" and cs
    by (metis mset_map mset_sort)
  then show ?thesis
    using bucket_partition [of hs]
    by (simp add: add.assoc resolve_prices_def bucketed_filter Let_def assign_candidates_sources assign_scored_sources
        del: mset_map map_map)
qed

lemma resolve_prices_fields:
  "distinct (resolved_fields (resolve_prices t hs s))
   \<and> set (resolved_fields (resolve_prices t hs s)) \<subseteq> set PRICE_FIELDS"
proof -
  have "distinct (resolved_fields (assign_scored b hrs taken))"
    "''trade_price'' \<in> set taken \<Longrightarrow> ''trade_price'' \<notin> set (resolved_fields (assign_scored b hrs taken))"
    "''settlement_price'' \<in> set taken \<Longrightarrow>
       ''settlement_price'' \<notin> set (resolved_fields (assign_scored b hrs taken))"
    "set (resolved_fields (assign_scored b hrs taken)) \<subseteq> set PRICE_FIELDS" for b hrs taken
    using assign_scored_fields [of b hrs taken] by auto
  moreover have "''trade_price'' \<in> set PRICE_FIELDS" "''settlement_price'' \<in> set PRICE_FIELDS"
    "''trade_price'' \<noteq> ''settlement_price''"
    by (simp_all add: PRICE_FIELDS_def)
  ultimately show ?thesis
    unfolding resolve_prices_def bucketed_filter Let_def by (simp add: assign_candidates_fields)
qed

text \<open>The scan: the columns seen so far are mapped or deferred, and \<open>claimed\<close> holds the fields
  in use. Without client overrides no field is used twice and no price field is used at all.\<close>

definition scan_ok :: "string list \<Rightarrow> scan_state \<Rightarrow> bool" where
  "scan_ok done = (\<lambda>(ms, claimed, deferred).
     mset (map source_field ms) + mset deferred = mset done
     \<and> set claimed = set (resolved_fields ms))"

definition plain_fields :: "string set" where
  "plain_fields = set MAPPABLE_FIELDS - set PRICE_FIELDS"

definition scan_plain :: "scan_state \<Rightarrow> bool" where
  "scan_plain = (\<lambda>(ms, claimed, deferred).
     distinct (resolved_fields ms) \<and> set (resolved_fields ms) \<subseteq> plain_fields)"

text \<open>The three things the scan does with a column.\<close>

lemma scan_header_cases:
  assumes "scan_header ov t h (ms, claimed, deferred) = Inr s'"
  obtains (assign) f r c w where "s' = (ms @ [assigned h f r c w], f # claimed, deferred)"
      "ov = [] \<Longrightarrow> f \<in> plain_fields - set claimed"
    | (leave) w where "s' = (ms @ [unresolved h w], claimed, deferred)"
    | (delay) "s' = (ms, claimed, deferred @ [h])"
proof -
  have other: "(\<exists>w. s' = (ms @ [unresolved h w], claimed, deferred)) \<or> s' = (ms, claimed, deferred @ [h])"
    if "scan_other t h (ms, claimed, deferred) = Inr s'"
    using that by (auto simp: scan_other_def res_bind_Inr_iff split: if_splits)
  show ?thesis
  proof (cases "dict_get_or ov (normalize_header h) [] = []")
    case False
    then have "ov \<noteq> []" by (auto simp: dict_get_or_def)
    have "s' = (ms @ [assigned h (dict_get_or ov (normalize_header h) []) HUMAN 1
        (''client override -> '' @ dict_get_or ov (normalize_header h) [])],
        dict_get_or ov (normalize_header h) [] # claimed, deferred)"
      using assms False by (simp add: scan_header_def Let_def)
    from assign [OF this] \<open>ov \<noteq> []\<close> show ?thesis by blast
  next
    case True
    show ?thesis
    proof (cases "alias_lookup h")
      case None
      with True assms other leave delay show ?thesis by (auto simp: scan_header_def)
    next
      case (Some hit)
      then have hit: "hit \<in> set MAPPABLE_FIELDS" by (rule alias_lookup_mappable)
      consider "hit \<in> set PRICE_FIELDS" | "hit \<notin> set PRICE_FIELDS" "hit \<notin> set claimed" | "hit \<notin> set PRICE_FIELDS" "hit \<in> set claimed"
        by blast
      then show ?thesis
      proof cases
        case 1
        then have "s' = (ms, claimed, deferred @ [h])" using assms Some True by (simp add: scan_header_def)
        then show ?thesis by (rule delay)
      next
        case 2
        then have "s' = (ms @ [assigned h hit ALIAS 1 (''alias:'' @ normalize_header h)], hit # claimed, deferred)"
          using assms Some True hit by (simp add: scan_header_def)
        from assign [OF this] 2 hit show ?thesis by (simp add: plain_fields_def)
      next
        case 3
        then have "s' = (ms @ [unresolved h (''conflicts with an earlier column already mapped to '' @ hit)],
            claimed, deferred)"
          using assms Some True hit by (simp add: scan_header_def)
        then show ?thesis by (rule leave)
      qed
    qed
  qed
qed

lemma scan_header_ok:
  assumes "scan_header ov t h s = Inr s'" and "scan_ok done s"
  shows "scan_ok (done @ [h]) s'"
proof -
  obtain ms claimed deferred where s: "s = (ms, claimed, deferred)" by (cases s)
  from assms(1)[unfolded s] show ?thesis
    by (rule scan_header_cases) (use assms(2) in \<open>simp_all add: scan_ok_def s\<close>)
qed

lemma scan_header_plain:
  assumes "scan_header [] t h s = Inr s'" and "scan_ok done s" and "scan_plain s"
  shows "scan_plain s'"
proof -
  obtain ms claimed deferred where s: "s = (ms, claimed, deferred)" by (cases s)
  from assms(1)[unfolded s] show ?thesis
    by (rule scan_header_cases) (use assms(2,3) in \<open>simp_all add: scan_ok_def scan_plain_def s\<close>)
qed

lemma scan_headers_ok:
  "scan_headers ov t hs s = Inr s' \<Longrightarrow> scan_ok done s \<Longrightarrow> scan_ok (done @ hs) s'"
proof (induction hs arbitrary: s "done")
  case (Cons h hs)
  then obtain s1 where "scan_header ov t h s = Inr s1" "scan_headers ov t hs s1 = Inr s'"
    by (auto simp: res_bind_Inr_iff)
  with Cons.IH [OF this(2) scan_header_ok [OF this(1) Cons.prems(2)]] show ?case by simp
qed simp

lemma scan_headers_plain:
  "scan_headers [] t hs s = Inr s' \<Longrightarrow> scan_ok done s \<Longrightarrow> scan_plain s \<Longrightarrow> scan_plain s'"
proof (induction hs arbitrary: s "done")
  case (Cons h hs)
  then obtain s1 where s1: "scan_header [] t h s = Inr s1" "scan_headers [] t hs s1 = Inr s'"
    by (auto simp: res_bind_Inr_iff)
  show ?case
    using Cons.IH [OF s1(2)] scan_header_ok [OF s1(1) Cons.prems(2)] scan_header_plain [OF s1(1) Cons.prems(2,3)]
    by blast
qed simp

lemma scan_start: "scan_ok [] ([], [], [])" "scan_plain ([], [], [])"
  by (simp_all add: scan_ok_def scan_plain_def)

lemma tier1_overrides_Nil [simp]: "tier1_overrides [] = []"
  by (simp add: tier1_overrides_def dict_of_def)

text \<open>What \<open>map_table\<close> returns is a permutation of the scan's and the price pass's mappings.\<close>

lemma map_table_parts:
  assumes "map_table ov t = Inr ms" and "distinct (t_headers t)"
  obtains ps claimed deferred where
    "scan_headers (tier1_overrides ov) t (t_headers t) ([], [], []) = Inr (ps, claimed, deferred)"
    "scan_ok (t_headers t) (ps, claimed, deferred)"
    "map source_field ms = t_headers t"
    "mset ms = mset (ps @ resolve_prices t deferred ps)"
proof -
  obtain ps claimed deferred where
    scan: "scan_headers (tier1_overrides ov) t (t_headers t) ([], [], []) = Inr (ps, claimed, deferred)"
    and ms: "ms = in_source_order (t_headers t) (ps @ resolve_prices t deferred ps)"
    using assms(1) by (auto simp: map_table_def res_bind_Inr_iff)
  have ok: "scan_ok (t_headers t) (ps, claimed, deferred)"
    using scan_headers_ok [OF scan scan_start(1)] by simp
  then have "mset (map source_field (ps @ resolve_prices t deferred ps)) = mset (t_headers t)"
    using resolve_prices_sources [of t deferred ps] by (simp add: scan_ok_def)
  from in_source_order_mset [OF assms(2) this] that [OF scan ok] show ?thesis
    by (simp add: ms)
qed

lemma price_fields_mappable: "set PRICE_FIELDS \<subseteq> set MAPPABLE_FIELDS"
proof -
  have "list_all (\<lambda>f. f \<in> set MAPPABLE_FIELDS) PRICE_FIELDS" by code_simp
  then show ?thesis by (auto simp: list_all_iff)
qed

section \<open>Ratios\<close>

lemma fl_ratio_bounds: "a \<le> b \<Longrightarrow> 0 \<le> fl (of_nat a / of_nat b) \<and> fl (of_nat a / of_nat b) \<le> 1"
  by (intro conjI fl_nonneg fl_le_one) (auto simp: divide_le_eq_1)

lemma distinct_ratio_bounds: "0 \<le> distinct_ratio vs \<and> distinct_ratio vs \<le> 1"
  unfolding distinct_ratio_def Let_def
  using fl_ratio_bounds by (simp add: length_remdups_leq)

lemma map_table_fields:
  assumes "make_table hs rs ev ws = Inr t" and "map_table ov t = Inr ms"
  shows "map source_field ms = hs
    \<and> (ov = [] \<longrightarrow> distinct (resolved_fields ms) \<and> set (resolved_fields ms) \<subseteq> set MAPPABLE_FIELDS)"
proof -
  have hs: "distinct hs" "t_headers t = hs" using assms(1) by (auto simp: make_table_Inr)
  obtain ps claimed deferred where
    scan: "scan_headers (tier1_overrides ov) t (t_headers t) ([], [], []) = Inr (ps, claimed, deferred)"
    and src: "map source_field ms = t_headers t"
    and ms: "mset ms = mset (ps @ resolve_prices t deferred ps)"
    using map_table_parts [OF assms(2)] hs by metis
  have "distinct (resolved_fields ms) \<and> set (resolved_fields ms) \<subseteq> set MAPPABLE_FIELDS" if "ov = []"
  proof -
    have "scan_plain (ps, claimed, deferred)"
      using scan_headers_plain [OF _ scan_start] scan that by simp
    then have "distinct (resolved_fields (ps @ resolve_prices t deferred ps))"
      and "set (resolved_fields (ps @ resolve_prices t deferred ps)) \<subseteq> set MAPPABLE_FIELDS"
      using resolve_prices_fields [of t deferred ps]
      price_fields_mappable by (auto simp: scan_plain_def plain_fields_def)
    then show ?thesis
      using resolved_fields_mset [OF ms] by (metis mset_eq_imp_distinct_iff mset_eq_setD)
  qed
  then show ?thesis using src hs by blast
qed

section \<open>Properties\<close>

text \<open>C7. Tier 1 returns exactly one mapping per column of the table, in the table's order; without
  client overrides every canonical field it assigns is one the mapper may assign, and no two
  columns are assigned the same field.\<close>

theorem map_table_one_per_column:
  assumes "make_table hs rs ev ws = Inr t" and "map_table ov t = Inr ms"
  shows "map source_field ms = hs
    \<and> (ov = [] \<longrightarrow> distinct (resolved_fields ms) \<and> set (resolved_fields ms) \<subseteq> set MAPPABLE_FIELDS)"
  using assms by (rule map_table_fields)

text \<open>The variation ratio is a number between 0 and 1, and it is 0 when every group of rows that
  share an instrument carries a single value, as a settlement price does.\<close>

lemma variation_ratio_bounds:
  "0 \<le> variation_ratio vs g \<and> variation_ratio vs g \<le> 1
   \<and> (\<forall>keys. g = Some keys \<and> length keys = length vs
        \<and> informative_groups (zip keys (map strip vs)) \<noteq> []
        \<and> (\<forall>grp \<in> set (informative_groups (zip keys (map strip vs))). length (remdups grp) \<le> 1)
        \<longrightarrow> variation_ratio vs g = 0)"
proof -
  have "0 \<le> variation_ratio vs g \<and> variation_ratio vs g \<le> 1"
    unfolding variation_ratio_def Let_def
    using distinct_ratio_bounds [of "map strip vs"] fl_ratio_bounds
    by (auto split: option.splits)
  moreover have "variation_ratio vs (Some keys) = 0"
    if "length keys = length vs" "informative_groups (zip keys (map strip vs)) \<noteq> []"
      "\<forall>grp \<in> set (informative_groups (zip keys (map strip vs))). length (remdups grp) \<le> 1" for keys
  proof -
    have "filter (\<lambda>grp. 1 < length (remdups grp)) (informative_groups (zip keys (map strip vs))) = []"
      using that(3) by (force simp: filter_empty_conv)
    moreover have "vs \<noteq> []" "keys \<noteq> []" using that by (auto simp: informative_groups_def)
    ultimately show ?thesis using that by (simp add: variation_ratio_def Let_def)
  qed
  ultimately show ?thesis by blast
qed

lemma assign_candidates_roles:
  "m \<in> set (assign_candidates cs f r) \<Longrightarrow>
     source_field m \<in> fst ` set cs \<and> (canonical_field m = None \<or> canonical_field m = Some f)"
proof -
  assume m: "m \<in> set (assign_candidates cs f r)"
  obtain w k ps where sorted: "sort_key (\<lambda>p. - snd p) cs = (w, k) # ps"
    using m by (cases "sort_key (\<lambda>p. - snd p) cs") (auto simp: assign_candidates_def)
  have "set cs = set ((w, k) # ps)" using sorted by (metis set_sort)
  then show ?thesis using m by (auto simp: assign_candidates_def sorted image_iff) force
qed

lemma resolve_prices_roles:
  assumes "m \<in> set (resolve_prices t hs s)"
  shows "canonical_field m = Some ''trade_price'' \<Longrightarrow> price_bucket (source_field m) \<noteq> Settlement"
    and "canonical_field m = Some ''settlement_price'' \<Longrightarrow> price_bucket (source_field m) \<noteq> Trade"
proof -
  have scored: "source_field m \<in> fst ` set hrs" if "m \<in> set (assign_scored b hrs taken)" for b hrs taken
    using that assign_scored_sources [of b hrs taken] by (metis list.set_map imageI)
  have "price_bucket (source_field m) = Settlement
        \<and> (canonical_field m = None \<or> canonical_field m = Some ''settlement_price'')
     \<or> price_bucket (source_field m) = Trade
        \<and> (canonical_field m = None \<or> canonical_field m = Some ''trade_price'')
     \<or> price_bucket (source_field m) = Undecided"
    using assms unfolding resolve_prices_def bucketed_filter Let_def
    by (auto split: if_splits dest!: assign_candidates_roles scored)
  then show "canonical_field m = Some ''trade_price'' \<Longrightarrow> price_bucket (source_field m) \<noteq> Settlement"
    and "canonical_field m = Some ''settlement_price'' \<Longrightarrow> price_bucket (source_field m) \<noteq> Trade"
    by auto
qed


text \<open>A small cleared-futures extract for the examples.\<close>

definition futures_table :: parsed_table where
  "futures_table = \<lparr>t_headers = [''Qty'', ''Settle Price''],
     t_rows = [[(''Qty'', ''2''), (''Settle Price'', ''5800'')]], t_evidence = [], t_warnings = []\<rparr>"

lemma futures_mappings:
  "case map_table [] futures_table of
     Inr ms \<Rightarrow> map (\<lambda>m. (source_field m, canonical_field m)) ms =
        [(''Qty'', Some ''quantity''), (''Settle Price'', Some ''settlement_price'')]
   | Inl _ \<Rightarrow> False"
  by code_simp

theorem map_table_one_per_column_witness:
  "\<exists>ms. map_table [] futures_table = Inr ms \<and> distinct (resolved_fields ms)
     \<and> map source_field ms = [''Qty'', ''Settle Price'']"
proof -
  obtain ms where ms: "map_table [] futures_table = Inr ms"
    using futures_mappings by (cases "map_table [] futures_table") auto
  moreover have "make_table (t_headers futures_table) (t_rows futures_table) [] [] = Inr futures_table"
    by (simp add: make_table_Inr futures_table_def)
  ultimately show ?thesis
    using map_table_one_per_column [of "t_headers futures_table" "t_rows futures_table" "[]" "[]" futures_table "[]" ms]
    by (simp add: futures_table_def)
qed


lemma variation_ratio_bounds_witness:
  "variation_ratio [''5800'', ''5800'', ''1.5''] (Some [''ESZ6'', ''ESZ6'', ''ZNZ6'']) = 0"
proof -
  have "informative_groups (zip [''ESZ6'', ''ESZ6'', ''ZNZ6''] (map strip [''5800'', ''5800'', ''1.5'']))
      = [[''5800'', ''5800'']]" by code_simp
  then show ?thesis
    using variation_ratio_bounds [of "[''5800'', ''5800'', ''1.5'']" "Some [''ESZ6'', ''ESZ6'', ''ZNZ6'']"]
    by simp
qed

section \<open>Cells\<close>

lemma set_strip: "set (strip s) \<subseteq> set s"
  unfolding strip_def rstrip_def lstrip_def
  by (metis set_dropWhileD set_rev subsetI)

lemma strip_paren:
  "strip (CHR ''('' # s @ '')'') = CHR ''('' # s @ '')''"
  by (simp add: strip_def lstrip_def rstrip_def is_space_def)

text \<open>The accounting convention: a cell in parentheses is the negation of the cell inside, and
  only a cell with a parenthesis or a minus sign can raise anything.\<close>

lemma to_decimal_parentheses:
  shows "(to_decimal s = Inr (Some v) \<and> strip s = s \<and> \<not> prefix ''('' s
        \<and> \<not> suffix ''-'' (remove_chars numeric_noise s) \<longrightarrow>
      to_decimal (CHR ''('' # s @ '')'') = res_bind (dec_neg v) (\<lambda>w. Inr (Some w)))
    \<and> (to_decimal raw = Inl e \<longrightarrow> CHR ''('' \<in> set raw \<or> CHR ''-'' \<in> set raw)"
proof -
  let ?clean = "remove_chars numeric_noise"
  have part1: "to_decimal (CHR ''('' # s @ '')'') = res_bind (dec_neg v) (\<lambda>w. Inr (Some w))"
    if s: "to_decimal s = Inr (Some v)" "strip s = s" "\<not> prefix ''('' s" "\<not> suffix ''-'' (?clean s)"
  proof -
    have v: "decimal_of (?clean s) = Some v" "?clean s \<noteq> []"
      using s by (auto simp: to_decimal_def Let_def split: if_splits option.splits)
    have "take (length s) (s @ '')'') = s" by simp
    then show ?thesis
      using v s(4) by (simp add: to_decimal_def Let_def strip_paren suffix_def)
  qed
  have part2: "CHR ''('' \<in> set raw \<or> CHR ''-'' \<in> set raw" if "to_decimal raw = Inl e"
  proof (rule ccontr)
    assume neg: "\<not> (CHR ''('' \<in> set raw \<or> CHR ''-'' \<in> set raw)"
    have "\<not> prefix ''('' (strip raw)"
      using neg set_strip [of raw] by (cases "strip raw") auto
    moreover have "CHR ''-'' \<notin> set (?clean (strip raw))"
      using neg set_strip [of raw] by (auto simp: remove_chars_def)
    then have "\<not> suffix ''-'' (?clean (strip raw))" by (auto dest: set_mono_suffix)
    ultimately show False using that by (auto simp: to_decimal_def Let_def split: if_splits option.splits)
  qed
  show ?thesis using part1 part2 by blast
qed

lemma to_decimal_parentheses_witness:
  "to_decimal ''(1,234.50)'' = Inr (Some (Num True 123450 (- 2)))"
proof -
  have "to_decimal ''1,234.50'' = Inr (Some (Num False 123450 (- 2)))
    \<and> strip ''1,234.50'' = ''1,234.50'' \<and> \<not> prefix ''('' ''1,234.50''
    \<and> \<not> suffix ''-'' (remove_chars numeric_noise ''1,234.50'')" by code_simp
  moreover have "dec_neg (Num False 123450 (- 2)) = Inr (Num True 123450 (- 2))" by code_simp
  ultimately show ?thesis
    using to_decimal_parentheses [of "''1,234.50''" "Num False 123450 (- 2)"] by simp
qed

end
