(* ===== verification/Tier2.thy ===== *)
theory Tier2
  imports Tier1
begin

text \<open>
  Local matching of the headers Tier 1 left over: \<open>python/src/inspector/mapping/tier2.py\<close>.
  Three things are not under \<open>src/\<close> and are parameters: \<open>extract\<close> is rapidfuzz's
  \<open>process.extractOne\<close> with \<open>fuzz.token_set_ratio\<close> (score and index of the best choice), \<open>load\<close>
  the vectors fastembed computes for the field descriptions (\<open>None\<close> when it is missing or fails)
  and \<open>embed\<close> its vector for one text. \<open>cosine\<close> is a parameter too: its value depends on the C
  library's \<open>pow\<close>.
\<close>

section \<open>Tables\<close>

definition FIELD_DESCRIPTIONS :: "(string, string) dict" where
  "FIELD_DESCRIPTIONS =
    [(''account_id'', ''the client account or portfolio identifier the record belongs to''),
     (''account_name'', ''the human readable name of the account or fund''),
     (''trade_id'', ''the unique reference identifying this trade or transaction''),
     (''instrument_id'', ''the security identifier, ticker, ISIN, CUSIP or contract code''),
     (''instrument_type'', ''the asset class or product type of the security''),
     (''trade_date'', ''the date the trade was executed or booked''),
     (''quantity'', ''the number of shares, units, contracts or nominal amount''),
     (''trade_price'', ''the price at which the trade was executed''),
     (''settlement_price'', ''the official closing, settlement or mark to market price''),
     (''gross_amount'', ''the gross consideration or principal before fees''),
     (''net_amount'', ''the net cash amount, proceeds or settlement value''),
     (''market_value'', ''the current market or fair value of the position''),
     (''currency'', ''the ISO currency code the amounts are denominated in''),
     (''side'', ''whether the transaction is a buy or a sell, long or short''),
     (''source_system'', ''the venue, exchange or system the record originated from'')]"

definition MIN_ACCEPT :: rat where "MIN_ACCEPT = fl (72 / 100)"
definition MAX_CONFIDENCE :: rat where "MAX_CONFIDENCE = fl (88 / 100)"
definition FUZZY_WEIGHT :: rat where "FUZZY_WEIGHT = fl (55 / 100)"
definition SEMANTIC_WEIGHT :: rat where "SEMANTIC_WEIGHT = fl (45 / 100)"
definition AGREEMENT_BONUS :: rat where "AGREEMENT_BONUS = fl (6 / 100)"

record local_match =
  lm_field :: "string option"
  lm_confidence :: rat
  lm_evidence :: string
  lm_degraded :: bool

section \<open>Readable headers\<close>

text \<open>The loop of \<open>_readable\<close>: the finished parts and the buffer.\<close>

definition readable_step :: "char \<Rightarrow> string list \<times> string \<Rightarrow> string list \<times> string" where
  "readable_step ch = (\<lambda>(out, buffer).
     if ch \<in> {CHR ''_'', CHR ''-'', CHR ''.'', CHR ''/'', chr 92, CHR ''|''} then
       (if buffer \<noteq> [] then (out @ [buffer], []) else (out, buffer))
     else if is_upper ch \<and> buffer \<noteq> [] \<and> \<not> is_upper (last buffer) then (out @ [buffer], [ch])
     else (out, buffer @ [ch]))"

definition readable :: "string \<Rightarrow> string" where
  "readable header =
     (let (out, buffer) = fold readable_step header ([], []);
          parts = (if buffer \<noteq> [] then out @ [buffer] else out);
          s = strip (join '' '' (map lower parts))
      in if s \<noteq> [] then s else lower header)"

section \<open>The embedding matcher\<close>

datatype 'v emb_state = Unloaded | Loaded "(string \<times> 'v) list" | Failed

record 'v emb_model =
  emb_load :: "'v list option"
  emb_embed :: "string \<Rightarrow> 'v option"
  emb_cosine :: "'v \<Rightarrow> 'v \<Rightarrow> rat"

text \<open>\<open>_load\<close>: one vector per description; any other number is an error of the strict \<open>zip\<close>.\<close>

definition emb_do_load :: "'v emb_model \<Rightarrow> 'v emb_state" where
  "emb_do_load em =
     (case emb_load em of
        None \<Rightarrow> Failed
      | Some vs \<Rightarrow>
          if length vs = length FIELD_DESCRIPTIONS then Loaded (zip (dict_keys FIELD_DESCRIPTIONS) vs)
          else Failed)"

definition emb_touch :: "'v emb_model \<Rightarrow> 'v emb_state \<Rightarrow> 'v emb_state" where
  "emb_touch em st = (case st of Unloaded \<Rightarrow> emb_do_load em | _ \<Rightarrow> st)"

definition emb_available :: "'v emb_state \<Rightarrow> bool" where
  "emb_available st = (case st of Loaded _ \<Rightarrow> True | _ \<Rightarrow> False)"

text \<open>The loop of \<open>best\<close>, from \<open>None\<close> at \<open>-1.0\<close>.\<close>

primrec emb_scan :: "(string \<Rightarrow> 'v \<Rightarrow> rat) \<Rightarrow> (string \<times> 'v) list \<Rightarrow> string option \<times> rat \<Rightarrow> string option \<times> rat" where
  "emb_scan sc [] best = best"
| "emb_scan sc (fv # fvs) best =
     (let s = sc (fst fv) (snd fv) in
      emb_scan sc fvs (if snd best < s then (Some (fst fv), s) else best))"

definition emb_best ::
    "'v emb_model \<Rightarrow> string \<Rightarrow> 'v emb_state \<Rightarrow> (string option \<times> rat) \<times> 'v emb_state" where
  "emb_best em header st =
     (let st = emb_touch em st in
      case st of
        Loaded vectors \<Rightarrow>
          (case emb_embed em (readable header) of
             None \<Rightarrow> ((None, 0), Failed)
           | Some v \<Rightarrow>
               let (f, s) = emb_scan (\<lambda>_ w. emb_cosine em v w) vectors (None, - 1)
               in ((f, max 0 s), st))
      | _ \<Rightarrow> ((None, 0), st))"

section \<open>Fuzzy matching\<close>

definition alias_corpus :: "(string \<times> string) list" where
  "alias_corpus = concat (map (\<lambda>(f, as). if f \<in> set MAPPABLE_FIELDS then map (\<lambda>a. (a, f)) (f # as) else [])
     FIELD_ALIASES)"

type_synonym extractor = "string \<Rightarrow> string list \<Rightarrow> (rat \<times> nat) option"

text \<open>What rapidfuzz documents: the index is one of the choices, the score is between 0 and 100.\<close>

definition extractor_ok :: "extractor \<Rightarrow> bool" where
  "extractor_ok extract \<longleftrightarrow>
     (\<forall>q cs s i. extract q cs = Some (s, i) \<longrightarrow> i < length cs \<and> 0 \<le> s \<and> s \<le> 100)"

definition fuzzy :: "extractor \<Rightarrow> string \<Rightarrow> string list \<Rightarrow> string option \<times> rat" where
  "fuzzy extract header taken =
     (let normalized = normalize_header header;
          candidates = filter (\<lambda>(a, f). f \<notin> set taken) alias_corpus
      in if normalized = [] \<or> candidates = [] then (None, 0)
         else case extract normalized (map fst candidates) of
             None \<Rightarrow> (None, 0)
           | Some (s, i) \<Rightarrow> (Some (snd (candidates ! i)), fl (s / 100)))"

section \<open>Matching one header\<close>

definition shown_field :: "string option \<Rightarrow> string" where
  "shown_field f = (case f of None \<Rightarrow> ''None'' | Some x \<Rightarrow> x)"

definition declined :: "string \<Rightarrow> bool \<Rightarrow> local_match" where
  "declined why deg = \<lparr>lm_field = None, lm_confidence = 0, lm_evidence = why, lm_degraded = deg\<rparr>"

definition matched :: "string option \<Rightarrow> rat \<Rightarrow> string \<Rightarrow> bool \<Rightarrow> local_match" where
  "matched f conf why deg =
     \<lparr>lm_field = f, lm_confidence = py_round 3 conf, lm_evidence = why, lm_degraded = deg\<rparr>"

definition fuzzy_only :: "string option \<Rightarrow> rat \<Rightarrow> bool \<Rightarrow> local_match" where
  "fuzzy_only ff fs deg =
     (let confidence = min (fl (fs * fl (92 / 100))) MAX_CONFIDENCE in
      if ff = None \<or> confidence < MIN_ACCEPT then
        declined (''no local match above '' @ fixed 2 MIN_ACCEPT @ '' (best fuzzy '' @ fixed 2 fs
          @ (if deg then '', semantic matcher unavailable'' else '''') @ '')'') deg
      else matched ff confidence (''fuzzy match to alias vocabulary at '' @ fixed 2 fs
          @ (if deg then '' (semantic matcher unavailable)'' else '''')) deg)"

definition both_signals :: "string option \<Rightarrow> rat \<Rightarrow> string \<Rightarrow> rat \<Rightarrow> bool \<Rightarrow> local_match" where
  "both_signals ff fs sf ss deg =
     (if ff \<noteq> Some sf \<and> ss \<le> fs then
        (let combined = min (fl (fs * fl (92 / 100))) MAX_CONFIDENCE in
         if ff = None \<or> combined < MIN_ACCEPT then
           declined ''fuzzy and semantic disagree below threshold'' deg
         else matched ff combined (''fuzzy match at '' @ fixed 2 fs @ ''; semantic preferred '' @ sf
                @ '' at '' @ fixed 2 ss) deg)
      else
        (let (combined, why) =
           (if ff = Some sf then
              (min (fl (fl (fl (FUZZY_WEIGHT * fs) + fl (SEMANTIC_WEIGHT * ss)) + AGREEMENT_BONUS))
                 MAX_CONFIDENCE,
               ''fuzzy and semantic agree on '' @ sf @ '' (fuzzy '' @ fixed 2 fs @ '', semantic ''
                 @ fixed 2 ss @ '')'')
            else
              (min (fl (ss * fl (92 / 100))) MAX_CONFIDENCE,
               ''semantic match at '' @ fixed 2 ss @ ''; fuzzy preferred '' @ shown_field ff @ '' at ''
                 @ fixed 2 fs))
         in if combined < MIN_ACCEPT then
              declined (''best local candidate '' @ sf @ '' scored '' @ fixed 2 combined
                @ '', below the '' @ fixed 2 MIN_ACCEPT @ '' threshold'') deg
            else matched (Some sf) combined why deg))"

definition match_header ::
    "extractor \<Rightarrow> 'v emb_model \<Rightarrow> string \<Rightarrow> string list \<Rightarrow> 'v emb_state \<Rightarrow> local_match \<times> 'v emb_state" where
  "match_header extract em header taken st =
     (let (ff, fs) = fuzzy extract header taken;
          ((sf, ss), st') = emb_best em header st;
          (sf, ss) = (case sf of Some f \<Rightarrow> if f \<in> set taken then (None, 0) else (sf, ss)
                                | None \<Rightarrow> (sf, ss));
          deg = (\<not> emb_available st')
      in (case sf of
            None \<Rightarrow> fuzzy_only ff fs deg
          | Some f \<Rightarrow> both_signals ff fs f ss deg, st'))"

section \<open>Facts\<close>

definition emb_ok :: "'v emb_state \<Rightarrow> bool" where
  "emb_ok st = (case st of Loaded vs \<Rightarrow> fst ` set vs \<subseteq> set MAPPABLE_FIELDS | _ \<Rightarrow> True)"

lemma descriptions_mappable: "fst ` set FIELD_DESCRIPTIONS \<subseteq> set MAPPABLE_FIELDS"
proof -
  have "list_all (\<lambda>p. fst p \<in> set MAPPABLE_FIELDS) FIELD_DESCRIPTIONS" by code_simp
  then show ?thesis by (auto simp: list_all_iff)
qed

lemma emb_touch_ok: "emb_ok st \<Longrightarrow> emb_ok (emb_touch em st)"
  using descriptions_mappable
  by (auto simp: emb_touch_def emb_do_load_def emb_ok_def dest!: set_zip_leftD
      split: emb_state.splits option.splits)

lemma emb_scan_field:
  "emb_scan sc fvs b = (Some f, s) \<Longrightarrow> f \<in> fst ` set fvs \<or> fst b = Some f"
  by (induction fvs arbitrary: b) (force simp: Let_def split: if_splits)+

lemma emb_best_ok:
  assumes "emb_best em h st = ((sf, ss), st')" and "emb_ok st"
  shows "emb_ok st'" and "sf = Some f \<Longrightarrow> f \<in> set MAPPABLE_FIELDS"
  using assms(1) emb_touch_ok [OF assms(2), of em]
  by (auto simp: emb_best_def Let_def emb_ok_def subset_eq split: emb_state.splits option.splits prod.splits
      dest!: emb_scan_field)

lemma alias_corpus_mappable: "(a, f) \<in> set alias_corpus \<Longrightarrow> f \<in> set MAPPABLE_FIELDS"
  by (auto simp: alias_corpus_def split: if_splits)

lemma fuzzy_field:
  assumes "fuzzy extract h taken = (Some f, s)" and "extractor_ok extract"
  shows "f \<in> set MAPPABLE_FIELDS - set taken"
proof -
  let ?c = "filter (\<lambda>(a, f). f \<notin> set taken) alias_corpus"
  obtain t i where e: "extract (normalize_header h) (map fst ?c) = Some (t, i)" and f: "f = snd (?c ! i)"
    using assms(1) by (auto simp: fuzzy_def Let_def split: if_splits option.splits)
  have "i < length (map fst ?c)" using assms(2) e unfolding extractor_ok_def by blast
  then have "i < length ?c" by simp
  then have "?c ! i \<in> set ?c" by (rule nth_mem)
  then have "(fst (?c ! i), f) \<in> set ?c" by (simp only: f prod.collapse)
  then show ?thesis using alias_corpus_mappable by auto
qed

lemma matched_sel [simp]:
  "lm_field (matched f c w d) = f" "lm_confidence (matched f c w d) = py_round 3 c"
  "lm_field (declined w d) = None" "lm_confidence (declined w d) = 0"
  by (simp_all add: matched_def declined_def)

lemma max_conf_round: "py_round 3 MAX_CONFIDENCE = MAX_CONFIDENCE" "py_round 3 MIN_ACCEPT = MIN_ACCEPT"
  by code_simp+

lemma accepted_bounds:
  "\<not> x < MIN_ACCEPT \<Longrightarrow> MIN_ACCEPT \<le> py_round 3 x"
  "x \<le> MAX_CONFIDENCE \<Longrightarrow> py_round 3 x \<le> MAX_CONFIDENCE"
  using py_round_mono [of MIN_ACCEPT x 3] py_round_mono [of x MAX_CONFIDENCE 3]
  by (simp_all add: max_conf_round)

lemma fuzzy_only_field:
  assumes "lm_field (fuzzy_only ff fs deg) = Some f"
  shows "ff = Some f" and "MIN_ACCEPT \<le> lm_confidence (fuzzy_only ff fs deg)
    \<and> lm_confidence (fuzzy_only ff fs deg) \<le> MAX_CONFIDENCE"
  using assms by (auto simp: fuzzy_only_def Let_def accepted_bounds split: if_splits)

lemma both_signals_field:
  assumes "lm_field (both_signals ff fs sf ss deg) = Some f"
  shows "ff = Some f \<or> sf = f" and "MIN_ACCEPT \<le> lm_confidence (both_signals ff fs sf ss deg)
    \<and> lm_confidence (both_signals ff fs sf ss deg) \<le> MAX_CONFIDENCE"
  using assms by (auto simp: both_signals_def Let_def accepted_bounds split: if_splits)

lemma match_header_emb_ok:
  assumes "match_header extract em header taken st = (lm, st')" and "emb_ok st"
  shows "emb_ok st'"
proof -
  obtain sf ss st1 where eb: "emb_best em header st = ((sf, ss), st1)" by (metis surj_pair)
  have "st' = st1" using assms(1) by (auto simp: match_header_def eb Let_def split: prod.splits)
  then show ?thesis using emb_best_ok(1) [OF eb assms(2)] by simp
qed

lemma match_header_field:
  assumes "match_header extract em header taken st = (lm, st')"
    and "extractor_ok extract" and "emb_ok st" and "lm_field lm = Some f"
  shows "f \<in> set MAPPABLE_FIELDS - set taken \<and> MIN_ACCEPT \<le> lm_confidence lm
    \<and> lm_confidence lm \<le> MAX_CONFIDENCE"
proof -
  obtain ff fs where fz: "fuzzy extract header taken = (ff, fs)" by (cases "fuzzy extract header taken")
  obtain sf ss st1 where eb: "emb_best em header st = ((sf, ss), st1)"
    by (metis surj_pair)
  note fz_ok = fuzzy_field [OF _ assms(2)] and eb_ok = emb_best_ok [OF eb assms(3)]
  have "(sf \<noteq> None \<and> the sf \<notin> set taken \<and> lm = both_signals ff fs (the sf) ss (\<not> emb_available st1))
     \<or> lm = fuzzy_only ff fs (\<not> emb_available st1)"
    using assms(1) by (auto simp: match_header_def fz eb Let_def split: option.splits if_splits)
  then show ?thesis
  proof
    assume b: "sf \<noteq> None \<and> the sf \<notin> set taken \<and> lm = both_signals ff fs (the sf) ss (\<not> emb_available st1)"
    with both_signals_field [of ff fs "the sf" ss "\<not> emb_available st1" f] assms(4)
    show ?thesis using fz fz_ok eb_ok by auto
  next
    assume "lm = fuzzy_only ff fs (\<not> emb_available st1)"
    with fuzzy_only_field [of ff fs "\<not> emb_available st1" f] assms(4)
    show ?thesis using fz fz_ok by auto
  qed
qed

text \<open>Tier 2 never reuses a field: an accepted match is a mappable field not yet taken, and its
  confidence stays at or above the acceptance threshold and strictly below a dictionary hit.\<close>

lemma tier2_match_sound:
  assumes "match_header extract em header taken st = (lm, st')"
    and "extractor_ok extract" and "emb_ok st" and "lm_field lm = Some f"
  shows "f \<in> set MAPPABLE_FIELDS - set taken \<and> MIN_ACCEPT \<le> lm_confidence lm
    \<and> lm_confidence lm \<le> MAX_CONFIDENCE \<and> MAX_CONFIDENCE < 1 \<and> emb_ok st'"
proof -
  have "MAX_CONFIDENCE < 1" by code_simp
  then show ?thesis using match_header_field [OF assms] match_header_emb_ok [OF assms(1,3)] by blast
qed

section \<open>Example\<close>

text \<open>An extractor that finds exact matches only, and no embedding model.\<close>

definition exact_extract :: extractor where
  "exact_extract q cs =
     (case find (\<lambda>p. fst p = q) (zip cs [0..<length cs]) of
        None \<Rightarrow> None | Some (_, i) \<Rightarrow> Some (100, i))"

definition no_model :: "unit emb_model" where
  "no_model = \<lparr>emb_load = None, emb_embed = (\<lambda>_. None), emb_cosine = (\<lambda>_ _. 0)\<rparr>"

lemma exact_extract_ok: "extractor_ok exact_extract"
  by (auto simp: extractor_ok_def exact_extract_def find_Some_iff in_set_conv_nth split: option.splits)

lemma tier2_match_sound_witness:
  "lm_field (fst (match_header exact_extract no_model ''Proceeds'' [''quantity''] Unloaded)) = Some ''net_amount''
   \<and> MIN_ACCEPT \<le> lm_confidence (fst (match_header exact_extract no_model ''Proceeds'' [''quantity''] Unloaded))"
proof -
  have f: "lm_field (fst (match_header exact_extract no_model ''Proceeds'' [''quantity''] Unloaded)) = Some ''net_amount''"
    by code_simp
  obtain lm st where m: "match_header exact_extract no_model ''Proceeds'' [''quantity''] Unloaded = (lm, st)"
    by (metis surj_pair)
  have "emb_ok (Unloaded :: unit emb_state)" by (simp add: emb_ok_def)
  from tier2_match_sound [OF m exact_extract_ok this] f show ?thesis by (simp add: m)
qed

end
