(* ===== verification/PyDate.thy ===== *)
theory PyDate
  imports PyRegex
begin

text \<open>
  Python's \<open>datetime.date\<close> and \<open>datetime.strptime\<close>. A date is its proleptic Gregorian ordinal
  (\<open>date.toordinal()\<close>): adding a \<open>timedelta\<close> of days is integer addition and the order of dates
  is the order of integers. Years outside 1 to 9999, where Python raises, are not excluded from
  the type; the services only build dates through \<open>make_date\<close>, which checks them.
\<close>

section \<open>The calendar\<close>

type_synonym date = int

definition is_leap :: "int \<Rightarrow> bool" where
  "is_leap y \<longleftrightarrow> y mod 4 = 0 \<and> (y mod 100 \<noteq> 0 \<or> y mod 400 = 0)"

definition days_in_month :: "int \<Rightarrow> int \<Rightarrow> int" where
  "days_in_month y m =
     (if m = 2 then (if is_leap y then 29 else 28)
      else if m = 4 \<or> m = 6 \<or> m = 9 \<or> m = 11 then 30 else 31)"

definition days_before_year :: "int \<Rightarrow> int" where
  "days_before_year y = (y - 1) * 365 + (y - 1) div 4 - (y - 1) div 100 + (y - 1) div 400"

definition days_before_month :: "int \<Rightarrow> int \<Rightarrow> int" where
  "days_before_month y m =
     (if m = 1 then 0 else if m = 2 then 31 else
       (if m = 3 then 59 else if m = 4 then 90 else if m = 5 then 120 else if m = 6 then 151
        else if m = 7 then 181 else if m = 8 then 212 else if m = 9 then 243
        else if m = 10 then 273 else if m = 11 then 304 else 334) + (if is_leap y then 1 else 0))"

definition ymd2ord :: "int \<Rightarrow> int \<Rightarrow> int \<Rightarrow> date" where
  "ymd2ord y m d = days_before_year y + days_before_month y m + d"

text \<open>The constructor \<open>date(y, m, d)\<close>; \<open>None\<close> is its \<open>ValueError\<close>.\<close>

definition make_date :: "int \<Rightarrow> int \<Rightarrow> int \<Rightarrow> date option" where
  "make_date y m d =
     (if 1 \<le> y \<and> y \<le> 9999 \<and> 1 \<le> m \<and> m \<le> 12 \<and> 1 \<le> d \<and> d \<le> days_in_month y m
      then Some (ymd2ord y m d) else None)"

text \<open>\<open>date.weekday()\<close>: Monday is 0.\<close>

definition weekday :: "date \<Rightarrow> int" where
  "weekday d = (d + 6) mod 7"

definition month_of :: "int \<Rightarrow> bool \<Rightarrow> int \<times> int" where
  "month_of n leap = (let l = (if leap then 1 else 0) in
     if n < 31 then (1, n) else if n < 59 + l then (2, n - 31)
     else if n < 90 + l then (3, n - (59 + l)) else if n < 120 + l then (4, n - (90 + l))
     else if n < 151 + l then (5, n - (120 + l)) else if n < 181 + l then (6, n - (151 + l))
     else if n < 212 + l then (7, n - (181 + l)) else if n < 243 + l then (8, n - (212 + l))
     else if n < 273 + l then (9, n - (243 + l)) else if n < 304 + l then (10, n - (273 + l))
     else if n < 334 + l then (11, n - (304 + l)) else (12, n - (334 + l)))"

text \<open>Year, month and day of an ordinal: cycles of 400, 100, 4 and 1 years, then the month.\<close>

definition ord2ymd :: "date \<Rightarrow> int \<times> int \<times> int" where
  "ord2ymd n =
     (let n0 = n - 1; n400 = n0 div 146097; r400 = n0 mod 146097;
          n100 = r400 div 36524; r100 = r400 mod 36524;
          n4 = r100 div 1461; r4 = r100 mod 1461;
          n1 = r4 div 365; r1 = r4 mod 365;
          y = n400 * 400 + n100 * 100 + n4 * 4 + n1 + 1
      in if n1 = 4 \<or> n100 = 4 then (y - 1, 12, 31)
         else let (m, k) = month_of r1 (is_leap y) in (y, m, k + 1))"

definition isoformat :: "date \<Rightarrow> string" where
  "isoformat n = (case ord2ymd n of (y, m, d) \<Rightarrow>
     pad_left 4 (CHR ''0'') (int_str y) @ ''-'' @ pad_left 2 (CHR ''0'') (int_str m) @ ''-''
     @ pad_left 2 (CHR ''0'') (int_str d))"

lemma ymd2ord_month_of:
  "0 \<le> n \<Longrightarrow> month_of n (is_leap y) = (m, k) \<Longrightarrow> ymd2ord y m (k + 1) = days_before_year y + n + 1"
  by (auto simp: month_of_def ymd2ord_def days_before_month_def Let_def split: if_splits)

lemma days_before_year_cycles:
  assumes "0 \<le> b" "b \<le> 3" "0 \<le> c" "c \<le> 24" "0 \<le> d" "d \<le> 3"
  shows "days_before_year (a * 400 + b * 100 + c * 4 + d + 1) = a * 146097 + b * 36524 + c * 1461 + d * 365"
proof -
  let ?y = "a * 400 + b * 100 + c * 4 + d"
  have "?y div 4 = a * 100 + b * 25 + c"
    by (rule int_div_pos_eq [where r = d]) (use assms in auto)
  moreover have "?y div 100 = a * 4 + b"
    by (rule int_div_pos_eq [where r = "c * 4 + d"]) (use assms in auto)
  moreover have "?y div 400 = a"
    by (rule int_div_pos_eq [where r = "b * 100 + c * 4 + d"]) (use assms in auto)
  ultimately show ?thesis by (simp add: days_before_year_def)
qed

text \<open>The two conversions agree, so \<open>isoformat\<close> names one date only.\<close>

theorem ymd2ord_ord2ymd: "(case ord2ymd n of (y, m, d) \<Rightarrow> ymd2ord y m d) = n"
proof -
  define a r1 b r2 c r3 d k where
    "a = (n - 1) div 146097" and "r1 = (n - 1) mod 146097" and "b = r1 div 36524"
    and "r2 = r1 mod 36524" and "c = r2 div 1461" and "r3 = r2 mod 1461"
    and "d = r3 div 365" and "k = r3 mod 365"
  note defs = this
  have n: "n - 1 = a * 146097 + r1" and r1: "r1 = b * 36524 + r2" "0 \<le> r1" "r1 < 146097"
    and r2: "r2 = c * 1461 + r3" "0 \<le> r2" "r2 < 36524"
    and r3: "r3 = d * 365 + k" "0 \<le> r3" "r3 < 1461" and k: "0 \<le> k" "k < 365"
    by (simp_all add: defs)
  have "0 \<le> b" "0 \<le> c" "0 \<le> d" using r1 r2 r3 by (simp_all add: defs pos_imp_zdiv_nonneg_iff)
  moreover have "b \<le> 4" using r1 r2(2) by linarith
  moreover have "c \<le> 24" using r2 r3(2) by linarith
  moreover have "d \<le> 4" using r3 k(1) by linarith
  ultimately have range: "0 \<le> b" "b \<le> 4" "0 \<le> c" "c \<le> 24" "0 \<le> d" "d \<le> 4" "0 \<le> k" "k < 365"
    using k by blast+
  define y where "y = a * 400 + b * 100 + c * 4 + d + 1"
  have ord: "ord2ymd n = (if d = 4 \<or> b = 4 then (y - 1, 12, 31)
    else let (m, j) = month_of k (is_leap y) in (y, m, j + 1))"
    by (simp add: ord2ymd_def Let_def defs y_def)
  show ?thesis
  proof (cases "d = 4 \<or> b = 4")
    case False
    with range have "days_before_year y = a * 146097 + b * 36524 + c * 1461 + d * 365"
      unfolding y_def by (intro days_before_year_cycles) auto
    with n r1 r2 r3 range False show ?thesis
      using ymd2ord_month_of [of k y] by (simp add: ord split: prod.splits)
  next
    case True
    have last: "(case ord2ymd n of (y, m, d) \<Rightarrow> ymd2ord y m d)
        = days_before_year (y - 1) + 365 + (if is_leap (y - 1) then 1 else 0)"
      using True by (simp add: ord ymd2ord_def days_before_month_def)
    show ?thesis
    proof (cases "b = 4")
      case True
      then have "r2 = 0" using r1(1,3) r2(2) by linarith
      then have "c = 0" "r3 = 0" using r2(1) r3(2) range(3) by linarith+
      then have zero: "c = 0" "d = 0" "k = 0" using r3(1) range(5,7) by linarith+
      then have y: "y - 1 = a * 400 + 3 * 100 + 24 * 4 + 3 + 1" using True by (simp add: y_def)
      have "(y - 1) mod 4 = 0"
        by (rule int_mod_pos_eq [where q = "a * 100 + 100"]) (simp_all add: y)
      moreover have "(y - 1) mod 400 = 0"
        by (rule int_mod_pos_eq [where q = "a + 1"]) (simp_all add: y)
      ultimately have "is_leap (y - 1)" by (simp add: is_leap_def)
      moreover have "days_before_year (y - 1) = a * 146097 + 3 * 36524 + 24 * 1461 + 3 * 365"
        unfolding y by (rule days_before_year_cycles) auto
      ultimately show ?thesis using n r1 r2 r3 True zero last by simp
    next
      case False
      with True have d: "d = 4" by simp
      then have k0: "k = 0" using r3(1,3) range(7) by linarith
      have c: "c \<le> 23" using d r3(1) range(7) r2(1,3) by linarith
      have y: "y - 1 = a * 400 + b * 100 + c * 4 + 3 + 1" using d by (simp add: y_def)
      have "(y - 1) mod 100 = c * 4 + 4"
        by (rule int_mod_pos_eq [where q = "a * 4 + b"]) (use range c in \<open>auto simp: y\<close>)
      then have "(y - 1) mod 100 \<noteq> 0" using range by simp
      moreover have "(y - 1) mod 4 = 0"
        by (rule int_mod_pos_eq [where q = "a * 100 + b * 25 + c + 1"]) (simp_all add: y)
      ultimately have "is_leap (y - 1)" by (simp add: is_leap_def)
      moreover have "days_before_year (y - 1) = a * 146097 + b * 36524 + c * 1461 + 3 * 365"
        unfolding y by (rule days_before_year_cycles) (use range False c in auto)
      ultimately show ?thesis using n r1 r2 r3 d k0 last by simp
    qed
  qed
qed

lemma isoformat_eq_ymd: "ord2ymd a = ord2ymd b \<Longrightarrow> a = b"
  by (metis ymd2ord_ord2ymd)

section \<open>\<open>strptime\<close>\<close>

text \<open>
  The pattern \<open>_strptime\<close> builds from a format: four digits for \<open>%Y\<close>, the alternatives of
  \<open>%m\<close> and \<open>%d\<close> in the library's order, month names in English (\<open>%b\<close>, \<open>%B\<close>), white space as
  \<open>\s+\<close>, any other character itself; letters match in either case.
\<close>

definition digit_in :: "nat \<Rightarrow> nat \<Rightarrow> re" where
  "digit_in lo hi = Chr (\<lambda>c. 48 + lo \<le> ord c \<and> ord c \<le> 48 + hi)"

definition letter :: "char \<Rightarrow> re" where
  "letter c = Chr (\<lambda>x. to_lower x = to_lower c)"

definition word_ci :: "string \<Rightarrow> re" where
  "word_ci w = Seqs (map letter w)"

definition month_abbr :: "string list" where
  "month_abbr = [''jan'', ''feb'', ''mar'', ''apr'', ''may'', ''jun'', ''jul'', ''aug'', ''sep'', ''oct'',
     ''nov'', ''dec'']"

definition month_name :: "string list" where
  "month_name = [''january'', ''february'', ''march'', ''april'', ''may'', ''june'', ''july'', ''august'',
     ''september'', ''october'', ''november'', ''december'']"

definition month_name_by_length :: "string list" where
  "month_name_by_length = [''september'', ''february'', ''november'', ''december'', ''january'',
     ''october'', ''august'', ''march'', ''april'', ''june'', ''july'', ''may'']"

fun directive :: "char \<Rightarrow> re" where
  "directive c =
     (if c = CHR ''Y'' then Grp ''Y'' (Rep 4 4 (digit_in 0 9))
      else if c = CHR ''m'' then Grp ''m'' (Alts [Seq (digit_in 1 1) (digit_in 0 2),
        Seq (digit_in 0 0) (digit_in 1 9), digit_in 1 9])
      else if c = CHR ''d'' then Grp ''d'' (Alts [Seq (digit_in 3 3) (digit_in 0 1),
        Seq (digit_in 1 2) (digit_in 0 9), Seq (digit_in 0 0) (digit_in 1 9), digit_in 1 9,
        Seq (Lit (CHR '' '')) (digit_in 1 9)])
      else if c = CHR ''b'' then Grp ''b'' (Alts (map word_ci month_abbr))
      else if c = CHR ''B'' then Grp ''B'' (Alts (map word_ci month_name_by_length))
      else letter c)"

fun format_re :: "string \<Rightarrow> re" where
  "format_re [] = Eps"
| "format_re [c] = (if is_space c then Many 1 (Chr is_space) else letter c)"
| "format_re (c # d # cs) =
     (if c = CHR ''%'' then Seq (directive d) (format_re cs)
      else if is_space c then Seq (Many 1 (Chr is_space)) (format_re (d # cs))
      else Seq (letter c) (format_re (d # cs)))"

fun index_of :: "'a list \<Rightarrow> 'a \<Rightarrow> nat" where
  "index_of [] y = 0"
| "index_of (x # xs) y = (if x = y then 0 else Suc (index_of xs y))"

text \<open>
  \<open>datetime.strptime(s, fmt).date()\<close> for formats that name a year, a month and a day: the year
  with the resulting date, or \<open>None\<close> for the \<open>ValueError\<close> of no match, of unconverted data
  and of an impossible day.
\<close>

definition strptime :: "string \<Rightarrow> string \<Rightarrow> (int \<times> date) option" where
  "strptime s fmt = (case re_match (format_re fmt) s of
     None \<Rightarrow> None
   | Some m \<Rightarrow> if m_rest m \<noteq> [] then None else
       let g = (\<lambda>k. map_of (m_groups m) k);
           year = (case g ''Y'' of None \<Rightarrow> 1900 | Some t \<Rightarrow> digits_val t);
           month = (case g ''m'' of Some t \<Rightarrow> digits_val t | None \<Rightarrow>
             (case g ''b'' of Some t \<Rightarrow> int (index_of month_abbr (lower t)) + 1 | None \<Rightarrow>
               (case g ''B'' of Some t \<Rightarrow> int (index_of month_name (lower t)) + 1 | None \<Rightarrow> 1)));
           day = (case g ''d'' of None \<Rightarrow> 1 | Some t \<Rightarrow> digits_val (strip t))
       in map_option (Pair year) (make_date year month day))"

lemma strptime_year: "strptime s fmt = Some (y, d) \<Longrightarrow> 1 \<le> y \<and> y \<le> 9999"
  by (auto simp: strptime_def make_date_def Let_def split: option.splits if_splits)

end
