(* ===== verification/Registry.thy ===== *)
theory Registry
  imports PyDate
begin

text \<open>
  Client configuration and business calendars: \<open>python/src/inspector/registry.py\<close>. The records
  are the module's dataclasses; a compiled filename pattern is the function that
  \<open>pattern.match(name).groupdict().get\<close> computes. \<open>load\<close> starts from the parsed clients and
  calendars; \<open>RegistryLoad\<close> holds the reading of the files.

  The locale \<open>day_search\<close> is the contract of the two day searches (they find the nearest
  business day within 30 days); the facts about \<open>add_business_days\<close> and \<open>roll\<close> rest on it.
\<close>

section \<open>Calendars\<close>

definition WEEKDAYS :: "(string \<times> int) list" where
  "WEEKDAYS = [(''MONDAY'', 0), (''TUESDAY'', 1), (''WEDNESDAY'', 2), (''THURSDAY'', 3),
     (''FRIDAY'', 4), (''SATURDAY'', 5), (''SUNDAY'', 6)]"

definition MAX_CALENDAR_STEP_DAYS :: nat where
  "MAX_CALENDAR_STEP_DAYS = 30"

record calendar =
  calendar_id :: string
  weekend :: "int list"
  holidays :: "(date, string) dict"

definition is_business_day :: "calendar \<Rightarrow> date \<Rightarrow> bool" where
  "is_business_day c d \<longleftrightarrow> weekday d \<notin> set (weekend c) \<and> dict_get (holidays c) d = None"

definition holiday_name :: "calendar \<Rightarrow> date \<Rightarrow> string" where
  "holiday_name c d = dict_get_or (holidays c) d []"

text \<open>The loop shared by the two searches: at most \<open>n\<close> steps of one day.\<close>

primrec seek :: "calendar \<Rightarrow> int \<Rightarrow> nat \<Rightarrow> date \<Rightarrow> date" where
  "seek c step 0 d = d"
| "seek c step (Suc n) d =
     (let d' = d + step in if is_business_day c d' then d' else seek c step n d')"

definition previous_business_day :: "calendar \<Rightarrow> date \<Rightarrow> date" where
  "previous_business_day c d = seek c (- 1) MAX_CALENDAR_STEP_DAYS d"

definition next_business_day :: "calendar \<Rightarrow> date \<Rightarrow> date" where
  "next_business_day c d = seek c 1 MAX_CALENDAR_STEP_DAYS d"

definition add_business_days :: "calendar \<Rightarrow> date \<Rightarrow> int \<Rightarrow> date" where
  "add_business_days c d n =
     (if n = 0 then d
      else ((if 0 < n then next_business_day c else previous_business_day c) ^^ nat \<bar>n\<bar>) d)"

definition roll :: "calendar \<Rightarrow> date \<Rightarrow> string \<Rightarrow> date" where
  "roll c d convention =
     (if is_business_day c d then d
      else if convention = ''PRECEDING'' then previous_business_day c d
      else next_business_day c d)"

section \<open>The contract of the day searches\<close>

locale day_search =
  fixes open_day :: "date \<Rightarrow> bool"
    and prev :: "date \<Rightarrow> date"
    and nxt :: "date \<Rightarrow> date"
    and reach :: int
  assumes prev_range: "d - reach \<le> prev d" "prev d < d"
    and nxt_range: "d < nxt d" "nxt d \<le> d + reach"
    and prev_gap: "prev d < x \<Longrightarrow> x < d \<Longrightarrow> \<not> open_day x"
    and nxt_gap: "d < x \<Longrightarrow> x < nxt d \<Longrightarrow> \<not> open_day x"
    and prev_found: "open_day x \<Longrightarrow> d - reach \<le> x \<Longrightarrow> x < d \<Longrightarrow> open_day (prev d)"
    and nxt_found: "open_day x \<Longrightarrow> d < x \<Longrightarrow> x \<le> d + reach \<Longrightarrow> open_day (nxt d)"
begin

lemma prev_latest: "open_day x \<Longrightarrow> d - reach \<le> x \<Longrightarrow> x < d \<Longrightarrow> x \<le> prev d"
  using prev_gap [of d x] by force

lemma nxt_earliest: "open_day x \<Longrightarrow> d < x \<Longrightarrow> x \<le> d + reach \<Longrightarrow> nxt d \<le> x"
  using nxt_gap [of d x] by force

text \<open>Stepping forward and back from an open day returns to it.\<close>

lemma prev_nxt:
  assumes "open_day d"
  shows "prev (nxt d) = d"
proof (rule antisym)
  show "d \<le> prev (nxt d)"
    using prev_latest [OF assms, of "nxt d"] nxt_range [of d] by simp
  show "prev (nxt d) \<le> d"
  proof (rule ccontr)
    assume "\<not> prev (nxt d) \<le> d"
    then have "d < prev (nxt d)" "prev (nxt d) < nxt d" using prev_range by simp_all
    moreover have "open_day (prev (nxt d))"
      using prev_found [OF assms, of "nxt d"] nxt_range [of d] by simp
    ultimately show False using nxt_gap by blast
  qed
qed

lemma prev_pow_nxt_pow:
  assumes "\<And>i. i < n \<Longrightarrow> open_day ((nxt ^^ i) d)"
  shows "(prev ^^ n) ((nxt ^^ n) d) = d"
  using assms
proof (induction n)
  case (Suc n)
  have "(prev ^^ Suc n) y = (prev ^^ n) (prev y)" for y by (simp add: funpow_swap1)
  then have "(prev ^^ Suc n) ((nxt ^^ Suc n) d) = (prev ^^ n) (prev (nxt ((nxt ^^ n) d)))"
    by (simp only: funpow.simps(2) [of n nxt] comp_apply)
  also have "\<dots> = (prev ^^ n) ((nxt ^^ n) d)" using prev_nxt Suc.prems by simp
  also have "\<dots> = d" using Suc by simp
  finally show ?case .
qed simp

lemma nxt_pow_range: "d + int n \<le> (nxt ^^ n) d \<and> (nxt ^^ n) d \<le> d + int n * reach"
proof (induction n)
  case (Suc n)
  then show ?case using nxt_range [of "(nxt ^^ n) d"] by (simp add: algebra_simps)
qed simp

lemma prev_pow_range: "d - int n * reach \<le> (prev ^^ n) d \<and> (prev ^^ n) d \<le> d - int n"
proof (induction n)
  case (Suc n)
  then show ?case using prev_range [of "(prev ^^ n) d"] by (simp add: algebra_simps)
qed simp

lemma nxt_pow_open:
  assumes "\<And>x. \<exists>y. x < y \<and> y \<le> x + reach \<and> open_day y" and "0 < n"
  shows "open_day ((nxt ^^ n) d)"
proof -
  obtain m where n: "n = Suc m" using assms(2) by (cases n) auto
  obtain y where "(nxt ^^ m) d < y" "y \<le> (nxt ^^ m) d + reach" "open_day y" using assms(1) by blast
  then show ?thesis using nxt_found by (simp add: n)
qed

end

section \<open>The code's searches keep it\<close>

lemma seek_spec:
  assumes "s = 1 \<or> s = - 1" and "0 < n"
  shows "\<exists>k. 0 < k \<and> k \<le> int n \<and> seek c s n d = d + s * k
     \<and> (\<forall>j. 0 < j \<longrightarrow> j < k \<longrightarrow> \<not> is_business_day c (d + s * j))
     \<and> (k < int n \<longrightarrow> is_business_day c (d + s * k))
     \<and> (is_business_day c (d + s * int n) \<longrightarrow> is_business_day c (d + s * k))"
  using assms(2)
proof (induction n arbitrary: d)
  case (Suc n)
  show ?case
  proof (cases "is_business_day c (d + s) \<or> n = 0")
    case True
    then have "seek c s (Suc n) d = d + s" by (auto simp: Let_def)
    with True show ?thesis by (intro exI [of _ 1]) auto
  next
    case False
    then have eq: "seek c s (Suc n) d = seek c s n (d + s)" and "0 < n" by (simp_all add: Let_def)
    from Suc.IH [OF \<open>0 < n\<close>, of "d + s"] obtain k where k: "0 < k" "k \<le> int n"
      "seek c s n (d + s) = d + s + s * k"
      "\<forall>j. 0 < j \<longrightarrow> j < k \<longrightarrow> \<not> is_business_day c (d + s + s * j)"
      "k < int n \<longrightarrow> is_business_day c (d + s + s * k)"
      "is_business_day c (d + s + s * int n) \<longrightarrow> is_business_day c (d + s + s * k)" by blast
    have gap: "\<not> is_business_day c (d + s * j)" if "0 < j" "j < k + 1" for j
    proof (cases "j = 1")
      case True
      with False show ?thesis by simp
    next
      case False
      with that have "0 < j - 1" "j - 1 < k" by simp_all
      then have "\<not> is_business_day c (d + s + s * (j - 1))" using k(4) by blast
      then show ?thesis by (simp add: algebra_simps)
    qed
    show ?thesis
      using k gap by (intro exI [of _ "k + 1"]) (simp add: eq algebra_simps del: seek.simps)
  qed
qed simp

lemma seek_back:
  "\<exists>k. 0 < k \<and> k \<le> 30 \<and> previous_business_day c d = d - k
     \<and> (\<forall>x. d - k < x \<longrightarrow> x < d \<longrightarrow> \<not> is_business_day c x)
     \<and> ((\<exists>x. d - 30 \<le> x \<and> x < d \<and> is_business_day c x) \<longrightarrow> is_business_day c (d - k))"
proof -
  from seek_spec [of "- 1" 30 c d] obtain k where k: "0 < k" "k \<le> 30"
    "seek c (- 1) 30 d = d - k" "\<forall>j. 0 < j \<longrightarrow> j < k \<longrightarrow> \<not> is_business_day c (d - j)"
    "k < 30 \<longrightarrow> is_business_day c (d - k)"
    "is_business_day c (d - 30) \<longrightarrow> is_business_day c (d - k)" by auto
  have gap: "\<not> is_business_day c x" if "d - k < x" "x < d" for x
    using k(4) [rule_format, of "d - x"] that by simp
  have "is_business_day c (d - k)" if "d - 30 \<le> x" "x < d" "is_business_day c x" for x
  proof (cases "k < 30")
    case False
    with k(2) have "k = 30" by simp
    with gap that have "x = d - 30" by force
    with that k(6) show ?thesis by simp
  qed (simp add: k(5))
  with k gap show ?thesis
    by (intro exI [of _ k]) (auto simp: previous_business_day_def MAX_CALENDAR_STEP_DAYS_def)
qed

lemma seek_forward:
  "\<exists>k. 0 < k \<and> k \<le> 30 \<and> next_business_day c d = d + k
     \<and> (\<forall>x. d < x \<longrightarrow> x < d + k \<longrightarrow> \<not> is_business_day c x)
     \<and> ((\<exists>x. d < x \<and> x \<le> d + 30 \<and> is_business_day c x) \<longrightarrow> is_business_day c (d + k))"
proof -
  from seek_spec [of 1 30 c d] obtain k where k: "0 < k" "k \<le> 30"
    "seek c 1 30 d = d + k" "\<forall>j. 0 < j \<longrightarrow> j < k \<longrightarrow> \<not> is_business_day c (d + j)"
    "k < 30 \<longrightarrow> is_business_day c (d + k)"
    "is_business_day c (d + 30) \<longrightarrow> is_business_day c (d + k)" by auto
  have gap: "\<not> is_business_day c x" if "d < x" "x < d + k" for x
    using k(4) [rule_format, of "x - d"] that by simp
  have "is_business_day c (d + k)" if "d < x" "x \<le> d + 30" "is_business_day c x" for x
  proof (cases "k < 30")
    case False
    with k(2) have "k = 30" by simp
    with gap that have "x = d + 30" by force
    with that k(6) show ?thesis by simp
  qed (simp add: k(5))
  with k gap show ?thesis
    by (intro exI [of _ k]) (auto simp: next_business_day_def MAX_CALENDAR_STEP_DAYS_def)
qed

interpretation cal: day_search "is_business_day c" "previous_business_day c" "next_business_day c" 30
  for c
proof
  fix d x
  obtain k where k: "0 < k" "k \<le> 30" "previous_business_day c d = d - k"
    "\<forall>x. d - k < x \<longrightarrow> x < d \<longrightarrow> \<not> is_business_day c x"
    "(\<exists>x. d - 30 \<le> x \<and> x < d \<and> is_business_day c x) \<longrightarrow> is_business_day c (d - k)"
    using seek_back [of c d] by blast
  obtain l where l: "0 < l" "l \<le> 30" "next_business_day c d = d + l"
    "\<forall>x. d < x \<longrightarrow> x < d + l \<longrightarrow> \<not> is_business_day c x"
    "(\<exists>x. d < x \<and> x \<le> d + 30 \<and> is_business_day c x) \<longrightarrow> is_business_day c (d + l)"
    using seek_forward [of c d] by blast
  show "d - 30 \<le> previous_business_day c d" "previous_business_day c d < d" using k by simp_all
  show "d < next_business_day c d" "next_business_day c d \<le> d + 30" using l by simp_all
  show "previous_business_day c d < x \<Longrightarrow> x < d \<Longrightarrow> \<not> is_business_day c x" using k(3,4) by simp
  show "d < x \<Longrightarrow> x < next_business_day c d \<Longrightarrow> \<not> is_business_day c x" using l(3,4) by simp
  show "is_business_day c x \<Longrightarrow> d - 30 \<le> x \<Longrightarrow> x < d \<Longrightarrow> is_business_day c (previous_business_day c d)"
    using k(3,5) by auto
  show "is_business_day c x \<Longrightarrow> d < x \<Longrightarrow> x \<le> d + 30 \<Longrightarrow> is_business_day c (next_business_day c d)"
    using l(3,5) by auto
qed

lemma roll_business: "is_business_day c d \<Longrightarrow> roll c d conv = d"
  by (simp add: roll_def)

lemma roll_within: "\<bar>roll c d conv - d\<bar> \<le> 30"
  using cal.prev_range [where c = c and d = d] cal.nxt_range [where c = c and d = d] by (auto simp: roll_def)


lemma next_prev_not_same: "previous_business_day c d < next_business_day c d"
  using cal.prev_range(2) cal.nxt_range(1) less_trans by blast

section \<open>Clients\<close>

record account =
  acct_id :: string
  acct_name :: string
  venues :: "string list"

text \<open>\<open>pattern\<close> stands for \<open>re.compile(...).match\<close> followed by \<open>groupdict\<close>: \<open>None\<close> when
  the name does not match, otherwise the group named by the argument.\<close>

record filename_hint =
  pattern :: "string \<Rightarrow> (string \<Rightarrow> string option) option"
  domain_map :: "(string, string) dict"
  hint_domain :: string
  source_hint :: string

definition FilenameHint_match :: "filename_hint \<Rightarrow> string \<Rightarrow> (string \<times> string) option" where
  "FilenameHint_match h name =
     (case pattern h name of
        None \<Rightarrow> None
      | Some groups \<Rightarrow>
          let dom = (case groups ''domain'' of
                       None \<Rightarrow> hint_domain h
                     | Some raw \<Rightarrow> if raw = [] then hint_domain h
                                   else dict_get_or (domain_map h) raw (hint_domain h))
          in Some (dom, (case groups ''date'' of None \<Rightarrow> [] | Some d \<Rightarrow> d)))"

record expectation =
  exp_id :: string
  exp_domain :: string
  cadence :: string
  cuts_per_day :: int
  value_date_field_hints :: "string list"
  external_source_hint :: string
  internal_source_hint :: string

record client =
  client_id :: string
  client_name :: string
  client_calendar :: string
  late_window_days :: int
  accounts :: "account list"
  filename_hints :: "filename_hint list"
  expectations :: "expectation list"
  field_overrides :: "(string, string) dict"

definition expectation_for :: "client \<Rightarrow> string \<Rightarrow> expectation option" where
  "expectation_for cl domain = find (\<lambda>e. exp_domain e = domain) (expectations cl)"

definition client_account :: "client \<Rightarrow> string \<Rightarrow> account option" where
  "client_account cl a = find (\<lambda>x. acct_id x = a) (accounts cl)"

definition value_date_hints :: "client \<Rightarrow> string list" where
  "value_date_hints cl = uniq (concat (map value_date_field_hints (expectations cl)))"

section \<open>The registry\<close>

record registry =
  reg_clients :: "(string, client) dict"
  reg_calendars :: "(string, calendar) dict"

definition clients :: "registry \<Rightarrow> client list" where
  "clients r = map (\<lambda>k. the (dict_get (reg_clients r) k)) (sort (dict_keys (reg_clients r)))"

definition reg_client :: "registry \<Rightarrow> string \<Rightarrow> client option" where
  "reg_client r cid = dict_get (reg_clients r) cid"

definition reg_calendar :: "registry \<Rightarrow> string \<Rightarrow> calendar option" where
  "reg_calendar r cid = dict_get (reg_calendars r) cid"

definition calendar_for :: "registry \<Rightarrow> string \<Rightarrow> calendar option" where
  "calendar_for r cid =
     (case reg_client r cid of None \<Rightarrow> None | Some cl \<Rightarrow> reg_calendar r (client_calendar cl))"

primrec owner_among :: "string \<Rightarrow> client list \<Rightarrow> (client \<times> account) option" where
  "owner_among a [] = None"
| "owner_among a (cl # cls) =
     (case client_account cl a of Some x \<Rightarrow> Some (cl, x) | None \<Rightarrow> owner_among a cls)"

definition account_owner :: "registry \<Rightarrow> string \<Rightarrow> (client \<times> account) option" where
  "account_owner r a = owner_among a (clients r)"

definition all_account_ids :: "registry \<Rightarrow> (string, string) dict" where
  "all_account_ids r =
     dict_of (concat (map (\<lambda>cl. map (\<lambda>a. (acct_id a, client_id cl)) (accounts cl)) (clients r)))"

text \<open>\<open>load\<close>, from the parsed calendars and clients on.\<close>

definition load :: "string \<Rightarrow> calendar list \<Rightarrow> client list \<Rightarrow> registry result" where
  "load root cals cls =
     (let calendars = dict_of (map (\<lambda>c. (calendar_id c, c)) cals);
          clients = dict_of (map (\<lambda>c. (client_id c, c)) cls) in
      if clients = [] then Inl (ConfigError (''no client configuration found under '' @ root))
      else case find (\<lambda>c. dict_get calendars (client_calendar c) = None) (map snd clients) of
          Some c \<Rightarrow> Inl (ConfigError (''client '' @ client_id c @ '' references unknown calendar ''
                                  @ repr (client_calendar c)))
        | None \<Rightarrow> Inr \<lparr>reg_clients = clients, reg_calendars = calendars\<rparr>)"

section \<open>Facts about clients and accounts\<close>

lemma client_account_Some:
  "client_account cl a = Some x \<longleftrightarrow>
     (\<exists>i < length (accounts cl). accounts cl ! i = x \<and> acct_id x = a
        \<and> (\<forall>j < i. acct_id (accounts cl ! j) \<noteq> a))"
  by (auto simp: client_account_def find_Some_iff)

lemma client_account_None: "client_account cl a = None \<longleftrightarrow> a \<notin> acct_id ` set (accounts cl)"
  by (auto simp: client_account_def find_None_iff)

lemma client_account_SomeD: "client_account cl a = Some x \<Longrightarrow> x \<in> set (accounts cl) \<and> acct_id x = a"
  by (auto simp: client_account_Some)

lemma owner_amongD:
  "owner_among a cls = Some (cl, x) \<Longrightarrow> cl \<in> set cls \<and> x \<in> set (accounts cl) \<and> acct_id x = a"
  by (induction cls) (auto split: option.splits dest: client_account_SomeD)

lemma owner_among_None:
  "owner_among a cls = None \<longleftrightarrow> (\<forall>cl \<in> set cls. a \<notin> acct_id ` set (accounts cl))"
  by (induction cls) (auto split: option.splits simp: client_account_None [symmetric])


lemma clients_mem:
  "cl \<in> set (clients r) \<longleftrightarrow> (\<exists>k. dict_get (reg_clients r) k = Some cl)"
proof -
  have "cl \<in> set (clients r) \<longleftrightarrow>
      (\<exists>k. k \<in> fst ` set (reg_clients r) \<and> the (dict_get (reg_clients r) k) = cl)"
    by (auto simp: clients_def)
  also have "\<dots> \<longleftrightarrow> (\<exists>k. dict_get (reg_clients r) k = Some cl)"
  proof -
    have "k \<in> fst ` set (reg_clients r) \<longleftrightarrow> dict_get (reg_clients r) k \<noteq> None" for k
      by (simp add: map_of_eq_None_iff)
    then show ?thesis by (metis option.distinct(1) option.exhaust_sel option.sel)
  qed
  finally show ?thesis .
qed

lemma load_Inr:
  assumes "load root cals cls = Inr r"
  shows "cls \<noteq> []"
    and "reg_clients r = dict_of (map (\<lambda>c. (client_id c, c)) cls)"
    and "reg_calendars r = dict_of (map (\<lambda>c. (calendar_id c, c)) cals)"
    and "reg_client r cid = Some cl \<Longrightarrow> reg_calendar r (client_calendar cl) \<noteq> None"
proof -
  show ne: "cls \<noteq> []" using assms by (auto simp: load_def dict_of_def)
  show rc: "reg_clients r = dict_of (map (\<lambda>c. (client_id c, c)) cls)"
    and rk: "reg_calendars r = dict_of (map (\<lambda>c. (calendar_id c, c)) cals)"
    using assms by (auto simp: load_def Let_def split: if_splits option.splits)
  assume "reg_client r cid = Some cl"
  then have "cl \<in> snd ` set (reg_clients r)"
    by (force simp: reg_client_def dest: map_of_SomeD)
  then show "reg_calendar r (client_calendar cl) \<noteq> None"
    using assms unfolding reg_calendar_def rk rc
    by (auto simp: load_def Let_def find_None_iff split: if_splits option.splits)
qed

section \<open>Properties\<close>

text \<open>C13. Whatever the convention, \<open>roll\<close> leaves an open day alone, moves a closed one at most 30
  days and in the direction of the convention, skips no open day on the way, and lands on an open
  day unless all 30 days in that direction are closed.\<close>

theorem roll_nearest_open_day:
  "(is_business_day c d \<longrightarrow> roll c d conv = d)
   \<and> (\<not> is_business_day c d \<longrightarrow>
       (if conv = ''PRECEDING''
        then d - 30 \<le> roll c d conv \<and> roll c d conv < d
          \<and> (\<forall>x. roll c d conv < x \<and> x < d \<longrightarrow> \<not> is_business_day c x)
          \<and> ((\<exists>x. d - 30 \<le> x \<and> x < d \<and> is_business_day c x) \<longrightarrow> is_business_day c (roll c d conv))
        else d < roll c d conv \<and> roll c d conv \<le> d + 30
          \<and> (\<forall>x. d < x \<and> x < roll c d conv \<longrightarrow> \<not> is_business_day c x)
          \<and> ((\<exists>x. d < x \<and> x \<le> d + 30 \<and> is_business_day c x) \<longrightarrow> is_business_day c (roll c d conv))))"
  unfolding roll_def
  using cal.prev_range cal.nxt_range cal.prev_gap cal.nxt_gap cal.prev_found cal.nxt_found
  by auto

definition weekend_calendar :: calendar where
  "weekend_calendar = \<lparr>calendar_id = ''W'', weekend = [5, 6], holidays = []\<rparr>"

theorem roll_nearest_open_day_witness:
  "is_business_day weekend_calendar (roll weekend_calendar (ymd2ord 2026 10 31) ''PRECEDING'')
   \<and> roll weekend_calendar (ymd2ord 2026 10 31) ''PRECEDING'' < ymd2ord 2026 10 31"
proof -
  have closed: "\<not> is_business_day weekend_calendar (ymd2ord 2026 10 31)" by code_simp
  have "ymd2ord 2026 10 31 - 30 \<le> ymd2ord 2026 10 30 \<and> ymd2ord 2026 10 30 < ymd2ord 2026 10 31
    \<and> is_business_day weekend_calendar (ymd2ord 2026 10 30)" by code_simp
  then show ?thesis
    using roll_nearest_open_day [of weekend_calendar "ymd2ord 2026 10 31" "''PRECEDING''"] closed
    by auto
qed

text \<open>Adding \<open>n\<close> business days and then taking them away returns to the start, provided the
  start and the days stepped on are open.\<close>

lemma add_business_days_back:
  assumes "0 \<le> n"
    and "\<And>i. 0 \<le> i \<Longrightarrow> i < n \<Longrightarrow> is_business_day c (add_business_days c d i)"
  shows "add_business_days c (add_business_days c d n) (- n) = d"
proof (cases "n = 0")
  case False
  have add: "add_business_days c d (int m) = ((next_business_day c) ^^ m) d" for m
    by (simp add: add_business_days_def)
  obtain m where m: "n = int m" "0 < m" using assms(1) False by (cases n) auto
  have "((previous_business_day c) ^^ m) (((next_business_day c) ^^ m) d) = d"
    using assms(2) [of "int i" for i] m by (intro cal.prev_pow_nxt_pow) (simp add: add)
  then show ?thesis using m by (simp add: add add_business_days_def)
qed (simp add: add_business_days_def)

lemma add_business_days_back_witness:
  "add_business_days weekend_calendar (add_business_days weekend_calendar (ymd2ord 2026 10 30) 2) (- 2)
     = ymd2ord 2026 10 30"
proof (rule add_business_days_back)
  have days: "is_business_day weekend_calendar (add_business_days weekend_calendar (ymd2ord 2026 10 30) 0)"
    "is_business_day weekend_calendar (add_business_days weekend_calendar (ymd2ord 2026 10 30) 1)"
    by code_simp+
  fix i :: int
  assume "0 \<le> i" "i < 2"
  then have "i = 0 \<or> i = 1" by arith
  with days show "is_business_day weekend_calendar
      (add_business_days weekend_calendar (ymd2ord 2026 10 30) i)" by auto
qed simp

text \<open>A registry that loads gives every client a calendar, and every account it attributes to
  a client is one of that client's accounts.\<close>

lemma load_gives_calendars:
  assumes "load root cals cls = Inr r"
  shows "(\<forall>cl \<in> set (clients r). cl \<in> set cls \<and> calendar_for r (client_id cl) \<noteq> None)
    \<and> (\<forall>a cl x. account_owner r a = Some (cl, x) \<longrightarrow>
          reg_client r (client_id cl) = Some cl \<and> x \<in> set (accounts cl) \<and> acct_id x = a)
    \<and> (\<forall>a. account_owner r a = None \<longleftrightarrow> dict_get (all_account_ids r) a = None)"
proof -
  have own: "reg_client r (client_id cl) = Some cl \<and> cl \<in> set cls" if "cl \<in> set (clients r)" for cl
  proof -
    obtain k where k: "dict_get (reg_clients r) k = Some cl" using \<open>cl \<in> set (clients r)\<close>
      by (auto simp: clients_mem)
    then have "(k, cl) \<in> set (map (\<lambda>c. (client_id c, c)) cls)"
      using load_Inr(2) [OF assms] dict_of_get_Some by metis
    then show ?thesis using k by (auto simp: reg_client_def)
  qed
  then have "calendar_for r (client_id cl) \<noteq> None" if "cl \<in> set (clients r)" for cl
    using that load_Inr(4) [OF assms] by (auto simp: calendar_for_def)
  moreover have "account_owner r a = None \<longleftrightarrow> dict_get (all_account_ids r) a = None" for a
    by (force simp: account_owner_def owner_among_None all_account_ids_def map_of_eq_None_iff
        dict_of_keys [simplified])
  ultimately show ?thesis
    using own by (auto simp: account_owner_def dest!: owner_amongD)
qed

definition sample_client :: client where
  "sample_client = \<lparr>client_id = ''MERIDIAN'', client_name = [], client_calendar = ''W'',
     late_window_days = 2, accounts = [\<lparr>acct_id = ''A1'', acct_name = [], venues = []\<rparr>],
     filename_hints = [], expectations = [], field_overrides = []\<rparr>"

lemma load_gives_calendars_witness:
  "\<exists>r. load ''config'' [weekend_calendar] [sample_client] = Inr r
     \<and> (\<forall>cl \<in> set (clients r). calendar_for r (client_id cl) \<noteq> None)"
proof -
  obtain r where "load ''config'' [weekend_calendar] [sample_client] = Inr r"
    by (simp add: load_def dict_of_def weekend_calendar_def sample_client_def)
  with load_gives_calendars [OF this] show ?thesis by blast
qed

end
