(* ===== verification/ValueDate.thy ===== *)
theory ValueDate
  imports Registry ParsedTable PyRegex PyFloat
begin

text \<open>
  The business day a file's contents represent: \<open>python/src/inspector/valuedate.py\<close>. A row is
  the dictionary of its cells, dates are proleptic Gregorian ordinals, confidences are IEEE
  doubles given by their exact rational values.
\<close>

section \<open>Methods and confidences\<close>

datatype vd_method = CONTENT_EXPLICIT | CONTENT_INFERRED | FILENAME | ARRIVAL_MINUS_CALENDAR

primrec method_str :: "vd_method \<Rightarrow> string" where
  "method_str CONTENT_EXPLICIT = ''CONTENT_EXPLICIT''"
| "method_str CONTENT_INFERRED = ''CONTENT_INFERRED''"
| "method_str FILENAME = ''FILENAME''"
| "method_str ARRIVAL_MINUS_CALENDAR = ''ARRIVAL_MINUS_CALENDAR''"

text \<open>\<open>CONF_CONTENT_EXPLICIT\<close> and the three constants beside it, by method.\<close>

primrec base_conf :: "vd_method \<Rightarrow> rat" where
  "base_conf CONTENT_EXPLICIT = fl (97 / 100)"
| "base_conf CONTENT_INFERRED = fl (85 / 100)"
| "base_conf FILENAME = fl (70 / 100)"
| "base_conf ARRIVAL_MINUS_CALENDAR = fl (55 / 100)"

definition ROLL_PENALTY :: rat where
  "ROLL_PENALTY = fl (1 / 10)"

definition DATE_FORMATS :: "string list" where
  "DATE_FORMATS = [''%Y-%m-%d'', ''%Y/%m/%d'', ''%d/%m/%Y'', ''%m/%d/%Y'', ''%d-%b-%Y'', ''%d%b%Y'',
     ''%b %d, %Y'', ''%d %B %Y'', ''%Y%m%d'', ''%d.%m.%Y'']"

definition FILENAME_DATE :: re where
  "FILENAME_DATE = Alts
     [Grp ''iso'' (Seqs [Rep 4 4 (Chr is_digit), Lit (CHR ''-''), Rep 2 2 (Chr is_digit),
        Lit (CHR ''-''), Rep 2 2 (Chr is_digit)]),
      Grp ''compact'' (Seqs [NotBehind is_digit, Rep 8 8 (Chr is_digit), NotAhead is_digit]),
      Grp ''dmy'' (Seqs [Rep 2 2 (Chr is_digit),
        Rep 3 3 (Chr (\<lambda>c. CHR ''A'' \<le> c \<and> c \<le> CHR ''Z'' \<or> CHR ''a'' \<le> c \<and> c \<le> CHR ''z'')),
        Rep 4 4 (Chr is_digit)])]"

record resolution =
  resolved :: "date option"
  vd_method :: vd_method
  vd_confidence :: rat
  from_filename :: "date option"
  from_content :: "date list"
  from_arrival :: date
  mismatch_flagged :: bool
  vd_calendar_id :: string
  vd_notes :: string

definition resolved_iso :: "resolution \<Rightarrow> string" where
  "resolved_iso r = (case resolved r of Some d \<Rightarrow> isoformat d | None \<Rightarrow> '''')"

section \<open>Dates in cells and filenames\<close>

primrec first_format :: "string \<Rightarrow> string list \<Rightarrow> date option" where
  "first_format raw [] = None"
| "first_format raw (fmt # fmts) =
     (case strptime raw fmt of
        None \<Rightarrow> first_format raw fmts
      | Some (year, d) \<Rightarrow> if 1990 \<le> year \<and> year \<le> 2100 then Some d else first_format raw fmts)"

definition parse_date :: "string \<Rightarrow> date option" where
  "parse_date txt =
     (let raw = strip txt in
      if raw = [] then None
      else let raw = strip (before_first (\<lambda>c. c = CHR ''T'' \<or> c = CHR '' '') raw) in
        if raw = [] then None else first_format raw DATE_FORMATS)"

definition date_from_filename :: "string \<Rightarrow> date option" where
  "date_from_filename name =
     (case re_search FILENAME_DATE name of
        None \<Rightarrow> None
      | Some m \<Rightarrow>
          (case List.map_filter
                  (\<lambda>g. case map_of (m_groups m) g of Some t \<Rightarrow> if t = [] then None else Some t
                                                   | None \<Rightarrow> None)
                  [''iso'', ''compact'', ''dmy''] of
             [] \<Rightarrow> None
           | t # _ \<Rightarrow> parse_date t))"

section \<open>Date columns\<close>

definition norm :: "string \<Rightarrow> string" where
  "norm s = filter is_alnum (lower s)"

definition norm_headers :: "string list \<Rightarrow> (string, string) dict" where
  "norm_headers headers = dict_of (map (\<lambda>h. (norm h, h)) headers)"

text \<open>The first key of the list that names a header; an empty header does not count as a hit.\<close>

primrec first_hit :: "(string, string) dict \<Rightarrow> string list \<Rightarrow> string option" where
  "first_hit nh [] = None"
| "first_hit nh (k # ks) =
     (case dict_get nh k of Some h \<Rightarrow> if h \<noteq> [] then Some h else first_hit nh ks
                          | None \<Rightarrow> first_hit nh ks)"

definition VALUE_DATE_PATTERNS :: "string list" where
  "VALUE_DATE_PATTERNS = [''valuedate'', ''valdate'', ''settlementdate'', ''settledate'', ''settldate'',
     ''settlmntdate'', ''cashsettlementdate'', ''effectivedate'', ''posteddate'', ''postingdate'',
     ''valuedt'', ''settldt'']"

definition find_value_date_column :: "string list \<Rightarrow> string list \<Rightarrow> string option" where
  "find_value_date_column headers hints =
     (let normalized = norm_headers headers in
      case first_hit normalized (map norm hints) of
        Some h \<Rightarrow> Some h
      | None \<Rightarrow>
          (case first_hit normalized VALUE_DATE_PATTERNS of
             Some h \<Rightarrow> Some h
           | None \<Rightarrow>
               map_option snd (find (\<lambda>(n, _). contains ''settlementdate'' n \<or> contains ''valuedate'' n)
                                 normalized)))"

definition TRADE_DATE_PATTERNS :: "string list" where
  "TRADE_DATE_PATTERNS = [''tradedate'', ''trddate'', ''dealdate'', ''executiondate'',
     ''transactiondate'', ''businessdate'', ''activitydate'', ''bookingdate'', ''asofdate'']"

definition find_trade_date_column :: "string list \<Rightarrow> string option" where
  "find_trade_date_column headers = first_hit (norm_headers headers) TRADE_DATE_PATTERNS"

definition column_dates :: "row list \<Rightarrow> string option \<Rightarrow> date list" where
  "column_dates rows column =
     (case column of
        None \<Rightarrow> []
      | Some c \<Rightarrow> if c = [] then [] else List.map_filter (\<lambda>r. parse_date (cell r c)) rows)"

section \<open>Resolving\<close>

text \<open>\<open>_finish\<close>; \<open>candidates\<close> is never empty where the code calls it.\<close>

definition finish ::
    "date list \<Rightarrow> vd_method \<Rightarrow> date option \<Rightarrow> date \<Rightarrow> calendar \<Rightarrow> string \<Rightarrow> resolution" where
  "finish candidates method filename_date arrival_day calendar note =
     (let dates = sort (remdups candidates);
          winner0 = (case most_common candidates of Some d \<Rightarrow> d | None \<Rightarrow> 0);
          conf0 = base_conf method;
          share = fl (of_nat (count_list candidates winner0) / of_nat (length candidates));
          several = 1 < length dates;
          conf1 = (if several then fl (conf0 * fl (9 / 10)) else conf0);
          notes1 = (if several
            then [''contents span '' @ nat_str (length dates) @ '' value dates; '' @ isoformat winner0
                  @ '' covers '' @ percent0 share @ '' of rows'']
            else []);
          rolled = roll calendar winner0 ''PRECEDING'';
          moved = (rolled \<noteq> winner0);
          reason = (let h = holiday_name calendar winner0 in if h = [] then ''a weekend'' else h);
          conf2 = (if moved then fl (conf1 - ROLL_PENALTY) else conf1);
          notes2 = (if moved
            then [isoformat winner0 @ '' was not a business day ('' @ reason @ ''); rolled back to ''
                  @ isoformat rolled]
            else []);
          winner = rolled;
          mismatch = (filename_date \<noteq> None \<and> filename_date \<noteq> Some winner);
          notes3 = (case filename_date of
              Some f \<Rightarrow> if mismatch
                then [''filename says '' @ isoformat f @ '' but the contents resolve to ''
                      @ isoformat winner]
                else []
            | None \<Rightarrow> [])
      in \<lparr>resolved = Some winner, vd_method = method,
          vd_confidence = py_round 3 (max 0 (min conf2 1)),
          from_filename = filename_date, from_content = dates, from_arrival = arrival_day,
          mismatch_flagged = mismatch, vd_calendar_id = calendar_id calendar,
          vd_notes = join ''; '' ([note] @ notes1 @ notes2 @ notes3)\<rparr>)"

definition resolve ::
    "string list \<Rightarrow> row list \<Rightarrow> string \<Rightarrow> date \<Rightarrow> calendar \<Rightarrow> string list \<Rightarrow> int \<Rightarrow> resolution" where
  "resolve headers rows filename arrival_day calendar hints settlement_offset_days =
     (let filename_date = date_from_filename filename;
          explicit_col = find_value_date_column headers hints;
          explicit_dates = column_dates rows explicit_col;
          trade_col = find_trade_date_column headers;
          trade_dates = column_dates rows trade_col
      in if explicit_dates \<noteq> [] then
           finish explicit_dates CONTENT_EXPLICIT filename_date arrival_day calendar
             (''value date read from column '' @ repr (the explicit_col))
         else if trade_dates \<noteq> [] then
           finish (map (\<lambda>d. add_business_days calendar d settlement_offset_days) trade_dates)
             CONTENT_INFERRED filename_date arrival_day calendar
             (''no value-date column; inferred from '' @ repr (the trade_col) @ '' plus T+''
              @ int_str settlement_offset_days @ '' on this client's calendar'')
         else (case filename_date of
             Some f \<Rightarrow> finish [f] FILENAME (Some f) arrival_day calendar
               ''file contents carried no date; fell back to the filename''
           | None \<Rightarrow> finish [previous_business_day calendar arrival_day] ARRIVAL_MINUS_CALENDAR None
               arrival_day calendar ''no date found in the filename or the contents''))"

section \<open>Splitting\<close>

primrec group_rows :: "string \<Rightarrow> row list \<Rightarrow> (string, row list) dict \<Rightarrow> (string, row list) dict" where
  "group_rows column [] groups = groups"
| "group_rows column (r # rs) groups =
     (case parse_date (cell r column) of
        None \<Rightarrow> group_rows column rs groups
      | Some d \<Rightarrow>
          group_rows column rs
            (dict_set (isoformat d) (dict_get_or groups (isoformat d) [] @ [r]) groups))"

definition split_by_value_date ::
    "row list \<Rightarrow> string list \<Rightarrow> string list \<Rightarrow> (string, row list) dict" where
  "split_by_value_date rows headers hints =
     (case find_value_date_column headers hints of
        None \<Rightarrow> []
      | Some column \<Rightarrow>
          if column = [] then []
          else let groups = group_rows column rows [] in
            if 1 < length groups then groups else [])"

section \<open>Facts about the last step\<close>

lemma finish_sel [simp]:
  "vd_method (finish cs m f a cal n) = m"
  "from_filename (finish cs m f a cal n) = f"
  "from_content (finish cs m f a cal n) = sort (remdups cs)"
  "from_arrival (finish cs m f a cal n) = a"
  "vd_calendar_id (finish cs m f a cal n) = calendar_id cal"
  by (simp_all add: finish_def Let_def)

lemma finish_resolved:
  assumes "most_common cs = Some w"
  shows "resolved (finish cs m f a cal n) = Some (roll cal w ''PRECEDING'')"
  using assms by (simp add: finish_def Let_def)

lemma finish_resolved_const:
  "resolved (finish cs m f a cal n) = resolved (finish cs m' f' a' cal n')"
  by (simp add: finish_def Let_def)

lemma finish_mismatch:
  "mismatch_flagged (finish cs m f a cal n) \<longleftrightarrow> f \<noteq> None \<and> f \<noteq> resolved (finish cs m f a cal n)"
  by (simp add: finish_def Let_def)

lemma finish_confidence_bounds:
  "0 \<le> vd_confidence (finish cs m f a cal n) \<and> vd_confidence (finish cs m f a cal n) \<le> 1"
  by (simp add: finish_def Let_def py_round_nonneg py_round_le_one)

lemma column_dates_parse: "d \<in> set (column_dates rows col) \<Longrightarrow> \<exists>t. parse_date t = Some d"
  by (auto simp: column_dates_def map_filter_eq_concat split: option.splits if_splits)

text \<open>Every branch of \<open>resolve\<close> ends in \<open>finish\<close> with at least one candidate.\<close>

lemma resolve_finish:
  obtains cs m n where "cs \<noteq> []"
    and "resolve headers rows fn a cal hints k = finish cs m (date_from_filename fn) a cal n"
proof -
  let ?P = "\<lambda>r. \<exists>cs m n. cs \<noteq> [] \<and> r = finish cs m (date_from_filename fn) a cal n"
  have fin: "?P (finish cs m (date_from_filename fn) a cal n)" if "cs \<noteq> []" for cs m n
    using that by blast
  have "?P (resolve headers rows fn a cal hints k)"
  proof (cases "column_dates rows (find_value_date_column headers hints) \<noteq> []
      \<or> column_dates rows (find_trade_date_column headers) \<noteq> []")
    case True
    then show ?thesis by (auto simp: resolve_def Let_def simp del: append_Cons intro!: fin)
  next
    case False
    then show ?thesis
      using fin [of "[the (date_from_filename fn)]"] fin [of "[previous_business_day cal a]"]
      by (cases "date_from_filename fn") (simp_all add: resolve_def Let_def)
  qed
  then show ?thesis using that by blast
qed

lemma resolve_explicit:
  assumes "column_dates rows (find_value_date_column headers hints) \<noteq> []"
  shows "resolve headers rows fn a cal hints k =
     finish (column_dates rows (find_value_date_column headers hints)) CONTENT_EXPLICIT
       (date_from_filename fn) a cal
       (''value date read from column '' @ repr (the (find_value_date_column headers hints)))"
  using assms by (simp add: resolve_def Let_def)

section \<open>Facts about splitting\<close>

definition row_key :: "string \<Rightarrow> row \<Rightarrow> string option" where
  "row_key column r = map_option isoformat (parse_date (cell r column))"

lemma dict_get_or_set: "dict_get_or (dict_set k v d) k' w = (if k' = k then v else dict_get_or d k' w)"
  by (simp add: dict_get_or_def)

lemma group_rows_get:
  "dict_get_or (group_rows c rs g) k [] = dict_get_or g k [] @ filter (\<lambda>r. row_key c r = Some k) rs"
  by (induction rs arbitrary: g) (auto simp: row_key_def dict_get_or_set split: option.splits)

lemma group_rows_keys:
  "set (dict_keys (group_rows c rs g)) =
     set (dict_keys g) \<union> {k. \<exists>r \<in> set rs. row_key c r = Some k}"
  by (induction rs arbitrary: g) (auto simp: row_key_def split: option.splits)

lemma group_rows_distinct:
  "distinct (dict_keys g) \<Longrightarrow> distinct (dict_keys (group_rows c rs g))"
  by (induction rs arbitrary: g) (auto split: option.splits)

section \<open>Properties\<close>

text \<open>C6. Resolution always produces a date with a confidence between 0 and 1. The date is the
  client calendar's roll of one of the candidates, so it is a business day whenever the calendar
  is open on that candidate or on one of the 30 days before it.\<close>

theorem resolve_gives_business_day:
  "\<exists>w d. resolved (resolve headers rows fn arrival cal hints k) = Some d
     \<and> d = roll cal w ''PRECEDING''
     \<and> w - 30 \<le> d \<and> d \<le> w
     \<and> ((\<exists>x. w - 30 \<le> x \<and> x \<le> w \<and> is_business_day cal x) \<longrightarrow> is_business_day cal d)
     \<and> w \<in> set (from_content (resolve headers rows fn arrival cal hints k))
     \<and> 0 \<le> vd_confidence (resolve headers rows fn arrival cal hints k)
     \<and> vd_confidence (resolve headers rows fn arrival cal hints k) \<le> 1"
proof -
  obtain cs m n where cs: "cs \<noteq> []"
    and eq: "resolve headers rows fn arrival cal hints k = finish cs m (date_from_filename fn) arrival cal n"
    by (rule resolve_finish)
  obtain w where w: "most_common cs = Some w" using cs by (metis most_common_None not_None_eq)
  moreover have "w \<in> set cs" using most_common_Some(1) [OF w] .
  moreover have "w - 30 \<le> roll cal w ''PRECEDING'' \<and> roll cal w ''PRECEDING'' \<le> w"
    using cal.prev_range [where c = cal and d = w] by (simp add: roll_def)
  moreover have "is_business_day cal (roll cal w ''PRECEDING'')"
    if "w - 30 \<le> x" "x \<le> w" "is_business_day cal x" for x
    using that cal.prev_found [where c = cal and x = x and d = w] by (cases "x = w") (auto simp: roll_def)
  ultimately show ?thesis
    using finish_confidence_bounds by (auto simp: eq finish_resolved)
qed

theorem resolve_gives_business_day_witness:
  "\<exists>d. resolved (resolve [] [] ''x.csv'' (ymd2ord 2026 11 2) weekend_calendar [] 1) = Some d
     \<and> is_business_day weekend_calendar d"
proof -
  have open_day: "is_business_day weekend_calendar (ymd2ord 2026 10 30)" by code_simp
  have fc: "from_content (resolve [] [] ''x.csv'' (ymd2ord 2026 11 2) weekend_calendar [] 1)
      = [ymd2ord 2026 10 30]" by code_simp
  show ?thesis
    using resolve_gives_business_day [of "[]" "[]" "''x.csv''" "ymd2ord 2026 11 2" weekend_calendar "[]" 1]
      open_day unfolding fc by auto
qed

text \<open>C4. The filename never overrides the contents: once some cell of the value-date column holds a
  date, the resolved date is the roll of the dates' mode, whatever the file is called, and the
  method says that it was read from the contents.\<close>

theorem content_outranks_filename:
  assumes "column_dates rows (find_value_date_column headers hints) \<noteq> []"
  shows "vd_method (resolve headers rows fn a cal hints k) = CONTENT_EXPLICIT
    \<and> resolved (resolve headers rows fn a cal hints k) =
        map_option (\<lambda>w. roll cal w ''PRECEDING'')
          (most_common (column_dates rows (find_value_date_column headers hints)))
    \<and> from_content (resolve headers rows fn a cal hints k) =
        sort (remdups (column_dates rows (find_value_date_column headers hints)))"
proof -
  obtain w where "most_common (column_dates rows (find_value_date_column headers hints)) = Some w"
    using assms by (metis most_common_None not_None_eq)
  then show ?thesis using resolve_explicit [OF assms] finish_resolved by simp
qed

theorem content_outranks_filename_witness:
  "resolved (resolve [''Value Date''] [[(''Value Date'', ''2026-10-30'')]] ''MCP_TRD_20261102.csv''
      (ymd2ord 2026 11 2) weekend_calendar [] 1) = Some (ymd2ord 2026 10 30)"
proof -
  have cd: "column_dates [[(''Value Date'', ''2026-10-30'')]]
      (find_value_date_column [''Value Date''] []) = [ymd2ord 2026 10 30]" by code_simp
  then have "column_dates [[(''Value Date'', ''2026-10-30'')]]
      (find_value_date_column [''Value Date''] []) \<noteq> []" by simp
  then have "resolved (resolve [''Value Date''] [[(''Value Date'', ''2026-10-30'')]] ''MCP_TRD_20261102.csv''
      (ymd2ord 2026 11 2) weekend_calendar [] 1)
      = Some (roll weekend_calendar (ymd2ord 2026 10 30) ''PRECEDING'')"
    using content_outranks_filename by (simp add: cd most_common_def)
  moreover have "roll weekend_calendar (ymd2ord 2026 10 30) ''PRECEDING'' = ymd2ord 2026 10 30" by code_simp
  ultimately show ?thesis by simp
qed

text \<open>C5. A filename whose date differs from the resolved date is flagged, on every path through the
  resolution and only then.\<close>

theorem mismatch_always_flagged:
  "mismatch_flagged (resolve headers rows fn arrival cal hints k) =
     (date_from_filename fn \<noteq> None
      \<and> date_from_filename fn \<noteq> resolved (resolve headers rows fn arrival cal hints k))
   \<and> from_filename (resolve headers rows fn arrival cal hints k) = date_from_filename fn"
proof -
  obtain cs m n where
    eq: "resolve headers rows fn arrival cal hints k = finish cs m (date_from_filename fn) arrival cal n"
    by (rule resolve_finish)
  show ?thesis unfolding eq using finish_mismatch by simp
qed

text \<open>C10. Splitting a file partitions it: each sub-batch holds exactly the rows whose value-date cell
  parses to its date, in file order, and there are sub-batches only when the column carries at
  least two dates. A row whose cell does not parse is in none of them.\<close>

theorem split_partitions_rows:
  assumes "find_value_date_column headers hints = Some c" and "c \<noteq> []"
  shows "distinct (dict_keys (split_by_value_date rows headers hints))
    \<and> (split_by_value_date rows headers hints \<noteq> [] \<longleftrightarrow>
         (\<exists>r \<in> set rows. \<exists>q \<in> set rows. row_key c r \<noteq> None \<and> row_key c q \<noteq> None
            \<and> row_key c r \<noteq> row_key c q))
    \<and> (split_by_value_date rows headers hints \<noteq> [] \<longrightarrow>
         (\<forall>k. dict_get_or (split_by_value_date rows headers hints) k [] =
                filter (\<lambda>r. row_key c r = Some k) rows))"
proof -
  let ?g = "group_rows c rows []"
  have d: "distinct (dict_keys ?g)" by (simp add: group_rows_distinct)
  have keys: "set (dict_keys ?g) = {k. \<exists>r \<in> set rows. row_key c r = Some k}"
    unfolding group_rows_keys by simp
  have "1 < length ?g \<longleftrightarrow> (\<exists>x \<in> set (dict_keys ?g). \<exists>y \<in> set (dict_keys ?g). x \<noteq> y)"
  proof -
    have "1 < length (dict_keys ?g) \<longleftrightarrow> 1 < card (set (dict_keys ?g))"
      using d by (simp only: distinct_card)
    also have "\<dots> \<longleftrightarrow> (\<exists>x \<in> set (dict_keys ?g). \<exists>y \<in> set (dict_keys ?g). x \<noteq> y)"
      by (metis One_nat_def card_le_Suc0_iff_eq finite_set linorder_not_less)
    finally show ?thesis by simp
  qed
  also have "\<dots> \<longleftrightarrow> (\<exists>r \<in> set rows. \<exists>q \<in> set rows. row_key c r \<noteq> None \<and> row_key c q \<noteq> None
            \<and> row_key c r \<noteq> row_key c q)"
    unfolding keys by auto (metis option.inject)+
  finally have two: "1 < length ?g \<longleftrightarrow> (\<exists>r \<in> set rows. \<exists>q \<in> set rows. row_key c r \<noteq> None
      \<and> row_key c q \<noteq> None \<and> row_key c r \<noteq> row_key c q)" .
  have split: "split_by_value_date rows headers hints = (if 1 < length ?g then ?g else [])"
    using assms by (simp add: split_by_value_date_def Let_def)
  have "dict_get_or ?g k [] = filter (\<lambda>r. row_key c r = Some k) rows" for k
    using group_rows_get [of c rows "[]" k] by (simp add: dict_get_or_def)
  then show ?thesis unfolding split two [symmetric] using d by auto
qed

theorem split_partitions_rows_witness:
  "dict_get_or (split_by_value_date
       [[(''Value Date'', ''2026-10-29''), (''Qty'', ''1'')], [(''Value Date'', ''30/10/2026''), (''Qty'', ''2'')]]
       [''Value Date'', ''Qty''] []) ''2026-10-30'' []
     = [[(''Value Date'', ''30/10/2026''), (''Qty'', ''2'')]]"
proof -
  have col: "find_value_date_column [''Value Date'', ''Qty''] [] = Some ''Value Date''" by code_simp
  have keys: "row_key ''Value Date'' [(''Value Date'', ''2026-10-29''), (''Qty'', ''1'')] = Some ''2026-10-29''"
    "row_key ''Value Date'' [(''Value Date'', ''30/10/2026''), (''Qty'', ''2'')] = Some ''2026-10-30''"
    by code_simp+
  show ?thesis
    using split_partitions_rows [OF col, of "[[(''Value Date'', ''2026-10-29''), (''Qty'', ''1'')],
        [(''Value Date'', ''30/10/2026''), (''Qty'', ''2'')]]"]
    by (simp add: keys)
qed

end
