(* ===== verification/Tier3.thy ===== *)
theory Tier3
  imports ValueDate Tier1
begin

text \<open>
  The model seam and its cache: \<open>python/src/inspector/mapping/tier3.py\<close>. An adjudicator is a
  function of a world (its usage counters, the service behind it) and a request; it may raise.

  Two locales state the interfaces the resolver is written against. \<open>adjudicator\<close> is what an
  answer promises (requested columns only, mappable fields, none of them in use, none twice);
  \<open>DeterministicFake\<close> is interpreted here. \<open>template_cache\<close> is the cache's contract (a get returns
  the last put of its key and changes no entry); \<open>InMemoryCache\<close> and \<open>PostgresCache\<close>, the latter
  as the rows of its table, are interpreted here.
\<close>

section \<open>Requests and answers\<close>

record request =
  req_client_id :: string
  req_client_name :: string
  req_source_hint :: string
  req_domain :: string
  req_fingerprint :: string
  req_unresolved :: "string list"
  req_resolved :: "(string, string) dict"
  req_samples :: "(string, string list) dict"
  req_candidates :: "string list"

record adjudicated_field =
  af_source :: string
  af_canonical :: "string option"
  af_confidence :: rat
  af_rationale :: string

record adj_result =
  ar_fields :: "adjudicated_field list"
  ar_model :: string
  ar_input_tokens :: int
  ar_output_tokens :: int

definition as_map :: "adj_result \<Rightarrow> (string, adjudicated_field) dict" where
  "as_map r = dict_of (map (\<lambda>f. (af_source f, f)) (ar_fields r))"

definition answer :: "string \<Rightarrow> string option \<Rightarrow> rat \<Rightarrow> string \<Rightarrow> adjudicated_field" where
  "answer h f conf why =
     \<lparr>af_source = h, af_canonical = f, af_confidence = conf, af_rationale = why\<rparr>"

lemma answer_sel [simp]:
  "af_source (answer h f c w) = h" "af_canonical (answer h f c w) = f"
  "af_confidence (answer h f c w) = c"
  by (simp_all add: answer_def)

section \<open>DeterministicFake\<close>

definition RULES :: "(string list \<times> string) list" where
  "RULES =
    [([''settl'', ''close'', ''mtm'', ''mark'', ''official'', ''eod''], ''settlement_price''),
     ([''exec'', ''fill'', ''deal'', ''traded'', ''lastpx'', ''avgpx''], ''trade_price''),
     ([''qty'', ''quantity'', ''unit'', ''share'', ''contract'', ''nominal'', ''volume''], ''quantity''),
     ([''net'', ''proceed'', ''consider'', ''cash'', ''amount'', ''money''], ''net_amount''),
     ([''gross'', ''principal''], ''gross_amount''),
     ([''mkt'', ''market'', ''valuation'', ''fair''], ''market_value''),
     ([''ccy'', ''curr''], ''currency''),
     ([''acct'', ''account'', ''portfolio'', ''custody'', ''book''], ''account_id''),
     ([''isin'', ''cusip'', ''sedol'', ''symbol'', ''ticker'', ''instrument'', ''security''], ''instrument_id''),
     ([''side'', ''buysell'', ''direction'', ''longshort''], ''side''),
     ([''trddt'', ''tradedate'', ''dealdate'', ''execdate''], ''trade_date'')]"

definition str_isupper :: "string \<Rightarrow> bool" where
  "str_isupper v \<longleftrightarrow> list_ex is_upper v \<and> \<not> list_ex is_lower v"

definition looks_like_date :: "string \<Rightarrow> bool" where
  "looks_like_date v \<longleftrightarrow> parse_date v \<noteq> None"

definition from_samples :: "string list \<Rightarrow> string list \<Rightarrow> (string \<times> string) option" where
  "from_samples samples taken =
     (let values = filter (\<lambda>v. v \<noteq> []) (map strip samples) in
      if values = [] then None
      else if list_all (\<lambda>v. length v = 3 \<and> list_all is_alpha v \<and> str_isupper v) values
              \<and> ''currency'' \<notin> set taken
        then Some (''currency'', ''sample values are three-letter uppercase codes'')
      else if list_all looks_like_date values \<and> ''trade_date'' \<notin> set taken
        then Some (''trade_date'', ''sample values parse as dates'')
      else None)"

primrec first_rule :: "(string list \<times> string) list \<Rightarrow> string \<Rightarrow> string list \<Rightarrow> (string \<times> string) option" where
  "first_rule [] normalized taken = None"
| "first_rule (r # rs) normalized taken =
     (if snd r \<in> set taken then first_rule rs normalized taken
      else case find (\<lambda>t. contains t normalized) (fst r) of
          Some t \<Rightarrow> Some (snd r, ''header contains '' @ repr t)
        | None \<Rightarrow> first_rule rs normalized taken)"

primrec fake_loop ::
    "string list \<Rightarrow> (string, string list) dict \<Rightarrow> string list \<Rightarrow> adjudicated_field list" where
  "fake_loop [] samples taken = []"
| "fake_loop (h # hs) samples taken =
     (let decided = (case first_rule RULES (normalize_header h) taken of
            Some d \<Rightarrow> Some d
          | None \<Rightarrow> from_samples (dict_get_or samples h []) taken)
      in case decided of
           None \<Rightarrow> answer h None 0 ''no rule or sample evidence applied'' # fake_loop hs samples taken
         | Some (f, why) \<Rightarrow> answer h (Some f) (fl (80 / 100)) why # fake_loop hs samples (f # taken))"

definition fake_adjudicate :: "'w \<Rightarrow> request \<Rightarrow> (adj_result \<times> 'w) result" where
  "fake_adjudicate w req =
     Inr (\<lparr>ar_fields = fake_loop (req_unresolved req) (req_samples req) (map snd (req_resolved req)),
           ar_model = ''deterministic-fake'', ar_input_tokens = 0, ar_output_tokens = 0\<rparr>, w)"

section \<open>The adjudicator's contract\<close>

definition fields_of :: "adjudicated_field list \<Rightarrow> string list" where
  "fields_of fs = List.map_filter af_canonical fs"

lemma fields_of_simps [simp]:
  "fields_of [] = []"
  "fields_of (f # fs) = (case af_canonical f of None \<Rightarrow> fields_of fs | Some c \<Rightarrow> c # fields_of fs)"
  by (simp_all add: fields_of_def map_filter_eq_concat split: option.split)

lemma in_fields_of: "c \<in> set (fields_of fs) \<longleftrightarrow> (\<exists>f \<in> set fs. af_canonical f = Some c)"
  by (induction fs) (auto split: option.splits)

definition answered_fields :: "adj_result \<Rightarrow> string list" where
  "answered_fields r = fields_of (ar_fields r)"

locale adjudicator =
  fixes adjudicate :: "'w \<Rightarrow> request \<Rightarrow> (adj_result \<times> 'w) result"
  assumes answers_requested: "adjudicate w req = Inr (r, w') \<Longrightarrow> f \<in> set (ar_fields r) \<Longrightarrow>
      af_source f \<in> set (req_unresolved req)"
    and answers_all: "adjudicate w req = Inr (r, w') \<Longrightarrow>
      set (req_unresolved req) \<subseteq> af_source ` set (ar_fields r)"
    and answers_fresh: "adjudicate w req = Inr (r, w') \<Longrightarrow>
      set (answered_fields r) \<subseteq> set MAPPABLE_FIELDS - set (map snd (req_resolved req))"
    and answers_distinct: "adjudicate w req = Inr (r, w') \<Longrightarrow> distinct (answered_fields r)"
begin

lemma as_map_some:
  assumes "adjudicate w req = Inr (r, w')" and "h \<in> set (req_unresolved req)"
  shows "\<exists>f. dict_get (as_map r) h = Some f \<and> f \<in> set (ar_fields r) \<and> af_source f = h"
proof -
  have "h \<in> fst ` set (as_map r)"
    using answers_all [OF assms(1)] assms(2)
    by (force simp: as_map_def dict_of_keys [simplified])
  then obtain f where f: "dict_get (as_map r) h = Some f"
    by (metis map_of_eq_None_iff option.exhaust)
  then show ?thesis using dict_of_get_Some [of "map (\<lambda>f. (af_source f, f)) (ar_fields r)" h f]
    by (auto simp: as_map_def)
qed

lemma as_map_field:
  assumes "adjudicate w req = Inr (r, w')"
    and "dict_get (as_map r) h = Some f" and "af_canonical f = Some c"
  shows "c \<in> set MAPPABLE_FIELDS" and "c \<notin> set (map snd (req_resolved req))"
proof -
  have "f \<in> set (ar_fields r)"
    using dict_of_get_Some [of "map (\<lambda>f. (af_source f, f)) (ar_fields r)" h f] assms(2)
    by (auto simp: as_map_def)
  then have "c \<in> set (answered_fields r)"
    using assms(3) by (auto simp: answered_fields_def in_fields_of)
  then show "c \<in> set MAPPABLE_FIELDS" "c \<notin> set (map snd (req_resolved req))"
    using answers_fresh [OF assms(1)] by auto
qed

end

lemma first_rule_fresh:
  "first_rule rs n taken = Some (f, w) \<Longrightarrow> f \<in> snd ` set rs \<and> f \<notin> set taken"
  by (induction rs) (auto split: if_splits option.splits)

lemma rules_mappable: "snd ` set RULES \<subseteq> set MAPPABLE_FIELDS"
  "''currency'' \<in> set MAPPABLE_FIELDS" "''trade_date'' \<in> set MAPPABLE_FIELDS"
proof -
  have "list_all (\<lambda>r. snd r \<in> set MAPPABLE_FIELDS) RULES" by code_simp
  then show "snd ` set RULES \<subseteq> set MAPPABLE_FIELDS" by (auto simp: list_all_iff)
  show "''currency'' \<in> set MAPPABLE_FIELDS" "''trade_date'' \<in> set MAPPABLE_FIELDS" by code_simp+
qed

lemma from_samples_fresh:
  "from_samples ss taken = Some (f, w) \<Longrightarrow> f \<in> set MAPPABLE_FIELDS \<and> f \<notin> set taken"
  using rules_mappable(2,3) by (auto simp: from_samples_def Let_def split: if_splits)

lemma fake_loop_ok:
  "map af_source (fake_loop hs ss taken) = hs
   \<and> set (fields_of (fake_loop hs ss taken)) \<subseteq> set MAPPABLE_FIELDS - set taken
   \<and> distinct (fields_of (fake_loop hs ss taken))"
proof (induction hs arbitrary: taken)
  case (Cons h hs)
  let ?d = "case first_rule RULES (normalize_header h) taken of
      Some d \<Rightarrow> Some d | None \<Rightarrow> from_samples (dict_get_or ss h []) taken"
  show ?case
  proof (cases ?d)
    case None
    then have "fake_loop (h # hs) ss taken =
        answer h None 0 ''no rule or sample evidence applied'' # fake_loop hs ss taken"
      by (simp only: fake_loop.simps Let_def option.case)
    with Cons.IH [of taken] show ?thesis by simp
  next
    case (Some d)
    obtain f why where d: "d = (f, why)" by (cases d)
    have "f \<in> set MAPPABLE_FIELDS \<and> f \<notin> set taken"
      using Some rules_mappable(1) by (auto simp: d dest!: first_rule_fresh from_samples_fresh split: option.splits)
    moreover have "fake_loop (h # hs) ss taken =
        answer h (Some f) (fl (80 / 100)) why # fake_loop hs ss (f # taken)"
      using Some by (simp only: fake_loop.simps Let_def option.case d prod.case)
    ultimately show ?thesis using Cons.IH [of "f # taken"] by auto
  qed
qed simp

interpretation fake: adjudicator "fake_adjudicate :: 'w \<Rightarrow> request \<Rightarrow> (adj_result \<times> 'w) result"
proof
  fix w w' :: 'w and req r f
  assume "fake_adjudicate w req = Inr (r, w')"
  then have r: "ar_fields r = fake_loop (req_unresolved req) (req_samples req) (map snd (req_resolved req))"
    by (auto simp: fake_adjudicate_def)
  note ok = fake_loop_ok [of "req_unresolved req" "req_samples req" "map snd (req_resolved req)"]
  have src: "af_source ` set (ar_fields r) = set (req_unresolved req)"
    using ok by (metis r list.set_map)
  show "f \<in> set (ar_fields r) \<Longrightarrow> af_source f \<in> set (req_unresolved req)" using src by blast
  show "set (req_unresolved req) \<subseteq> af_source ` set (ar_fields r)" using src by simp
  show "set (answered_fields r) \<subseteq> set MAPPABLE_FIELDS - set (map snd (req_resolved req))"
    "distinct (answered_fields r)"
    using ok by (simp_all add: answered_fields_def r)
qed

section \<open>Caches\<close>

locale template_cache =
  fixes get :: "'c \<Rightarrow> string \<Rightarrow> string \<Rightarrow> (string, string) dict option \<times> 'c"
    and put :: "'c \<Rightarrow> string \<Rightarrow> string \<Rightarrow> (string, string) dict \<Rightarrow> string \<Rightarrow> string option \<Rightarrow> 'c"
    and view :: "'c \<Rightarrow> string \<Rightarrow> string \<Rightarrow> (string, string) dict option"
  assumes get_value: "fst (get c f k) = view c f k"
    and get_keeps: "view (snd (get c f k)) g l = view c g l"
    and put_view: "view (put c f k m t b) g l = (if g = f \<and> l = k then Some m else view c g l)"
begin

lemma get_put_same: "fst (get (put c f k m t b) f k) = Some m"
  by (simp add: get_value put_view)

lemma get_put_other: "(g, l) \<noteq> (f, k) \<Longrightarrow> fst (get (put c f k m t b) g l) = fst (get c g l)"
  by (auto simp: get_value put_view)

lemma get_stable: "fst (get (snd (get c f k)) g l) = fst (get c g l)"
  by (simp add: get_value get_keeps)

end

record memory_cache =
  mc_store :: "(string \<times> string, (string, string) dict) dict"
  mc_hits :: int
  mc_misses :: int

definition mem_get ::
    "memory_cache \<Rightarrow> string \<Rightarrow> string \<Rightarrow> (string, string) dict option \<times> memory_cache" where
  "mem_get c fingerprint client =
     (case dict_get (mc_store c) (fingerprint, client) of
        None \<Rightarrow> (None, c\<lparr>mc_misses := mc_misses c + 1\<rparr>)
      | Some v \<Rightarrow> (Some v, c\<lparr>mc_hits := mc_hits c + 1\<rparr>))"

definition mem_put ::
    "memory_cache \<Rightarrow> string \<Rightarrow> string \<Rightarrow> (string, string) dict \<Rightarrow> string \<Rightarrow> string option \<Rightarrow> memory_cache" where
  "mem_put c fingerprint client mappings tr confirmed_by =
     c\<lparr>mc_store := dict_set (fingerprint, client) mappings (mc_store c)\<rparr>"

text \<open>
  A row of \<open>template_mapping\<close>, whose primary key is the fingerprint and the client. The \<open>jsonb\<close>
  column gives back the dictionary that was stored.
\<close>

record template_row =
  tr_fingerprint :: string
  tr_client :: string
  tr_mappings :: "(string, string) dict"
  tr_tier :: string
  tr_confirmed_by :: "string option"

record postgres_cache =
  pg_rows :: "template_row list"
  pg_hits :: int
  pg_misses :: int

definition row_at :: "string \<Rightarrow> string \<Rightarrow> template_row \<Rightarrow> bool" where
  "row_at fingerprint client r \<longleftrightarrow> tr_fingerprint r = fingerprint \<and> tr_client r = client"

definition pg_get ::
    "postgres_cache \<Rightarrow> string \<Rightarrow> string \<Rightarrow> (string, string) dict option \<times> postgres_cache" where
  "pg_get c fingerprint client =
     (case find (row_at fingerprint client) (pg_rows c) of
        None \<Rightarrow> (None, c\<lparr>pg_misses := pg_misses c + 1\<rparr>)
      | Some r \<Rightarrow> (Some (tr_mappings r), c\<lparr>pg_hits := pg_hits c + 1\<rparr>))"

text \<open>\<open>INSERT ... ON CONFLICT DO UPDATE\<close>: the row of the key is updated in place, or added.\<close>

definition upsert :: "template_row \<Rightarrow> template_row list \<Rightarrow> template_row list" where
  "upsert new rs =
     (if list_ex (row_at (tr_fingerprint new) (tr_client new)) rs
      then map (\<lambda>r. if row_at (tr_fingerprint new) (tr_client new) r
                    then r\<lparr>tr_mappings := tr_mappings new, tr_tier := tr_tier new,
                           tr_confirmed_by := tr_confirmed_by new\<rparr>
                    else r) rs
      else rs @ [new])"

definition pg_put ::
    "postgres_cache \<Rightarrow> string \<Rightarrow> string \<Rightarrow> (string, string) dict \<Rightarrow> string \<Rightarrow> string option \<Rightarrow> postgres_cache" where
  "pg_put c fingerprint client mappings tr confirmed_by =
     c\<lparr>pg_rows := upsert \<lparr>tr_fingerprint = fingerprint, tr_client = client, tr_mappings = mappings,
                         tr_tier = tr, tr_confirmed_by = confirmed_by\<rparr> (pg_rows c)\<rparr>"

definition mem_view :: "memory_cache \<Rightarrow> string \<Rightarrow> string \<Rightarrow> (string, string) dict option" where
  "mem_view c f k = dict_get (mc_store c) (f, k)"

definition pg_view :: "postgres_cache \<Rightarrow> string \<Rightarrow> string \<Rightarrow> (string, string) dict option" where
  "pg_view c f k = map_option tr_mappings (find (row_at f k) (pg_rows c))"

interpretation mem: template_cache mem_get mem_put mem_view
  by unfold_locales (auto simp: mem_get_def mem_put_def mem_view_def split: option.splits)

lemma find_map_other:
  assumes "\<And>x. P (u x) = P x" and "\<And>x. P x \<Longrightarrow> u x = x"
  shows "find P (map u xs) = find P xs"
  using assms by (induction xs) auto

lemma upsert_find:
  "map_option tr_mappings (find (row_at g l) (upsert new rs)) =
     (if g = tr_fingerprint new \<and> l = tr_client new then Some (tr_mappings new)
      else map_option tr_mappings (find (row_at g l) rs))"
proof (cases "g = tr_fingerprint new \<and> l = tr_client new")
  case True
  have "map_option tr_mappings (find (row_at g l)
      (map (\<lambda>r. if row_at g l r then r\<lparr>tr_mappings := tr_mappings new, tr_tier := tr_tier new,
          tr_confirmed_by := tr_confirmed_by new\<rparr> else r) rs)) = Some (tr_mappings new)"
    if "list_ex (row_at g l) rs"
    using that by (induction rs) (auto simp: row_at_def)
  moreover have "map_option tr_mappings (find (row_at g l) (rs @ [new])) = Some (tr_mappings new)"
    if "\<not> list_ex (row_at g l) rs"
    using that True by (induction rs) (auto simp: row_at_def)
  ultimately show ?thesis using True by (simp add: upsert_def)
next
  case False
  have "find (row_at g l) (rs @ [new]) = find (row_at g l) rs"
    using False by (induction rs) (auto simp: row_at_def)
  moreover have "find (row_at g l) (map (\<lambda>r. if row_at (tr_fingerprint new) (tr_client new) r
      then r\<lparr>tr_mappings := tr_mappings new, tr_tier := tr_tier new,
             tr_confirmed_by := tr_confirmed_by new\<rparr> else r) rs) = find (row_at g l) rs"
    using False by (intro find_map_other) (auto simp: row_at_def)
  ultimately show ?thesis using False by (auto simp: upsert_def)
qed

interpretation pg: template_cache pg_get pg_put pg_view
  by unfold_locales
    (auto simp: pg_get_def pg_put_def pg_view_def upsert_find split: option.splits)

section \<open>Promotion\<close>

definition promotable_mappings :: "adj_result \<Rightarrow> rat \<Rightarrow> (string, string) dict" where
  "promotable_mappings r min_confidence = dict_of (List.map_filter
     (\<lambda>f. case af_canonical f of
        Some c \<Rightarrow> if c \<noteq> [] \<and> min_confidence \<le> af_confidence f then Some (af_source f, c) else None
      | None \<Rightarrow> None) (ar_fields r))"

section \<open>Properties\<close>

text \<open>The deterministic adjudicator answers every column it is asked about and no other, with
  mappable fields that are not in use, and gives no field twice.\<close>

lemma fake_answers_sound:
  "\<exists>r. fake_adjudicate w req = Inr (r, w)
     \<and> map af_source (ar_fields r) = req_unresolved req
     \<and> set (answered_fields r) \<subseteq> set MAPPABLE_FIELDS - set (map snd (req_resolved req))
     \<and> distinct (answered_fields r)"
  using fake.answers_fresh [of w req] fake.answers_distinct [of w req] fake_loop_ok
  by (auto simp: fake_adjudicate_def)

text \<open>C14. The durable cache is a map: a read returns what was last written for that template and
  client, reads and writes of other templates and clients do not disturb it, and reading does not
  change what is stored.\<close>

theorem postgres_cache_last_write:
  "fst (pg_get (pg_put c f k m t b) f k) = Some m
   \<and> ((g, l) = (f, k) \<or> fst (pg_get (pg_put c f k m t b) g l) = fst (pg_get c g l))
   \<and> fst (pg_get (snd (pg_get c f k)) g l) = fst (pg_get c g l)"
  using pg.get_put_same pg.get_put_other pg.get_stable by blast

end
