(* ===== verification/Resolver.thy ===== *)
theory Resolver
  imports Tier2 Tier3
begin

text \<open>
  The escalation ladder: \<open>python/src/inspector/mapping/resolver.py\<close>. The code mutates the mapping
  objects of one list; here a stage walks the list, the processed front beside the rest, so that
  the fields in use are read off the whole list as it stands. The cache's \<open>get\<close> and \<open>put\<close> and the
  adjudicator are arguments, as they are attributes of the code's resolver; the locale \<open>ladder\<close>
  joins their contracts, and is interpreted with each cache.
\<close>

definition SAMPLE_ROWS :: nat where
  "SAMPLE_ROWS = 5"

record outcome =
  o_mappings :: "mapping list"
  o_tier2_used :: nat
  o_tier3_used :: nat
  o_cache_hit :: bool
  o_degraded :: bool
  o_promotable :: "(string, string) dict option"

section \<open>Helpers\<close>

definition has_field :: "mapping \<Rightarrow> bool" where
  "has_field m \<longleftrightarrow> canonical_field m \<noteq> None"

definition unresolved_of :: "mapping list \<Rightarrow> mapping list" where
  "unresolved_of ms = filter (\<lambda>m. \<not> has_field m) ms"

text \<open>\<open>_claimed\<close>: the fields in use, the empty text not counted.\<close>

definition claimed :: "mapping list \<Rightarrow> string list" where
  "claimed ms = filter (\<lambda>f. f \<noteq> []) (resolved_fields ms)"

definition resolve_to :: "mapping \<Rightarrow> string \<Rightarrow> tier \<Rightarrow> rat \<Rightarrow> string \<Rightarrow> mapping" where
  "resolve_to m f tr conf why =
     m\<lparr>canonical_field := Some f, m_tier := tr, m_confidence := conf, m_evidence := why\<rparr>"

definition note_evidence :: "mapping \<Rightarrow> string \<Rightarrow> mapping" where
  "note_evidence m why = m\<lparr>m_evidence := m_evidence m @ why\<rparr>"

section \<open>The stages\<close>

primrec apply_learned ::
    "(string, string) dict \<Rightarrow> tier \<Rightarrow> rat \<Rightarrow> string \<Rightarrow> mapping list \<Rightarrow> string list \<Rightarrow> mapping list" where
  "apply_learned learned tr conf why [] taken = []"
| "apply_learned learned tr conf why (m # ms) taken =
     (if has_field m then m # apply_learned learned tr conf why ms taken
      else let candidate = dict_get_or learned (source_field m) [] in
        if candidate \<noteq> [] \<and> candidate \<notin> set taken
        then resolve_to m candidate tr conf why # apply_learned learned tr conf why ms (candidate # taken)
        else m # apply_learned learned tr conf why ms taken)"

text \<open>A stage gives every unresolved mapping its turn, with the state \<open>'s\<close> of what it consults.\<close>

type_synonym 's turn = "mapping \<Rightarrow> string list \<Rightarrow> 's \<Rightarrow> mapping \<times> 's"

primrec stage :: "'s turn \<Rightarrow> mapping list \<Rightarrow> mapping list \<Rightarrow> 's \<Rightarrow> mapping list \<times> 's" where
  "stage turn done [] s = (done, s)"
| "stage turn done (m # ms) s =
     (if has_field m then stage turn (done @ [m]) ms s
      else let (m', s') = turn m (claimed (done @ m # ms)) s in stage turn (done @ [m']) ms s')"

definition tier2_turn :: "extractor \<Rightarrow> 'v emb_model \<Rightarrow> ('v emb_state \<times> nat) turn" where
  "tier2_turn extract em m taken = (\<lambda>(st, used).
     let (lm, st') = match_header extract em (source_field m) taken st in
     case lm_field lm of
       None \<Rightarrow> (note_evidence m (''; tier2: '' @ lm_evidence lm), (st', used))
     | Some f \<Rightarrow> (resolve_to m f LOCAL (lm_confidence lm) (lm_evidence lm), (st', used + 1)))"

definition tier3_turn :: "adj_result \<Rightarrow> nat turn" where
  "tier3_turn r m taken used =
     (case dict_get (as_map r) (source_field m) of
        None \<Rightarrow> (note_evidence m ''; tier3 declined'', used)
      | Some a \<Rightarrow>
          (case af_canonical a of
             None \<Rightarrow> (note_evidence m ''; tier3 declined'', used)
           | Some f \<Rightarrow>
               if f \<in> set taken then
                 (note_evidence m (''; tier3 proposed '' @ f @ '' but it was already assigned''), used)
               else (resolve_to m f LLM (af_confidence a) (ar_model r @ '': '' @ af_rationale a), used + 1)))"

definition learned_from :: "mapping list \<Rightarrow> (string, string) dict" where
  "learned_from ms = dict_of (List.map_filter
     (\<lambda>m. case canonical_field m of
        Some f \<Rightarrow> if m_tier m = LLM \<and> f \<noteq> [] then Some (source_field m, f) else None
      | None \<Rightarrow> None) ms)"

record job =
  j_client_id :: string
  j_client_name :: string
  j_source_hint :: string
  j_domain :: string
  j_fingerprint :: string

definition make_request :: "job \<Rightarrow> parsed_table \<Rightarrow> mapping list \<Rightarrow> request" where
  "make_request j t ms =
     (let hs = map source_field (unresolved_of ms) in
      \<lparr>req_client_id = j_client_id j, req_client_name = j_client_name j,
       req_source_hint = j_source_hint j, req_domain = j_domain j, req_fingerprint = j_fingerprint j,
       req_unresolved = hs,
       req_resolved = dict_of (List.map_filter
         (\<lambda>m. map_option (Pair (source_field m)) (canonical_field m)) ms),
       req_samples = dict_of (map (\<lambda>h. (h, take SAMPLE_ROWS (t_column t h))) hs),
       req_candidates = sort MAPPABLE_FIELDS\<rparr>)"

section \<open>The resolver\<close>

type_synonym 'c cache_get = "'c \<Rightarrow> string \<Rightarrow> string \<Rightarrow> (string, string) dict option \<times> 'c"
type_synonym 'c cache_put =
  "'c \<Rightarrow> string \<Rightarrow> string \<Rightarrow> (string, string) dict \<Rightarrow> string \<Rightarrow> string option \<Rightarrow> 'c"
type_synonym 'w adjudicate = "'w \<Rightarrow> request \<Rightarrow> (adj_result \<times> 'w) result"

text \<open>The first stage: what the cache has learned about this template.\<close>

definition cache_stage :: "'c cache_get \<Rightarrow> job \<Rightarrow> mapping list \<Rightarrow> 'c \<Rightarrow> mapping list \<times> bool \<times> 'c" where
  "cache_stage cget j ms c =
     (let (cached, c') = (if j_fingerprint j \<noteq> [] \<and> j_client_id j \<noteq> []
                          then cget c (j_fingerprint j) (j_client_id j) else (None, c)) in
      case cached of
        None \<Rightarrow> (ms, False, c')
      | Some learned \<Rightarrow>
          if learned = [] then (ms, False, c')
          else (apply_learned learned LLM (fl (80 / 100)) ''cached adjudication for this template'' ms
                  (claimed ms), True, c'))"

definition tier3_stage ::
    "'c cache_put \<Rightarrow> 'w adjudicate \<Rightarrow> job \<Rightarrow> parsed_table \<Rightarrow> mapping list \<Rightarrow> 'c \<Rightarrow> 'w
     \<Rightarrow> (mapping list \<times> nat \<times> (string, string) dict option \<times> 'c \<times> 'w) result" where
  "tier3_stage cput adjudicate j t ms c w =
     res_bind (adjudicate w (make_request j t ms)) (\<lambda>(r, w').
       let (ms', used) = stage (tier3_turn r) [] ms 0;
           learned = learned_from ms'
       in if 0 < used \<and> j_fingerprint j \<noteq> [] \<and> j_client_id j \<noteq> []
          then Inr (ms', used, Some learned,
                    cput c (j_fingerprint j) (j_client_id j) learned ''LLM'' None, w')
          else Inr (ms', used, None, c, w'))"

definition resolve_table ::
    "'c cache_get \<Rightarrow> 'c cache_put \<Rightarrow> 'w adjudicate option \<Rightarrow> extractor \<Rightarrow> 'v emb_model
     \<Rightarrow> (string, string) dict \<Rightarrow> job \<Rightarrow> parsed_table \<Rightarrow> 'v emb_state \<times> 'c \<times> 'w
     \<Rightarrow> (outcome \<times> 'v emb_state \<times> 'c \<times> 'w) result" where
  "resolve_table cget cput adj_opt extract em overrides j t = (\<lambda>(st, c, w).
     res_bind (map_table overrides t) (\<lambda>ms0.
       let (ms1, hit, c1) = cache_stage cget j ms0 c;
           (ms2, st1, used2) = stage (tier2_turn extract em) [] ms1 (st, 0);
           st2 = emb_touch em st1
       in res_bind
            (if unresolved_of ms2 \<noteq> [] \<and> \<not> hit then
               (case adj_opt of
                  None \<Rightarrow> Inr (ms2, 0, None, c1, w)
                | Some adj \<Rightarrow> tier3_stage cput adj j t ms2 c1 w)
             else Inr (ms2, 0, None, c1, w))
            (\<lambda>(ms3, used3, learned, c2, w').
               Inr (\<lparr>o_mappings = ms3, o_tier2_used = used2, o_tier3_used = used3, o_cache_hit = hit,
                     o_degraded = (\<not> emb_available st2), o_promotable = learned\<rparr>,
                    st2, c2, w'))))"

section \<open>What every stage keeps\<close>

text \<open>Columns stay in place and a resolved column is never touched again.\<close>

definition refines :: "mapping \<Rightarrow> mapping \<Rightarrow> bool" where
  "refines m m' \<longleftrightarrow> source_field m' = source_field m \<and> (has_field m \<longrightarrow> m' = m)"

definition extends :: "mapping list \<Rightarrow> mapping list \<Rightarrow> bool" where
  "extends ms ms' \<longleftrightarrow> list_all2 refines ms ms'"

lemma refines_refl [simp]: "refines m m"
  by (simp add: refines_def)

lemma refines_trans: "refines a b \<Longrightarrow> refines b c \<Longrightarrow> refines a c"
  by (auto simp: refines_def)

lemma extends_refl [simp]: "extends ms ms"
  by (simp add: extends_def list.rel_refl)

lemma extends_trans: "extends a b \<Longrightarrow> extends b c \<Longrightarrow> extends a c"
  unfolding extends_def by (rule list_all2_trans [of refines refines refines]) (auto intro: refines_trans)

lemma extends_sources: "extends ms ms' \<Longrightarrow> map source_field ms' = map source_field ms"
  unfolding extends_def by (induction rule: list_all2_induct) (simp_all add: refines_def)

lemma resolve_to_sel [simp]:
  "source_field (resolve_to m f r c w) = source_field m" "canonical_field (resolve_to m f r c w) = Some f"
  "m_tier (resolve_to m f r c w) = r" "m_confidence (resolve_to m f r c w) = c"
  by (simp_all add: resolve_to_def)

lemma note_evidence_sel [simp]:
  "source_field (note_evidence m w) = source_field m"
  "canonical_field (note_evidence m w) = canonical_field m" "m_tier (note_evidence m w) = m_tier m"
  by (simp_all add: note_evidence_def)

text \<open>The fields in use, none of them twice and all of them mappable.\<close>

definition fields_ok :: "mapping list \<Rightarrow> bool" where
  "fields_ok ms \<longleftrightarrow> distinct (resolved_fields ms) \<and> set (resolved_fields ms) \<subseteq> set MAPPABLE_FIELDS"

lemma mappable_nonempty: "f \<in> set MAPPABLE_FIELDS \<Longrightarrow> f \<noteq> []"
  by (auto simp: MAPPABLE_FIELDS_def)

lemma claimed_fields_ok: "fields_ok ms \<Longrightarrow> claimed ms = resolved_fields ms"
  by (auto simp: fields_ok_def claimed_def filter_id_conv dest: mappable_nonempty)

text \<open>A turn is fair, from states that satisfy \<open>ok\<close>, when it keeps \<open>ok\<close> and takes only a free
  mappable field.\<close>

definition fair_turn :: "('s \<Rightarrow> bool) \<Rightarrow> 's turn \<Rightarrow> bool" where
  "fair_turn ok turn \<longleftrightarrow> (\<forall>m taken s m' s'. ok s \<longrightarrow> \<not> has_field m \<longrightarrow> turn m taken s = (m', s') \<longrightarrow>
     ok s' \<and> (canonical_field m' = None \<or> the (canonical_field m') \<in> set MAPPABLE_FIELDS - set taken))"

lemma stage_extends:
  assumes "\<And>m taken s. \<not> has_field m \<Longrightarrow> source_field (fst (turn m taken s)) = source_field m"
    and "stage turn done ms s = (ms', s')"
  shows "\<exists>rest. ms' = done @ rest \<and> extends ms rest"
  using assms(2)
proof (induction ms arbitrary: "done" s)
  case (Cons m ms)
  show ?case
  proof (cases "has_field m")
    case True
    with Cons obtain rest where "ms' = (done @ [m]) @ rest" "extends ms rest" by fastforce
    then show ?thesis by (intro exI [of _ "m # rest"]) (simp add: extends_def)
  next
    case False
    obtain m' s1 where t: "turn m (claimed (done @ m # ms)) s = (m', s1)" by fastforce
    with Cons False obtain rest where "ms' = (done @ [m']) @ rest" "extends ms rest" by fastforce
    moreover have "refines m m'" using assms(1) [OF False] t False by (metis fst_conv refines_def)
    ultimately show ?thesis by (intro exI [of _ "m' # rest"]) (simp add: extends_def)
  qed
qed simp

lemma stage_fields_ok:
  assumes "fair_turn ok turn" and "fields_ok (done @ ms)" and "ok s"
    and "stage turn done ms s = (ms', s')"
  shows "fields_ok ms' \<and> ok s'"
  using assms(2-4)
proof (induction ms arbitrary: "done" s)
  case (Cons m ms)
  show ?case
  proof (cases "has_field m")
    case True
    with Cons.IH [of "done @ [m]" s] Cons.prems show ?thesis by simp
  next
    case False
    obtain m' s1 where t: "turn m (claimed (done @ m # ms)) s = (m', s1)" by fastforce
    have none: "canonical_field m = None" using False by (simp add: has_field_def)
    have fair: "ok s1 \<and> (canonical_field m' = None
        \<or> the (canonical_field m') \<in> set MAPPABLE_FIELDS - set (resolved_fields (done @ m # ms)))"
      using assms(1) False t Cons.prems(2) claimed_fields_ok [OF Cons.prems(1)]
      unfolding fair_turn_def by metis
    then have "fields_ok ((done @ [m']) @ ms)"
      using Cons.prems(1) none by (auto simp: fields_ok_def split: option.splits)
    with Cons.IH [of "done @ [m']" s1] Cons.prems False t fair show ?thesis by simp
  qed
qed simp

lemma apply_learned_extends: "extends ms (apply_learned l tr c w ms taken)"
  by (induction ms arbitrary: taken)
    (auto simp: extends_def Let_def refines_def has_field_def)

lemma apply_learned_ok:
  assumes "snd ` set l \<subseteq> set MAPPABLE_FIELDS" and "fields_ok (done @ ms)"
    and "set taken = set (resolved_fields (done @ ms))"
  shows "fields_ok (done @ apply_learned l tr cf w ms taken)"
  using assms(2,3)
proof (induction ms arbitrary: "done" taken)
  case (Cons m ms)
  let ?f = "dict_get_or l (source_field m) []"
  show ?case
  proof (cases "has_field m \<or> ?f = [] \<or> ?f \<in> set taken")
    case True
    then have "apply_learned l tr cf w (m # ms) taken = m # apply_learned l tr cf w ms taken"
      by (auto simp: Let_def)
    with Cons.IH [of "done @ [m]" taken] Cons.prems show ?thesis by simp
  next
    case False
    then have none: "canonical_field m = None" by (simp add: has_field_def)
    have "?f \<in> snd ` set l" using False by (force simp: dict_get_or_def split: option.splits dest: map_of_SomeD)
    then have "?f \<in> set MAPPABLE_FIELDS" using assms(1) by blast
    then have "fields_ok ((done @ [resolve_to m ?f tr cf w]) @ ms)"
      using Cons.prems none False by (auto simp: fields_ok_def)
    moreover have "set (?f # taken) = set (resolved_fields ((done @ [resolve_to m ?f tr cf w]) @ ms))"
      using Cons.prems(2) none by auto
    moreover have "apply_learned l tr cf w (m # ms) taken =
        resolve_to m ?f tr cf w # apply_learned l tr cf w ms (?f # taken)"
      using False by (simp add: Let_def)
    ultimately show ?thesis using Cons.IH [of "done @ [resolve_to m ?f tr cf w]" "?f # taken"] by simp
  qed
qed simp

lemma tier2_turn_source: "source_field (fst (tier2_turn ex em m taken s)) = source_field m"
  by (auto simp: tier2_turn_def split: prod.splits option.splits)

lemma tier3_turn_source: "source_field (fst (tier3_turn r m taken s)) = source_field m"
  by (auto simp: tier3_turn_def split: option.splits)

text \<open>Tier 2 is fair while the vectors are those of the mappable fields.\<close>

definition tier2_ok :: "'v emb_state \<times> nat \<Rightarrow> bool" where
  "tier2_ok s \<longleftrightarrow> emb_ok (fst s)"

lemma tier2_turn_fair:
  assumes "extractor_ok ex" and "tier2_ok s" and "tier2_turn ex em m taken s = (m', s')" and "\<not> has_field m"
  shows "tier2_ok s' \<and> (canonical_field m' = None \<or> the (canonical_field m') \<in> set MAPPABLE_FIELDS - set taken)"
proof -
  obtain st n where s: "s = (st, n)" by (cases s)
  obtain lm st' where m: "match_header ex em (source_field m) taken st = (lm, st')" by fastforce
  have e: "emb_ok st'" using match_header_emb_ok [OF m] assms(2) by (simp add: tier2_ok_def s)
  show ?thesis
  proof (cases "lm_field lm")
    case None
    with assms(3,4) m e show ?thesis by (auto simp: tier2_turn_def s tier2_ok_def has_field_def)
  next
    case (Some f)
    have "f \<in> set MAPPABLE_FIELDS - set taken"
      using match_header_field [OF m assms(1) _ Some] assms(2) by (simp add: tier2_ok_def s)
    with assms(3) m e Some show ?thesis by (auto simp: tier2_turn_def s tier2_ok_def)
  qed
qed

lemma tier2_fair: "extractor_ok ex \<Longrightarrow> fair_turn tier2_ok (tier2_turn ex em)"
  unfolding fair_turn_def using tier2_turn_fair by blast

text \<open>Tier 3 is fair when the answers are mappable.\<close>

definition answers_ok :: "adj_result \<Rightarrow> bool" where
  "answers_ok r \<longleftrightarrow> (\<forall>h a f. dict_get (as_map r) h = Some a \<longrightarrow> af_canonical a = Some f \<longrightarrow> f \<in> set MAPPABLE_FIELDS)"

lemma tier3_fair: "answers_ok r \<Longrightarrow> fair_turn (\<lambda>_. True) (tier3_turn r)"
  by (auto simp: fair_turn_def tier3_turn_def answers_ok_def has_field_def split: option.splits if_splits)

lemma tier3_used:
  assumes "answers_ok r" and "stage (tier3_turn r) done ms n = (ms', n')" and "n < n'"
  shows "\<exists>m \<in> set ms'. m_tier m = LLM \<and> (\<exists>f. canonical_field m = Some f \<and> f \<in> set MAPPABLE_FIELDS)"
  using assms(2,3)
proof (induction ms arbitrary: "done" n)
  case (Cons m ms)
  show ?case
  proof (cases "has_field m")
    case True
    with Cons.IH [of "done @ [m]" n] Cons.prems show ?thesis by simp
  next
    case False
    obtain m' n1 where t: "tier3_turn r m (claimed (done @ m # ms)) n = (m', n1)" by fastforce
    with Cons.prems False have rest: "stage (tier3_turn r) (done @ [m']) ms n1 = (ms', n')" by simp
    show ?thesis
    proof (cases "n1 < n'")
      case True
      with Cons.IH [OF rest] show ?thesis .
    next
      case False
      with Cons.prems(2) have "n1 \<noteq> n" by simp
      then have "m_tier m' = LLM \<and> (\<exists>f. canonical_field m' = Some f \<and> f \<in> set MAPPABLE_FIELDS)"
        using t assms(1) by (auto simp: tier3_turn_def answers_ok_def split: option.splits if_splits)
      moreover obtain rest' where "ms' = (done @ [m']) @ rest'"
        using stage_extends [OF _ rest] tier3_turn_source by blast
      ultimately show ?thesis by auto
    qed
  qed
qed simp

definition learned_pairs :: "mapping list \<Rightarrow> (string \<times> string) list" where
  "learned_pairs ms = List.map_filter
     (\<lambda>m. case canonical_field m of
        Some f \<Rightarrow> if m_tier m = LLM \<and> f \<noteq> [] then Some (source_field m, f) else None
      | None \<Rightarrow> None) ms"

lemma learned_from_pairs: "learned_from ms = dict_of (learned_pairs ms)"
  by (simp add: learned_from_def learned_pairs_def)

lemma in_learned_pairs:
  "(h, f) \<in> set (learned_pairs ms) \<longleftrightarrow>
     (\<exists>m \<in> set ms. source_field m = h \<and> canonical_field m = Some f \<and> m_tier m = LLM \<and> f \<noteq> [])"
  unfolding learned_pairs_def by (induction ms) (auto simp: List.map_filter_simps split: option.splits)

lemma dict_of_values: "snd ` set (dict_of ps) \<subseteq> snd ` set ps"
proof
  fix v
  assume "v \<in> snd ` set (dict_of ps)"
  then obtain k where "(k, v) \<in> set (dict_of ps)" by auto
  then have "dict_get (dict_of ps) k = Some v" by (simp add: map_of_is_SomeI)
  then have "(k, v) \<in> set ps" by (rule dict_of_get_Some)
  then show "v \<in> snd ` set ps" by (rule image_eqI [rotated]) simp
qed

lemma learned_values:
  assumes "fields_ok ms"
  shows "snd ` set (learned_from ms) \<subseteq> set MAPPABLE_FIELDS"
proof -
  have "snd ` set (learned_pairs ms) \<subseteq> set MAPPABLE_FIELDS"
  proof
    fix f
    assume "f \<in> snd ` set (learned_pairs ms)"
    then obtain h where "(h, f) \<in> set (learned_pairs ms)" by auto
    then have "f \<in> set (resolved_fields ms)" by (auto simp: in_learned_pairs in_resolved_fields)
    then show "f \<in> set MAPPABLE_FIELDS" using assms by (auto simp: fields_ok_def)
  qed
  with dict_of_values [of "learned_pairs ms"] show ?thesis
    unfolding learned_from_pairs by (rule subset_trans)
qed

lemma learned_nonempty:
  assumes "m \<in> set ms" "m_tier m = LLM" "canonical_field m = Some f" "f \<in> set MAPPABLE_FIELDS"
  shows "learned_from ms \<noteq> []"
proof -
  have "(source_field m, f) \<in> set (learned_pairs ms)"
    using assms mappable_nonempty by (auto simp: in_learned_pairs)
  then have "source_field m \<in> fst ` set (learned_from ms)"
    unfolding learned_from_pairs by (force simp: dict_of_keys [simplified])
  then show ?thesis by auto
qed

section \<open>The whole ladder\<close>

text \<open>The parts a run of \<open>resolve_table\<close> goes through.\<close>

lemma resolve_table_parts:
  assumes "resolve_table cget cput adj_opt ex em ov j t (st, c, w) = Inr (oc, st', c', w')"
  obtains ms0 ms1 ms2 st1 c1 where
    "map_table ov t = Inr ms0"
    "cache_stage cget j ms0 c = (ms1, o_cache_hit oc, c1)"
    "stage (tier2_turn ex em) [] ms1 (st, 0) = (ms2, st1, o_tier2_used oc)"
    "(o_mappings oc = ms2 \<and> o_tier3_used oc = 0 \<and> o_promotable oc = None \<and> c' = c1 \<and> w' = w)
     \<or> (\<not> o_cache_hit oc \<and> unresolved_of ms2 \<noteq> [] \<and> (\<exists>adj. adj_opt = Some adj \<and>
          tier3_stage cput adj j t ms2 c1 w = Inr (o_mappings oc, o_tier3_used oc, o_promotable oc, c', w')))"
proof -
  obtain ms0 where m0: "map_table ov t = Inr ms0"
    using assms by (auto simp: resolve_table_def res_bind_Inr_iff)
  obtain ms1 hit c1 where m1: "cache_stage cget j ms0 c = (ms1, hit, c1)"
    by (cases "cache_stage cget j ms0 c")
  obtain ms2 st1 u2 where m2: "stage (tier2_turn ex em) [] ms1 (st, 0) = (ms2, st1, u2)"
    by (cases "stage (tier2_turn ex em) [] ms1 (st, 0)")
  from assms have
    "(if unresolved_of ms2 \<noteq> [] \<and> \<not> hit then
        (case adj_opt of None \<Rightarrow> Inr (ms2, 0, None, c1, w) | Some adj \<Rightarrow> tier3_stage cput adj j t ms2 c1 w)
      else Inr (ms2, 0, None, c1, w)) = Inr (o_mappings oc, o_tier3_used oc, o_promotable oc, c', w')
     \<and> hit = o_cache_hit oc \<and> u2 = o_tier2_used oc"
    by (auto simp: resolve_table_def m0 m1 m2 Let_def res_bind_Inr_iff)
  then show ?thesis
    using that [OF m0, of ms1 c1 ms2 st1] m1 m2 by (auto split: if_splits option.splits)
qed

lemma tier3_stage_parts:
  assumes "tier3_stage cput adj j t ms c w = Inr (ms', used, learned, c', w')"
  obtains r where "adj w (make_request j t ms) = Inr (r, w')"
    "stage (tier3_turn r) [] ms 0 = (ms', used)"
    "learned = None \<and> c' = c \<or> (0 < used \<and> j_fingerprint j \<noteq> [] \<and> j_client_id j \<noteq> []
       \<and> learned = Some (learned_from ms')
       \<and> c' = cput c (j_fingerprint j) (j_client_id j) (learned_from ms') ''LLM'' None)"
proof -
  obtain r w1 where r: "adj w (make_request j t ms) = Inr (r, w1)"
    using assms by (auto simp: tier3_stage_def res_bind_Inr_iff)
  obtain ms1 u where m: "stage (tier3_turn r) [] ms 0 = (ms1, u)"
    by (cases "stage (tier3_turn r) [] ms 0")
  show ?thesis
    using assms that [of r] by (auto simp: tier3_stage_def r m Let_def split: if_splits)
qed

lemma cache_stage_extends: "cache_stage cget j ms c = (ms', hit, c') \<Longrightarrow> extends ms ms'"
  by (auto simp: cache_stage_def Let_def apply_learned_extends split: prod.splits option.splits if_splits)

lemma stage_front:
  assumes "\<And>m taken s. source_field (fst (turn m taken s)) = source_field m"
    and "stage turn [] ms s = (ms', s')"
  shows "extends ms ms'"
  using stage_extends [OF _ assms(2)] assms(1) by auto

lemma resolve_table_extends:
  assumes "resolve_table cget cput adj_opt ex em ov j t (st, c, w) = Inr (oc, st', c', w')"
    and "map_table ov t = Inr ms0"
  shows "extends ms0 (o_mappings oc)"
proof -
  obtain m0 ms1 ms2 st1 c1 where p: "map_table ov t = Inr m0"
    "cache_stage cget j m0 c = (ms1, o_cache_hit oc, c1)"
    "stage (tier2_turn ex em) [] ms1 (st, 0) = (ms2, st1, o_tier2_used oc)"
    and last: "o_mappings oc = ms2 \<or> (\<exists>adj. tier3_stage cput adj j t ms2 c1 w
        = Inr (o_mappings oc, o_tier3_used oc, o_promotable oc, c', w'))"
    using assms(1) by (rule resolve_table_parts) blast
  have "extends ms2 (o_mappings oc)"
    using last
  proof
    assume "\<exists>adj. tier3_stage cput adj j t ms2 c1 w
        = Inr (o_mappings oc, o_tier3_used oc, o_promotable oc, c', w')"
    then obtain adj where "tier3_stage cput adj j t ms2 c1 w
        = Inr (o_mappings oc, o_tier3_used oc, o_promotable oc, c', w')" by blast
    then obtain r where "stage (tier3_turn r) [] ms2 0 = (o_mappings oc, o_tier3_used oc)"
      by (rule tier3_stage_parts) blast
    then show ?thesis by (rule stage_front [OF tier3_turn_source])
  qed simp
  moreover have "extends ms1 ms2" by (rule stage_front [OF tier2_turn_source p(3)])
  moreover have "extends ms0 ms1" using cache_stage_extends [OF p(2)] p(1) assms(2) by simp
  ultimately show ?thesis using extends_trans by blast
qed

locale ladder =
  cache: template_cache get put view + adj: adjudicator adjudicate
  for get :: "'c \<Rightarrow> string \<Rightarrow> string \<Rightarrow> (string, string) dict option \<times> 'c"
    and put view
    and adjudicate :: "'w \<Rightarrow> request \<Rightarrow> (adj_result \<times> 'w) result"
begin

text \<open>The cache holds mappable fields only.\<close>

definition cache_ok :: "'c \<Rightarrow> bool" where
  "cache_ok c \<longleftrightarrow> (\<forall>f k l. view c f k = Some l \<longrightarrow> snd ` set l \<subseteq> set MAPPABLE_FIELDS)"

lemma cache_ok_put:
  assumes "cache_ok c" and "snd ` set l \<subseteq> set MAPPABLE_FIELDS"
  shows "cache_ok (put c f k l tr d)"
  unfolding cache_ok_def cache.put_view
proof (intro allI impI)
  fix f' k' l'
  assume "(if f' = f \<and> k' = k then Some l else view c f' k') = Some l'"
  then have "l' = l \<or> view c f' k' = Some l'" by (auto split: if_splits)
  then show "snd ` set l' \<subseteq> set MAPPABLE_FIELDS" using assms unfolding cache_ok_def by blast
qed

lemma answers: "adjudicate w req = Inr (r, w') \<Longrightarrow> answers_ok r"
  unfolding answers_ok_def using adj.as_map_field(1) by blast

lemma cache_stage_keeps:
  assumes "cache_stage get j ms c = (ms', hit, c')" and "cache_ok c" and "fields_ok ms"
  shows "fields_ok ms' \<and> cache_ok c' \<and> view c' = view c"
proof -
  have v: "view (snd (get c f k)) = view c" for f k
    by (intro ext) (simp add: cache.get_keeps)
  have learned: "snd ` set l \<subseteq> set MAPPABLE_FIELDS" if "fst (get c f k) = Some l" for f k l
    using that assms(2) by (auto simp: cache.get_value cache_ok_def)
  obtain cached c1 where g: "get c (j_fingerprint j) (j_client_id j) = (cached, c1)"
    by (cases "get c (j_fingerprint j) (j_client_id j)")
  have c1: "view c1 = view c" using v [of "j_fingerprint j" "j_client_id j"] by (simp add: g)
  then have ok1: "cache_ok c1" using assms(2) by (simp add: cache_ok_def)
  have app: "fields_ok (apply_learned l tr cf w ms (claimed ms))" if "cached = Some l" for l tr cf w
    using apply_learned_ok [of l "[]" ms "claimed ms"] learned [of "j_fingerprint j" "j_client_id j" l]
      assms(3) that by (simp add: g claimed_fields_ok)
  show ?thesis
    using assms c1 ok1 app
    by (auto simp: cache_stage_def Let_def g split: if_splits option.splits)
qed

text \<open>One run keeps the fields distinct and mappable and the cache sound, and what it reports as
  promotable is what the cache now holds for this template.\<close>

lemma resolve_table_ok:
  assumes run: "resolve_table get put adj_opt ex em ov j t (st, c, w) = Inr (oc, st', c', w')"
    and "adj_opt = None \<or> adj_opt = Some adjudicate" and "extractor_ok ex" and "emb_ok st"
    and "cache_ok c" and "map_table ov t = Inr ms0" and "fields_ok ms0"
  shows "fields_ok (o_mappings oc)" and "cache_ok c'"
    and "o_promotable oc = Some l \<Longrightarrow>
      view c' (j_fingerprint j) (j_client_id j) = Some l \<and> l \<noteq> []
      \<and> j_fingerprint j \<noteq> [] \<and> j_client_id j \<noteq> []"
proof -
  obtain m0 ms1 ms2 st1 c1 where p: "map_table ov t = Inr m0"
    "cache_stage get j m0 c = (ms1, o_cache_hit oc, c1)"
    "stage (tier2_turn ex em) [] ms1 (st, 0) = (ms2, st1, o_tier2_used oc)"
    and last: "o_mappings oc = ms2 \<and> o_promotable oc = None \<and> c' = c1
       \<or> tier3_stage put adjudicate j t ms2 c1 w = Inr (o_mappings oc, o_tier3_used oc, o_promotable oc, c', w')"
  proof (rule resolve_table_parts [OF run])
    fix n0 n1 n2 s1 d1
    assume parts: "map_table ov t = Inr n0" "cache_stage get j n0 c = (n1, o_cache_hit oc, d1)"
      "stage (tier2_turn ex em) [] n1 (st, 0) = (n2, s1, o_tier2_used oc)"
      and "o_mappings oc = n2 \<and> o_tier3_used oc = 0 \<and> o_promotable oc = None \<and> c' = d1 \<and> w' = w
       \<or> (\<not> o_cache_hit oc \<and> unresolved_of n2 \<noteq> [] \<and> (\<exists>adj. adj_opt = Some adj \<and>
            tier3_stage put adj j t n2 d1 w = Inr (o_mappings oc, o_tier3_used oc, o_promotable oc, c', w')))"
    then have "o_mappings oc = n2 \<and> o_promotable oc = None \<and> c' = d1
       \<or> tier3_stage put adjudicate j t n2 d1 w = Inr (o_mappings oc, o_tier3_used oc, o_promotable oc, c', w')"
      using assms(2) by auto
    with parts show thesis by (rule that)
  qed
  have f1: "fields_ok ms1" and c1: "cache_ok c1"
    using cache_stage_keeps [OF p(2) assms(5)] p(1) assms(6,7) by auto
  have f2: "fields_ok ms2"
    using stage_fields_ok [OF tier2_fair [OF assms(3)], of "[]" ms1 "(st, 0)"] p(3) f1 assms(4)
    by (simp add: tier2_ok_def)
  have all: "fields_ok (o_mappings oc) \<and> cache_ok c' \<and>
      (\<forall>l. o_promotable oc = Some l \<longrightarrow> view c' (j_fingerprint j) (j_client_id j) = Some l \<and> l \<noteq> []
        \<and> j_fingerprint j \<noteq> [] \<and> j_client_id j \<noteq> [])"
    using last
  proof
    assume "tier3_stage put adjudicate j t ms2 c1 w = Inr (o_mappings oc, o_tier3_used oc, o_promotable oc, c', w')"
    then obtain r where r: "adjudicate w (make_request j t ms2) = Inr (r, w')"
      "stage (tier3_turn r) [] ms2 0 = (o_mappings oc, o_tier3_used oc)"
      and c': "o_promotable oc = None \<and> c' = c1 \<or> (0 < o_tier3_used oc \<and> j_fingerprint j \<noteq> [] \<and> j_client_id j \<noteq> []
        \<and> o_promotable oc = Some (learned_from (o_mappings oc))
        \<and> c' = put c1 (j_fingerprint j) (j_client_id j) (learned_from (o_mappings oc)) ''LLM'' None)"
      by (rule tier3_stage_parts) blast
    have f3: "fields_ok (o_mappings oc)"
      using stage_fields_ok [OF tier3_fair [OF answers [OF r(1)]], of "[]" ms2 0] r(2) f2 by simp
    have ne: "learned_from (o_mappings oc) \<noteq> []" if "0 < o_tier3_used oc"
      using tier3_used [OF answers [OF r(1)] r(2) that] learned_nonempty by blast
    show ?thesis
      using c' c1 f3 ne cache_ok_put [OF c1 learned_values [OF f3]] by (auto simp: cache.put_view)
  qed (use f2 c1 in simp)
  then show "fields_ok (o_mappings oc)" "cache_ok c'"
    "o_promotable oc = Some l \<Longrightarrow> view c' (j_fingerprint j) (j_client_id j) = Some l \<and> l \<noteq> []
      \<and> j_fingerprint j \<noteq> [] \<and> j_client_id j \<noteq> []" by blast+
qed

text \<open>A template the cache knows is served without the adjudicator.\<close>

lemma known_template_hits:
  assumes "view c (j_fingerprint j) (j_client_id j) = Some l" and "l \<noteq> []"
    and "j_fingerprint j \<noteq> []" and "j_client_id j \<noteq> []"
    and run: "resolve_table get put adj_opt ex em ov j t (st, c, w) = Inr (oc, st', c', w')"
  shows "o_cache_hit oc \<and> o_tier3_used oc = 0 \<and> w' = w"
proof -
  obtain m0 ms1 ms2 st1 c1 where p: "cache_stage get j m0 c = (ms1, o_cache_hit oc, c1)"
    and last: "(o_tier3_used oc = 0 \<and> w' = w) \<or> \<not> o_cache_hit oc"
    by (rule resolve_table_parts [OF run]) blast
  have "fst (get c (j_fingerprint j) (j_client_id j)) = Some l" using assms(1) by (simp add: cache.get_value)
  then have "o_cache_hit oc"
    using p assms(2-4) by (auto simp: cache_stage_def Let_def split: prod.splits)
  with last show ?thesis by simp
qed

end

interpretation mem_ladder: ladder mem_get mem_put mem_view "fake_adjudicate :: 'w \<Rightarrow> request \<Rightarrow> (adj_result \<times> 'w) result"
  by unfold_locales

interpretation pg_ladder: ladder pg_get pg_put pg_view "fake_adjudicate :: 'w \<Rightarrow> request \<Rightarrow> (adj_result \<times> 'w) result"
  by unfold_locales
section \<open>Properties\<close>

text \<open>An adjudicator that never raises.\<close>

definition total_adjudicator :: "'w adjudicate option \<Rightarrow> bool" where
  "total_adjudicator adj_opt \<longleftrightarrow> (\<forall>adj. adj_opt = Some adj \<longrightarrow> (\<forall>w req. \<exists>x. adj w req = Inr x))"

lemma fake_total: "total_adjudicator None" "total_adjudicator (Some fake_adjudicate)"
  by (simp_all add: total_adjudicator_def fake_adjudicate_def)

lemma resolve_table_total:
  assumes "total_adjudicator adj_opt" and "map_table ov t = Inr ms0"
  shows "\<exists>oc. resolve_table cget cput adj_opt ex em ov j t s = Inr oc"
proof -
  obtain st c w where s: "s = (st, c, w)" by (cases s)
  obtain ms1 hit c1 where m1: "cache_stage cget j ms0 c = (ms1, hit, c1)"
    by (cases "cache_stage cget j ms0 c")
  obtain ms2 st1 u2 where m2: "stage (tier2_turn ex em) [] ms1 (st, 0) = (ms2, st1, u2)"
    by (cases "stage (tier2_turn ex em) [] ms1 (st, 0)")
  have "\<exists>ms' used l c' w'. tier3_stage cput adj j t ms2 c1 w = Inr (ms', used, l, c', w')"
    if "adj_opt = Some adj" for adj
  proof -
    have "\<exists>x. adj w (make_request j t ms2) = Inr x"
      using assms(1) that by (simp add: total_adjudicator_def)
    then obtain r w1 where "adj w (make_request j t ms2) = Inr (r, w1)" by auto
    then show ?thesis by (simp add: tier3_stage_def Let_def split: prod.splits)
  qed
  then show ?thesis
    using assms(2) by (cases adj_opt) (auto simp: resolve_table_def s m1 m2 Let_def)
qed

lemma resolve_table_fails:
  assumes "total_adjudicator adj_opt"
  shows "resolve_table cget cput adj_opt ex em ov j t s = Inl e \<longleftrightarrow> map_table ov t = Inl e"
proof (cases "map_table ov t")
  case (Inl e')
  then show ?thesis by (cases s) (simp add: resolve_table_def)
next
  case (Inr ms0)
  then show ?thesis using resolve_table_total [OF assms Inr] by (metis Inl_Inr_False)
qed

text \<open>With the deterministic adjudicator, or with none, the ladder fails exactly when Tier 1 does,
  and with the same error.\<close>

lemma ladder_fails_only_in_tier1:
  "(resolve_table cget cput None ex em ov j t (st, c, w) = Inl e) = (map_table ov t = Inl e)
   \<and> (resolve_table cget cput (Some fake_adjudicate) ex em ov j t (st, c, w) = Inl e) = (map_table ov t = Inl e)"
  using resolve_table_fails [OF fake_total(1)] resolve_table_fails [OF fake_total(2)] by blast

text \<open>C15. Escalation is one-way: the ladder keeps every column in place, and a column that Tier 1
  resolved leaves with the same field, tier, confidence and evidence.\<close>

theorem escalation_one_way:
  assumes "resolve_table cget cput adj_opt ex em ov j t (st, c, w) = Inr (oc, st', c', w')"
    and "map_table ov t = Inr ms0"
  shows "list_all2 (\<lambda>m m'. source_field m' = source_field m \<and> (canonical_field m \<noteq> None \<longrightarrow> m' = m))
           ms0 (o_mappings oc)"
  using resolve_table_extends [OF assms] unfolding extends_def refines_def has_field_def .



section \<open>Example\<close>

text \<open>One column that the first two tiers decline and the rules of the third recognise.\<close>

definition ladder_table :: parsed_table where
  "ladder_table = \<lparr>t_headers = [''zz acct''], t_rows = [[(''zz acct'', ''A1'')]], t_evidence = [], t_warnings = []\<rparr>"

definition ladder_job :: job where
  "ladder_job = \<lparr>j_client_id = ''acme'', j_client_name = ''Acme'', j_source_hint = [],
     j_domain = ''TRADE'', j_fingerprint = ''f1''\<rparr>"

definition empty_rows :: postgres_cache where
  "empty_rows = \<lparr>pg_rows = [], pg_hits = 0, pg_misses = 0\<rparr>"

abbreviation ladder_run :: "(outcome \<times> unit emb_state \<times> postgres_cache \<times> unit) result" where
  "ladder_run \<equiv> resolve_table pg_get pg_put (Some fake_adjudicate) exact_extract no_model [] ladder_job
     ladder_table (Unloaded, empty_rows, ())"

lemma ladder_table_made: "make_table [''zz acct''] [[(''zz acct'', ''A1'')]] [] [] = Inr ladder_table"
  by (simp add: make_table_Inr ladder_table_def)

lemma ladder_tier1:
  "case map_table [] ladder_table of Inr ms \<Rightarrow> map canonical_field ms = [None] | Inl _ \<Rightarrow> False"
  by code_simp

lemma ladder_runs:
  "case ladder_run of Inr (oc, st, c, w) \<Rightarrow> o_promotable oc = Some [(''zz acct'', ''account_id'')] | Inl _ \<Rightarrow> False"
  by code_simp

lemma ladder_run_result:
  obtains oc st c where "ladder_run = Inr (oc, st, c, ())" "o_promotable oc = Some [(''zz acct'', ''account_id'')]"
  using ladder_runs by (cases "ladder_run") auto

lemma ladder_start: "\<forall>f k l. pg_view empty_rows f k = Some l \<longrightarrow> snd ` set l \<subseteq> set MAPPABLE_FIELDS"
  by (simp add: pg_view_def empty_rows_def)

lemma unloaded_ok: "emb_ok (Unloaded :: unit emb_state)"
  by (simp add: emb_ok_def)

theorem escalation_one_way_witness:
  "case map_table [] ladder_table of
     Inr ms0 \<Rightarrow> (\<exists>oc st c. ladder_run = Inr (oc, st, c, ()) \<and> length (o_mappings oc) = length ms0
        \<and> map source_field (o_mappings oc) = map source_field ms0)
   | Inl _ \<Rightarrow> False"
proof -
  obtain oc st c where r: "ladder_run = Inr (oc, st, c, ())" by (rule ladder_run_result)
  obtain ms0 where m: "map_table [] ladder_table = Inr ms0"
    using ladder_tier1 by (cases "map_table [] ladder_table") auto
  have "list_all2 (\<lambda>m m'. source_field m' = source_field m) ms0 (o_mappings oc)"
    by (rule list_all2_mono [OF escalation_one_way [OF r m]]) simp
  then have "length (o_mappings oc) = length ms0 \<and> map source_field (o_mappings oc) = map source_field ms0"
    by (induction rule: list_all2_induct) simp_all
  with r m show ?thesis by auto
qed



end
