(* ===== verification/PyJson.thy ===== *)
theory PyJson
  imports PyDecimal
begin

text \<open>
  Python's \<open>json\<close> module and the texts \<open>str\<close> and \<open>repr\<close> give to what it decodes. The decoder is the
  recursive descent of \<open>json.scanner\<close>, each function returning the value and the text that is left;
  it runs on fuel, and \<open>scan_fuel\<close> shows that a fuel beyond the length of the text is never used up,
  so \<open>None\<close> is always \<open>JSONDecodeError\<close>. Outside the model: \<open>\u\<close> escapes of code points from 256 on
  (the text of the model is Latin-1), the interpreter's recursion limit, and the 4300-digit limit of
  integer literals.
\<close>

section \<open>Values\<close>

text \<open>A decoded float: finite values are exact rationals, and zero has a sign.\<close>

datatype pfloat = Fin rat | NegZero | Inf bool | NotANumber

datatype json =
    JNull
  | JBool bool
  | JInt int
  | JFloat pfloat
  | JStr string
  | JArr "json list"
  | JObj "(string \<times> json) list"

fun is_obj :: "json \<Rightarrow> bool" where
  "is_obj (JObj _) = True"
| "is_obj _ = False"

fun is_arr :: "json \<Rightarrow> bool" where
  "is_arr (JArr _) = True"
| "is_arr _ = False"

text \<open>The double nearest to a decimal text; from \<open>2 ^ 1024\<close> on it is infinite.\<close>

definition pfloat_of :: "bool \<Rightarrow> rat \<Rightarrow> pfloat" where
  "pfloat_of neg x =
     (let y = fl x in
      if y = 0 then (if neg then NegZero else Fin 0)
      else if 2 ^ 1024 \<le> y then Inf neg
      else Fin (if neg then - y else y))"

section \<open>Decoding\<close>

definition json_space :: "char \<Rightarrow> bool" where
  "json_space c \<longleftrightarrow> ord c \<in> {9, 10, 13, 32}"

definition skip_ws :: "string \<Rightarrow> string" where
  "skip_ws s = dropWhile json_space s"

definition hex_val :: "char \<Rightarrow> nat option" where
  "hex_val c =
     (if is_digit c then Some (ord c - 48)
      else if 97 \<le> ord (to_lower c) \<and> ord (to_lower c) \<le> 102 then Some (ord (to_lower c) - 87)
      else None)"

text \<open>The character an escape stands for, from the text after the backslash.\<close>

definition unicode_escape :: "string \<Rightarrow> (char \<times> string) option" where
  "unicode_escape s = (case map hex_val (take 4 s) of
     [Some a, Some b, Some m, Some n] \<Rightarrow>
       if a = 0 \<and> b = 0 then Some (chr (16 * m + n), drop 4 s) else None
   | _ \<Rightarrow> None)"

definition simple_escapes :: "(char \<times> char) list" where
  "simple_escapes = [(chr 34, chr 34), (chr 92, chr 92), (CHR ''/'', CHR ''/''), (CHR ''b'', chr 8),
     (CHR ''f'', chr 12), (CHR ''n'', chr 10), (CHR ''r'', chr 13), (CHR ''t'', chr 9)]"

definition unescape :: "string \<Rightarrow> (char \<times> string) option" where
  "unescape s = (case s of
     [] \<Rightarrow> None
   | e # r \<Rightarrow> if e = CHR ''u'' then unicode_escape r
              else map_option (\<lambda>d. (d, r)) (dict_get simple_escapes e))"

lemma unicode_escape_shorter: "unicode_escape s = Some (d, r) \<Longrightarrow> length r \<le> length s"
  by (auto simp: unicode_escape_def split: list.splits option.splits if_splits)

lemma unescape_shorter: "unescape s = Some (d, r) \<Longrightarrow> length r < length s"
  by (auto simp: unescape_def dest!: unicode_escape_shorter split: list.splits if_splits)

text \<open>The text after an opening quote, up to the closing one.\<close>

function scan_string :: "string \<Rightarrow> (string \<times> string) option" where
  "scan_string [] = None"
| "scan_string (c # s) =
     (if c = chr 34 then Some ([], s)
      else if ord c < 32 then None
      else if c \<noteq> chr 92 then map_option (\<lambda>(t, r). (c # t, r)) (scan_string s)
      else case unescape s of
          None \<Rightarrow> None
        | Some (d, s') \<Rightarrow> map_option (\<lambda>(t, r). (d # t, r)) (scan_string s'))"
  by pat_completeness auto
termination
  by (relation "measure length") (auto dest: unescape_shorter)

text \<open>A number: the integer part without leading zeros, a fraction and an exponent.\<close>

definition scan_fraction :: "string \<Rightarrow> string \<times> string" where
  "scan_fraction s = (case s of c # r \<Rightarrow>
     if c = CHR ''.'' \<and> takeWhile is_digit r \<noteq> [] then take_digits r else ([], s) | [] \<Rightarrow> ([], s))"

definition scan_exponent :: "string \<Rightarrow> int option \<times> string" where
  "scan_exponent s = (case s of c # r \<Rightarrow>
     if to_lower c = CHR ''e'' then
       (let (neg, body) = parse_sign r; (ds, rest) = take_digits body in
        if ds = [] then (None, s)
        else (Some (if neg then - digits_val ds else digits_val ds), rest))
     else (None, s) | [] \<Rightarrow> (None, s))"

definition scan_number :: "string \<Rightarrow> (json \<times> string) option" where
  "scan_number s =
     (let (neg, body) = (case s of c # r \<Rightarrow> if c = CHR ''-'' then (True, r) else (False, s) | [] \<Rightarrow> (False, s));
          (ip, r) = (case body of c # r \<Rightarrow> if c = CHR ''0'' then ([c], r) else take_digits body | [] \<Rightarrow> ([], []));
          (fp, r') = scan_fraction r;
          (ex, rest) = scan_exponent r'
      in if ip = [] then None
         else if fp = [] \<and> ex = None then Some (JInt (if neg then - digits_val ip else digits_val ip), rest)
         else Some (JFloat (pfloat_of neg (of_int (digits_val (ip @ fp))
                * pow10 ((case ex of None \<Rightarrow> 0 | Some e \<Rightarrow> e) - int (length fp)))), rest))"

definition scan_word :: "(string \<times> json) list \<Rightarrow> string \<Rightarrow> (json \<times> string) option" where
  "scan_word ws s = (case find (\<lambda>(w, v). prefix w s) ws of
     Some (w, v) \<Rightarrow> Some (v, drop (length w) s) | None \<Rightarrow> None)"

definition json_words :: "(string \<times> json) list" where
  "json_words =
     [(''null'', JNull), (''true'', JBool True), (''false'', JBool False), (''NaN'', JFloat NotANumber),
      (''Infinity'', JFloat (Inf False)), (''-Infinity'', JFloat (Inf True))]"

text \<open>
  \<open>scan\<close> reads one value; \<open>members\<close> reads the members of an object from the first key's quote on,
  and \<open>elements\<close> the elements of an array from the first value on.
\<close>

fun scan :: "nat \<Rightarrow> string \<Rightarrow> (json \<times> string) option"
  and members :: "nat \<Rightarrow> string \<Rightarrow> ((string \<times> json) list \<times> string) option"
  and elements :: "nat \<Rightarrow> string \<Rightarrow> (json list \<times> string) option" where
  "scan 0 s = None"
| "scan (Suc n) s =
     (case s of
        [] \<Rightarrow> None
      | c # r \<Rightarrow>
          if c = chr 34 then map_option (\<lambda>(t, r). (JStr t, r)) (scan_string r)
          else if c = CHR ''{'' then
            (if prefix ''}'' (skip_ws r) then Some (JObj [], tl (skip_ws r))
             else map_option (\<lambda>(kvs, r). (JObj (dict_of kvs), r)) (members n (skip_ws r)))
          else if c = CHR ''['' then
            (if prefix '']'' (skip_ws r) then Some (JArr [], tl (skip_ws r))
             else map_option (\<lambda>(vs, r). (JArr vs, r)) (elements n (skip_ws r)))
          else case scan_word json_words s of
              Some vr \<Rightarrow> Some vr
            | None \<Rightarrow> scan_number s)"
| "members 0 s = None"
| "members (Suc n) s =
     (case s of
        [] \<Rightarrow> None
      | c # r \<Rightarrow>
          if c \<noteq> chr 34 then None
          else case scan_string r of
              None \<Rightarrow> None
            | Some (k, r1) \<Rightarrow>
                if \<not> prefix '':'' (skip_ws r1) then None
                else case scan n (skip_ws (tl (skip_ws r1))) of
                    None \<Rightarrow> None
                  | Some (v, r2) \<Rightarrow>
                      if prefix ''}'' (skip_ws r2) then Some ([(k, v)], tl (skip_ws r2))
                      else if prefix '','' (skip_ws r2) then
                        map_option (\<lambda>(kvs, r). ((k, v) # kvs, r)) (members n (skip_ws (tl (skip_ws r2))))
                      else None)"
| "elements 0 s = None"
| "elements (Suc n) s =
     (case scan n s of
        None \<Rightarrow> None
      | Some (v, r) \<Rightarrow>
          if prefix '']'' (skip_ws r) then Some ([v], tl (skip_ws r))
          else if prefix '','' (skip_ws r) then
            map_option (\<lambda>(vs, r). (v # vs, r)) (elements n (skip_ws (tl (skip_ws r))))
          else None)"

text \<open>\<open>json.loads\<close>.\<close>

definition json_loads :: "string \<Rightarrow> json option" where
  "json_loads s =
     (let t = skip_ws s in
      case scan (2 * length t + 1) t of
        Some (v, r) \<Rightarrow> if skip_ws r = [] then Some v else None
      | None \<Rightarrow> None)"

section \<open>The fuel is enough\<close>

lemma length_skip_ws: "length (skip_ws s) \<le> length s"
  by (simp add: skip_ws_def length_dropWhile_le)

lemma scan_string_shorter: "scan_string s = Some (t, r) \<Longrightarrow> length r < length s"
proof (induction s arbitrary: t rule: scan_string.induct)
  case (2 c s)
  then show ?case
    using unescape_shorter [of s] by (fastforce split: if_splits option.splits)
qed simp

lemma take_digits_shorter: "take_digits s = (ds, r) \<Longrightarrow> length r + length ds = length s"
  unfolding take_digits_def by (metis add.commute length_append prod.inject takeWhile_dropWhile_id)

lemma scan_fraction_shorter: "scan_fraction s = (ds, r) \<Longrightarrow> length r \<le> length s"
  by (auto simp: scan_fraction_def dest!: take_digits_shorter split: list.splits if_splits)

lemma parse_sign_shorter: "parse_sign s = (b, r) \<Longrightarrow> length r \<le> length s"
  by (auto simp: parse_sign_def split: list.splits if_splits)

lemma scan_exponent_shorter: "scan_exponent s = (e, r) \<Longrightarrow> length r \<le> length s"
  by (auto simp: scan_exponent_def Let_def dest!: take_digits_shorter parse_sign_shorter
      split: list.splits if_splits prod.splits)

lemma scan_number_shorter:
  assumes "scan_number s = Some (v, r)"
  shows "length r < length s"
proof -
  obtain neg body where b: "(case s of c # r \<Rightarrow> if c = CHR ''-'' then (True, r) else (False, s)
      | [] \<Rightarrow> (False, s)) = (neg, body)" by fastforce
  obtain ip r1 where i: "(case body of c # r \<Rightarrow> if c = CHR ''0'' then ([c], r) else take_digits body
      | [] \<Rightarrow> ([], [])) = (ip, r1)" by fastforce
  obtain fp r2 where f: "scan_fraction r1 = (fp, r2)" by fastforce
  obtain ex r3 where e: "scan_exponent r2 = (ex, r3)" by fastforce
  have "length body \<le> length s" using b by (auto split: list.splits if_splits)
  moreover have "ip \<noteq> []" "r = r3"
    using assms by (auto simp: scan_number_def b i f e Let_def split: if_splits)
  moreover have "length r1 < length body" if "ip \<noteq> []"
    using i that by (cases ip) (auto dest!: take_digits_shorter split: list.splits if_splits)
  ultimately show ?thesis
    using scan_fraction_shorter [OF f] scan_exponent_shorter [OF e] by simp
qed

lemma scan_word_shorter:
  assumes "scan_word json_words s = Some (v, r)"
  shows "length r < length s"
proof -
  have "\<forall>(w, u) \<in> set json_words. w \<noteq> []" by (simp add: json_words_def)
  then show ?thesis
    using assms unfolding scan_word_def
    by (auto simp: find_Some_iff prefix_def split: option.splits prod.splits dest: nth_mem)
qed

text \<open>The three readers only move forward, and once the fuel covers the text more of it changes nothing.\<close>

definition forward :: "(string \<Rightarrow> ('a \<times> string) option) \<Rightarrow> bool" where
  "forward f \<longleftrightarrow> (\<forall>s v r. f s = Some (v, r) \<longrightarrow> length r < length s)"

lemma forwardD: "forward f \<Longrightarrow> f s = Some (v, r) \<Longrightarrow> length r < length s"
  by (auto simp: forward_def)

lemma length_after:
  assumes "prefix (c # cs) (skip_ws s)"
  shows "length (tl (skip_ws s)) < length s" and "length (skip_ws (tl (skip_ws s))) < length s"
proof -
  show lt: "length (tl (skip_ws s)) < length s"
    using assms length_skip_ws [of s] by (cases "skip_ws s") auto
  show "length (skip_ws (tl (skip_ws s))) < length s"
    using lt length_skip_ws [of "tl (skip_ws s)"] by simp
qed

lemma length_after_both:
  "prefix (c # cs) (skip_ws s) \<Longrightarrow>
   length (tl (skip_ws s)) < length s \<and> length (skip_ws (tl (skip_ws s))) < length s"
  using length_after by blast

lemma scan_forward: "forward (scan n) \<and> forward (members n) \<and> forward (elements n)"
proof (induction n)
  case 0
  show ?case by (simp add: forward_def)
next
  case (Suc n)
  then have sc: "forward (scan n)" and me: "forward (members n)" and el: "forward (elements n)" by auto
  have "length r < length s" if "scan (Suc n) s = Some (v, r)" for s v r
    using that length_skip_ws [of "tl s"]
    by (auto dest!: scan_string_shorter scan_word_shorter scan_number_shorter forwardD [OF me] forwardD [OF el]
        length_after_both split: list.splits if_splits option.splits)
  moreover have "length r < length s" if "members (Suc n) s = Some (v, r)" for s v r
    using that
    by (auto dest!: scan_string_shorter forwardD [OF sc] forwardD [OF me] length_after_both
        split: list.splits if_splits option.splits)
  moreover have "length r < length s" if "elements (Suc n) s = Some (v, r)" for s v r
    using that
    by (auto dest!: forwardD [OF sc] forwardD [OF el] length_after_both
        split: if_splits option.splits)
  ultimately show ?case by (simp add: forward_def)
qed

lemma scan_more_fuel:
  "(2 * length s < n \<longrightarrow> scan (Suc n) s = scan n s)
   \<and> (2 * length s < n \<longrightarrow> members (Suc n) s = members n s)
   \<and> (2 * length s + 1 < n \<longrightarrow> elements (Suc n) s = elements n s)"
proof (induction n arbitrary: s)
  case (Suc n)
  have sc: "scan (Suc n) t = scan n t" if "2 * length t < n" for t using Suc.IH that by blast
  have me: "members (Suc n) t = members n t" if "2 * length t < n" for t using Suc.IH that by blast
  have el: "elements (Suc n) t = elements n t" if "2 * length t + 1 < n" for t using Suc.IH that by blast
  have fw: "length r < length t" if "scan n t = Some (v, r)" for t v r
    using that scan_forward [of n] unfolding forward_def by blast
  have "scan (Suc (Suc n)) s = scan (Suc n) s" if "2 * length s < Suc n"
  proof (cases s)
    case (Cons c r)
    have "members (Suc n) (skip_ws r) = members n (skip_ws r)"
      "elements (Suc n) (skip_ws r) = elements n (skip_ws r)"
      using that length_skip_ws [of r] by (simp_all add: Cons me el del: members.simps elements.simps)
    then show ?thesis unfolding scan.simps(2) [of "Suc n"] scan.simps(2) [of n] Cons by simp
  qed simp
  moreover have "members (Suc (Suc n)) s = members (Suc n) s" if "2 * length s < Suc n"
  proof (cases s)
    case (Cons c r)
    have "scan (Suc n) (skip_ws (tl (skip_ws r1))) = scan n (skip_ws (tl (skip_ws r1)))"
      if "scan_string r = Some (k, r1)" "prefix '':'' (skip_ws r1)" for k r1
      using \<open>2 * length s < Suc n\<close> scan_string_shorter [OF that(1)] length_after [OF that(2)]
      by (intro sc) (simp add: Cons)
    moreover have "members (Suc n) (skip_ws (tl (skip_ws r2))) = members n (skip_ws (tl (skip_ws r2)))"
      if "scan_string r = Some (k, r1)" "prefix '':'' (skip_ws r1)"
        "scan n (skip_ws (tl (skip_ws r1))) = Some (v, r2)" "prefix '','' (skip_ws r2)" for k r1 v r2
      using \<open>2 * length s < Suc n\<close> scan_string_shorter [OF that(1)] length_after [OF that(2)]
        length_after [OF that(4)] fw [OF that(3)]
      by (intro me) (simp add: Cons)
    ultimately show ?thesis
      unfolding members.simps(2) [of "Suc n"] members.simps(2) [of n] Cons list.case
      by (auto simp del: scan.simps members.simps elements.simps split: option.split)
  qed simp
  moreover have "elements (Suc (Suc n)) s = elements (Suc n) s" if "2 * length s + 1 < Suc n"
  proof -
    have "scan (Suc n) s = scan n s" using that by (intro sc) simp
    moreover have "elements (Suc n) (skip_ws (tl (skip_ws r))) = elements n (skip_ws (tl (skip_ws r)))"
      if "scan n s = Some (v, r)" "prefix '','' (skip_ws r)" for v r
      using \<open>2 * length s + 1 < Suc n\<close> length_after [OF that(2)] fw [OF that(1)]
      by (intro el) simp
    ultimately show ?thesis
      unfolding elements.simps(2) [of "Suc n"] elements.simps(2) [of n]
      by (auto simp del: scan.simps members.simps elements.simps split: option.split)
  qed
  ultimately show ?case by blast
qed simp

lemma scan_fuel:
  assumes "2 * length s < n"
  shows "scan n s = scan (2 * length s + 1) s"
  using assms
proof (induction n)
  case (Suc n)
  show ?case
  proof (cases "2 * length s < n")
    case True
    with Suc.IH scan_more_fuel [of s n] show ?thesis by metis
  next
    case False
    with Suc.prems have "n = 2 * length s" by simp
    then show ?thesis by (simp del: scan.simps)
  qed
qed simp

section \<open>Texts\<close>

text \<open>
  \<open>repr\<close> of a float is the shortest decimal that rounds back to it: the first of 1 to 17
  significant digits whose nearest decimal does. \<open>dec_exponent x\<close> is the \<open>e\<close> with
  \<open>10^e \<le> x < 10^(e+1)\<close>.
\<close>

definition dec_exponent :: "rat \<Rightarrow> int" where
  "dec_exponent x =
     (if 1 \<le> x then int (num_digits \<lfloor>x\<rfloor>) - 1
      else (let m = \<lceil>1 / x\<rceil> in if m = 1 then 0 else - int (num_digits (m - 1))))"

definition shortest_digits :: "rat \<Rightarrow> int \<times> int" where
  "shortest_digits x =
     (let e = dec_exponent x;
          candidate = (\<lambda>n. let k = e + 1 - int n in (round_half_even (x / pow10 k), k))
      in case find (\<lambda>n. let (m, k) = candidate n in fl (of_int m * pow10 k) = x) [1..<17] of
           Some n \<Rightarrow> candidate n
         | None \<Rightarrow> candidate 17)"

definition strip_zeros :: "string \<Rightarrow> string" where
  "strip_zeros s = rev (dropWhile (\<lambda>c. c = CHR ''0'') (rev s))"

definition zeros :: "int \<Rightarrow> string" where
  "zeros n = replicate (nat n) (CHR ''0'')"

text \<open>The digits and the place of the point, laid out as \<open>repr\<close> does.\<close>

definition layout_float :: "string \<Rightarrow> int \<Rightarrow> string" where
  "layout_float ds point =
     (let n = int (length ds) in
      if -4 < point \<and> point \<le> 0 then ''0.'' @ zeros (- point) @ ds
      else if 0 < point \<and> point < n then take (nat point) ds @ ''.'' @ drop (nat point) ds
      else if 0 < point \<and> point \<le> 16 then ds @ zeros (point - n) @ ''.0''
      else (let e = point - 1; body = (if n = 1 then ds else take 1 ds @ ''.'' @ drop 1 ds) in
        body @ ''e'' @ (if e < 0 then ''-'' else ''+'') @ pad_left 2 (CHR ''0'') (dec_str \<bar>e\<bar>)))"

fun float_repr :: "pfloat \<Rightarrow> string" where
  "float_repr (Fin x) =
     (if x = 0 then ''0.0''
      else let (m, k) = shortest_digits \<bar>x\<bar>; ds = dec_str m in
        (if x < 0 then ''-'' else []) @ layout_float (strip_zeros ds) (int (length ds) + k))"
| "float_repr NegZero = ''-0.0''"
| "float_repr (Inf neg) = (if neg then ''-inf'' else ''inf'')"
| "float_repr NotANumber = ''nan''"

text \<open>\<open>repr\<close> of a decoded value, and \<open>str\<close>, which differs on texts only.\<close>

fun json_repr :: "json \<Rightarrow> string"
  and repr_items :: "json list \<Rightarrow> string list"
  and repr_members :: "(string \<times> json) list \<Rightarrow> string list" where
  "json_repr JNull = ''None''"
| "json_repr (JBool b) = (if b then ''True'' else ''False'')"
| "json_repr (JInt n) = int_str n"
| "json_repr (JFloat x) = float_repr x"
| "json_repr (JStr s) = repr s"
| "json_repr (JArr vs) = ''['' @ join '', '' (repr_items vs) @ '']''"
| "json_repr (JObj kvs) = ''{'' @ join '', '' (repr_members kvs) @ ''}''"
| "repr_items [] = []"
| "repr_items (v # vs) = json_repr v # repr_items vs"
| "repr_members [] = []"
| "repr_members ((k, v) # kvs) = (repr k @ '': '' @ json_repr v) # repr_members kvs"

definition json_str :: "json \<Rightarrow> string" where
  "json_str v = (case v of JStr s \<Rightarrow> s | _ \<Rightarrow> json_repr v)"

lemma json_str_JStr [simp]: "json_str (JStr s) = s"
  by (simp add: json_str_def)

section \<open>\<open>json.dumps\<close>\<close>

definition dump_char :: "char \<Rightarrow> string" where
  "dump_char c =
     (let bs = chr 92 in
      if c = chr 34 \<or> c = bs then [bs, c]
      else if ord c = 10 then [bs, CHR ''n'']
      else if ord c = 13 then [bs, CHR ''r'']
      else if ord c = 9 then [bs, CHR ''t'']
      else if ord c = 12 then [bs, CHR ''f'']
      else if ord c = 8 then [bs, CHR ''b'']
      else if 32 \<le> ord c \<and> ord c \<le> 126 then [c]
      else [bs, CHR ''u'', CHR ''0'', CHR ''0'', hex_digit (ord c div 16), hex_digit (ord c mod 16)])"

definition dump_string :: "string \<Rightarrow> string" where
  "dump_string s = [chr 34] @ concat (map dump_char s) @ [chr 34]"

fun dump_float :: "pfloat \<Rightarrow> string" where
  "dump_float (Inf neg) = (if neg then ''-Infinity'' else ''Infinity'')"
| "dump_float NotANumber = ''NaN''"
| "dump_float x = float_repr x"

fun json_dumps :: "json \<Rightarrow> string"
  and dump_items :: "json list \<Rightarrow> string list"
  and dump_members :: "(string \<times> json) list \<Rightarrow> string list" where
  "json_dumps JNull = ''null''"
| "json_dumps (JBool b) = (if b then ''true'' else ''false'')"
| "json_dumps (JInt n) = int_str n"
| "json_dumps (JFloat x) = dump_float x"
| "json_dumps (JStr s) = dump_string s"
| "json_dumps (JArr vs) = ''['' @ join '', '' (dump_items vs) @ '']''"
| "json_dumps (JObj kvs) = ''{'' @ join '', '' (dump_members kvs) @ ''}''"
| "dump_items [] = []"
| "dump_items (v # vs) = json_dumps v # dump_items vs"
| "dump_members [] = []"
| "dump_members ((k, v) # kvs) = (dump_string k @ '': '' @ json_dumps v) # dump_members kvs"

section \<open>\<open>float\<close> of a text\<close>

text \<open>Underscores may stand between digits only.\<close>

fun underscores_between :: "string \<Rightarrow> bool" where
  "underscores_between (c # d # s) =
     ((c = CHR ''_'' \<longrightarrow> is_digit d) \<and> (d = CHR ''_'' \<longrightarrow> is_digit c) \<and> underscores_between (d # s))"
| "underscores_between [c] \<longleftrightarrow> c \<noteq> CHR ''_''"
| "underscores_between [] \<longleftrightarrow> True"

definition float_of_text :: "string \<Rightarrow> pfloat option" where
  "float_of_text text =
     (let s = strip text;
          (neg, body) = parse_sign (filter (\<lambda>c. c \<noteq> CHR ''_'') s);
          t = lower body
      in if \<not> underscores_between s \<or> prefix ''_'' s then None
         else if t = ''inf'' \<or> t = ''infinity'' then Some (Inf neg)
         else if t = ''nan'' then Some NotANumber
         else case parse_finite neg body of
             Some (Num _ c e) \<Rightarrow> Some (pfloat_of neg (of_int c * pow10 e))
           | _ \<Rightarrow> None)"

end
