(* ===== verification/Tier3_LLM.thy ===== *)
theory Tier3_LLM
  imports Resolver PyJson
begin

text \<open>
  The live adjudicator: \<open>python/src/inspector/mapping/tier3_llm.py\<close>. The service behind
  \<open>client.messages.create\<close> is a parameter: a function of its own state, the model name, the token
  limit, the system prompt and the prompt, which raises (\<open>None\<close>) or gives a response with the time
  it took. The state of the adjudicator is its usage counters and whether it holds a client. The
  retry loop is a recursion on the attempts left. The locale \<open>adjudicator\<close> is interpreted for every
  service and every configuration, so the ladder's lemmas hold with a model whose answers are
  arbitrary text.
\<close>

section \<open>Configuration, usage, responses\<close>

definition DEFAULT_MODEL :: string where "DEFAULT_MODEL = ''claude-sonnet-4-6''"
definition MAX_ATTEMPTS :: nat where "MAX_ATTEMPTS = 2"
definition MAX_TOKENS :: int where "MAX_TOKENS = 1500"
definition MAX_MODEL_CONFIDENCE :: rat where "MAX_MODEL_CONFIDENCE = fl (85 / 100)"

definition SYSTEM_PROMPT :: string where
  \<open>SYSTEM_PROMPT = join [chr 10]
    [''You map column headers from financial counterparty reports onto a fixed ''
       @ ''canonical schema used by a reconciliation engine.'',
     [],
     ''Rules:'',
     ''- Only ever use a canonical field from the provided list. Never invent one.'',
     ''- Each canonical field may be used at most once.'',
     ''- If a column does not correspond to any canonical field, return null for it. ''
       @ ''Returning null is correct and expected; a wrong mapping is far worse than none.'',
     ''- Distinguish an execution price from a settlement or mark price carefully. A ''
       @ ''settlement price is a property of an instrument on a day and repeats across ''
       @ ''rows sharing an instrument; an execution price varies per row.'',
     ''- Sample values are usually more informative than the header text.'',
     [],
     ''Respond with JSON only, no prose, in exactly this shape:'',
     ''{"fields": [{"source_field": "...", "canonical_field": "..." or null, ''
       @ ''"confidence": 0.0-1.0, "rationale": "one short sentence"}]}'']\<close>

record usage =
  u_calls :: int
  u_input_tokens :: int
  u_output_tokens :: int
  u_cache_read_tokens :: int
  u_failures :: int
  u_latencies_ms :: "int list"

definition new_usage :: usage where
  "new_usage = \<lparr>u_calls = 0, u_input_tokens = 0, u_output_tokens = 0, u_cache_read_tokens = 0,
     u_failures = 0, u_latencies_ms = []\<rparr>"

definition mean_latency_ms :: "usage \<Rightarrow> rat" where
  "mean_latency_ms u =
     (if u_latencies_ms u = [] then 0
      else fl (of_int (sum_list (u_latencies_ms u)) / of_nat (length (u_latencies_ms u))))"

text \<open>A content block with a text, as an object or as a dictionary, or a block of another type.\<close>

datatype block = TextBlock string | OtherBlock

record token_counts =
  tc_input :: "int option"
  tc_output :: "int option"
  tc_cache_read :: "int option"

record response =
  rs_blocks :: "block list"
  rs_usage :: "token_counts option"

type_synonym 's service = "'s \<Rightarrow> string \<Rightarrow> int \<Rightarrow> string \<Rightarrow> string \<Rightarrow> (response \<times> int) option \<times> 's"

record claude =
  cl_model :: string
  cl_api_key :: string
  cl_max_attempts :: nat

record 's claude_state =
  cs_usage :: usage
  cs_connected :: bool
  cs_service :: 's

text \<open>\<open>_ensure_client\<close>.\<close>

definition ensure_client :: "claude \<Rightarrow> 's claude_state \<Rightarrow> 's claude_state result" where
  "ensure_client cl st =
     (if cs_connected st then Inr st
      else if cl_api_key cl = [] then
        Inl (RuntimeError (''ClaudeAdjudicator requires ANTHROPIC_API_KEY; ''
          @ ''bind DeterministicFake for offline runs''))
      else Inr (st\<lparr>cs_connected := True\<rparr>))"

section \<open>The prompt\<close>

definition sample_line :: "request \<Rightarrow> string \<Rightarrow> string" where
  "sample_line req h =
     (let samples = take 5 (dict_get_or (req_samples req) h []);
          shown = (if samples \<noteq> [] then join '', '' (map repr samples) else ''no samples'')
      in ''- '' @ h @ '': '' @ shown)"

definition build_prompt :: "request \<Rightarrow> string" where
  "build_prompt req = join [chr 10]
     ([''Client: '' @ (if req_client_name req \<noteq> [] then req_client_name req else req_client_id req),
       ''Venue: '' @ (if req_source_hint req \<noteq> [] then req_source_hint req else ''unknown''),
       ''Report type: '' @ req_domain req, [], ''Canonical fields available:'',
       join '', '' (req_candidates req), []]
      @ (if req_resolved req \<noteq> [] then
           [''Already mapped (do not reuse these canonical fields):'',
            join '', '' (map (\<lambda>(k, v). k @ '' -> '' @ v) (sort_key fst (req_resolved req))), []]
         else [])
      @ [''Unresolved columns, with sample values:'']
      @ map (sample_line req) (req_unresolved req))"

section \<open>Reading a response\<close>

definition record_usage :: "response \<Rightarrow> usage \<Rightarrow> usage" where
  "record_usage r u =
     (case rs_usage r of
        None \<Rightarrow> u
      | Some tc \<Rightarrow>
          u\<lparr>u_input_tokens := u_input_tokens u + (case tc_input tc of None \<Rightarrow> 0 | Some n \<Rightarrow> n),
            u_output_tokens := u_output_tokens u + (case tc_output tc of None \<Rightarrow> 0 | Some n \<Rightarrow> n),
            u_cache_read_tokens := u_cache_read_tokens u + (case tc_cache_read tc of None \<Rightarrow> 0 | Some n \<Rightarrow> n)\<rparr>)"

definition response_text :: "response \<Rightarrow> string" where
  "response_text r =
     strip (join [chr 10] (List.map_filter (\<lambda>b. case b of TextBlock t \<Rightarrow> Some t | OtherBlock \<Rightarrow> None)
       (rs_blocks r)))"

text \<open>The text before the first occurrence of a separator.\<close>

fun up_to :: "string \<Rightarrow> string \<Rightarrow> string" where
  "up_to sep [] = []"
| "up_to sep (c # s) = (if prefix sep (c # s) then [] else c # up_to sep s)"

definition response_json :: "string \<Rightarrow> (string \<times> json) list option" where
  "response_json text =
     (let cleaned = strip text;
          cleaned = (if prefix ''```'' cleaned then
              (let inner = up_to ''```'' (drop 3 cleaned) in
               if prefix ''json'' inner then drop 4 inner else inner)
            else cleaned)
      in if CHR ''{'' \<notin> set cleaned \<or> CHR ''}'' \<notin> set cleaned then None
         else (let tail = dropWhile (\<lambda>c. c \<noteq> CHR ''{'') cleaned;
                   slice = rev (dropWhile (\<lambda>c. c \<noteq> CHR ''}'') (rev tail))
               in case json_loads slice of Some (JObj kvs) \<Rightarrow> Some kvs | _ \<Rightarrow> None))"

text \<open>\<open>float\<close> of a decoded value: \<open>None\<close> is the \<open>TypeError\<close> or \<open>ValueError\<close> that \<open>_clamp\<close> catches;
  an integer too large for a double raises what it does not catch.\<close>

fun json_float :: "json \<Rightarrow> pfloat option result" where
  "json_float (JBool b) = Inr (Some (Fin (if b then 1 else 0)))"
| "json_float (JInt n) =
     (if 2 ^ 1024 \<le> fl (of_int \<bar>n\<bar>) then Inl OverflowError else Inr (Some (pfloat_of (n < 0) (of_int \<bar>n\<bar>))))"
| "json_float (JFloat x) = Inr (Some x)"
| "json_float (JStr s) = Inr (float_of_text s)"
| "json_float _ = Inr None"

fun clamp_float :: "pfloat \<Rightarrow> rat" where
  "clamp_float (Fin x) = max 0 (min x MAX_MODEL_CONFIDENCE)"
| "clamp_float (Inf neg) = (if neg then 0 else MAX_MODEL_CONFIDENCE)"
| "clamp_float _ = 0"

definition clamp :: "json \<Rightarrow> rat result" where
  "clamp v = res_bind (json_float v) (\<lambda>f. Inr (case f of
     None \<Rightarrow> fl (7 / 10) | Some x \<Rightarrow> py_round 3 (clamp_float x)))"

text \<open>One item of the answer: what it adds to the output, and the field it takes.\<close>

definition read_item ::
    "request \<Rightarrow> string list \<Rightarrow> (string \<times> json) list \<Rightarrow> adjudicated_field option result" where
  "read_item req taken item =
     (let source = (case dict_get item ''source_field'' of None \<Rightarrow> [] | Some v \<Rightarrow> json_str v);
          canonical = dict_get_or item ''canonical_field'' JNull;
          rationale = take 300 (case dict_get item ''rationale'' of None \<Rightarrow> [] | Some v \<Rightarrow> json_str v)
      in if source \<notin> set (req_unresolved req) then Inr None
         else if canonical = JNull \<or> canonical = JStr [] then
           Inr (Some (answer source None 0 (if rationale \<noteq> [] then rationale else ''declined'')))
         else let f = json_str canonical in
           if f \<notin> set (req_candidates req) \<or> f \<notin> set MAPPABLE_FIELDS then
             Inr (Some (answer source None 0 (''proposed unknown canonical field '' @ repr f @ ''; discarded'')))
           else if f \<in> set taken then
             Inr (Some (answer source None 0 (''proposed '' @ f @ '', which is already assigned'')))
           else res_bind (clamp (dict_get_or item ''confidence'' (JFloat (Fin (fl (7 / 10))))))
             (\<lambda>conf. Inr (Some (answer source (Some f) conf rationale))))"

fun read_items :: "request \<Rightarrow> string list \<Rightarrow> json list \<Rightarrow> adjudicated_field list result" where
  "read_items req taken [] = Inr []"
| "read_items req taken (JObj item # items) =
     res_bind (read_item req taken item) (\<lambda>a.
       case a of
         None \<Rightarrow> read_items req taken items
       | Some f \<Rightarrow>
           res_bind (read_items req (case af_canonical f of None \<Rightarrow> taken | Some c \<Rightarrow> c # taken) items)
             (\<lambda>fs. Inr (f # fs)))"
| "read_items req taken (_ # items) = read_items req taken items"

text \<open>Iterating a decoded value: a text gives its characters and a dictionary its keys; what cannot
  be iterated raises.\<close>

fun iterate :: "json \<Rightarrow> json list result" where
  "iterate (JArr vs) = Inr vs"
| "iterate (JStr s) = Inr (map (\<lambda>c. JStr [c]) s)"
| "iterate (JObj kvs) = Inr (map (JStr \<circ> fst) kvs)"
| "iterate _ = Inl TypeError"

definition unaddressed :: "request \<Rightarrow> adjudicated_field list \<Rightarrow> adjudicated_field list" where
  "unaddressed req fs =
     map (\<lambda>h. answer h None 0 ''not addressed by the model'')
       (filter (\<lambda>h. h \<notin> af_source ` set fs) (req_unresolved req))"

definition parse_response :: "claude \<Rightarrow> usage \<Rightarrow> response \<Rightarrow> request \<Rightarrow> adj_result option result" where
  "parse_response cl u r req =
     (let text = response_text r in
      if text = [] then Inr None
      else case response_json text of
          None \<Rightarrow> Inr None
        | Some payload \<Rightarrow>
            res_bind (iterate (dict_get_or payload ''fields'' (JArr []))) (\<lambda>items.
            res_bind (read_items req (map snd (req_resolved req)) items) (\<lambda>out.
              Inr (if out = [] then None
                   else Some \<lparr>ar_fields = out @ unaddressed req out, ar_model = cl_model cl,
                              ar_input_tokens = u_input_tokens u, ar_output_tokens = u_output_tokens u\<rparr>))))"

section \<open>Adjudication\<close>

definition declined_result :: "claude \<Rightarrow> request \<Rightarrow> string \<Rightarrow> adj_result" where
  "declined_result cl req reason =
     \<lparr>ar_fields = map (\<lambda>h. answer h None 0 reason) (req_unresolved req), ar_model = cl_model cl,
      ar_input_tokens = 0, ar_output_tokens = 0\<rparr>"

text \<open>The loop, with the number of attempts left.\<close>

primrec attempts ::
    "claude \<Rightarrow> 's service \<Rightarrow> request \<Rightarrow> nat \<Rightarrow> 's claude_state \<Rightarrow> (adj_result \<times> 's claude_state) result" where
  "attempts cl create req 0 st = Inr (declined_result cl req ''exhausted attempts'', st)"
| "attempts cl create req (Suc n) st =
     (case create (cs_service st) (cl_model cl) MAX_TOKENS SYSTEM_PROMPT (build_prompt req) of
        (None, s') \<Rightarrow>
          (let st' = st\<lparr>cs_service := s', cs_usage := (cs_usage st)\<lparr>u_failures := u_failures (cs_usage st) + 1\<rparr>\<rparr>
           in if n = 0 then Inr (declined_result cl req ''model unavailable'', st')
              else attempts cl create req n st')
      | (Some (r, latency), s') \<Rightarrow>
          (let u = cs_usage st;
               u' = record_usage r (u\<lparr>u_calls := u_calls u + 1, u_latencies_ms := u_latencies_ms u @ [latency]\<rparr>);
               st' = st\<lparr>cs_service := s', cs_usage := u'\<rparr>
           in res_bind (parse_response cl u' r req) (\<lambda>parsed.
                case parsed of
                  Some res \<Rightarrow> Inr (res, st')
                | None \<Rightarrow>
                    if n = 0 then Inr (declined_result cl req ''model output failed validation'', st')
                    else attempts cl create req n st')))"

definition claude_adjudicate ::
    "claude \<Rightarrow> 's service \<Rightarrow> 's claude_state \<Rightarrow> request \<Rightarrow> (adj_result \<times> 's claude_state) result" where
  "claude_adjudicate cl create st req =
     (if req_unresolved req = [] then
        Inr (\<lparr>ar_fields = [], ar_model = cl_model cl, ar_input_tokens = 0, ar_output_tokens = 0\<rparr>, st)
      else res_bind (ensure_client cl st) (attempts cl create req (cl_max_attempts cl)))"

text \<open>Which adjudicator a configuration selects.\<close>

datatype adjudicator_kind = Fake | Claude

definition build_adjudicator :: "string option \<Rightarrow> string option \<Rightarrow> adjudicator_kind" where
  "build_adjudicator kind env =
     (let choice = lower (case kind of Some k \<Rightarrow> if k \<noteq> [] then k else (case env of None \<Rightarrow> ''fake'' | Some e \<Rightarrow> e)
                          | None \<Rightarrow> (case env of None \<Rightarrow> ''fake'' | Some e \<Rightarrow> e))
      in if choice = ''claude'' then Claude else Fake)"

section \<open>What an answer can contain\<close>

lemma confidence_ceiling:
  "fl (7 / 10) \<le> MAX_MODEL_CONFIDENCE" "py_round 3 MAX_MODEL_CONFIDENCE = MAX_MODEL_CONFIDENCE"
  "0 \<le> fl (7 / 10)" "0 \<le> MAX_MODEL_CONFIDENCE"
  by code_simp+

lemma clamp_float_bounds: "0 \<le> clamp_float x \<and> clamp_float x \<le> MAX_MODEL_CONFIDENCE"
  using confidence_ceiling(4) by (cases x) auto

lemma clamp_bounds: "clamp v = Inr c \<Longrightarrow> 0 \<le> c \<and> c \<le> MAX_MODEL_CONFIDENCE"
  using confidence_ceiling py_round_mono [of _ MAX_MODEL_CONFIDENCE 3] clamp_float_bounds
  by (auto simp: clamp_def res_bind_Inr_iff py_round_nonneg split: option.splits)

definition field_fine :: "request \<Rightarrow> string list \<Rightarrow> adjudicated_field \<Rightarrow> bool" where
  "field_fine req taken f \<longleftrightarrow>
     af_source f \<in> set (req_unresolved req)
     \<and> (case af_canonical f of None \<Rightarrow> af_confidence f = 0
        | Some c \<Rightarrow> c \<in> set MAPPABLE_FIELDS \<and> c \<in> set (req_candidates req) \<and> c \<notin> set taken
            \<and> 0 \<le> af_confidence f \<and> af_confidence f \<le> MAX_MODEL_CONFIDENCE)"

lemma read_item_fine: "read_item req taken item = Inr (Some f) \<Longrightarrow> field_fine req taken f"
  by (auto simp: read_item_def field_fine_def Let_def res_bind_Inr_iff clamp_bounds split: if_splits)

lemma field_fine_less: "field_fine req taken f \<Longrightarrow> set free \<subseteq> set taken \<Longrightarrow> field_fine req free f"
  by (auto simp: field_fine_def split: option.splits)

lemma read_items_fine:
  "read_items req taken items = Inr fs \<Longrightarrow> list_all (field_fine req taken) fs \<and> distinct (fields_of fs)"
proof (induction req taken items arbitrary: fs rule: read_items.induct)
  case (2 req taken item items)
  from "2.prems" obtain a where a: "read_item req taken item = Inr a"
    by (auto simp: res_bind_Inr_iff)
  show ?case
  proof (cases a)
    case None
    with 2 a show ?thesis by simp
  next
    case (Some f)
    define taken' where "taken' = (case af_canonical f of None \<Rightarrow> taken | Some c \<Rightarrow> c # taken)"
    from "2.prems" a Some obtain gs where g: "read_items req taken' items = Inr gs" and fs: "fs = f # gs"
      by (auto simp: res_bind_Inr_iff taken'_def)
    have ih: "list_all (field_fine req taken') gs" "distinct (fields_of gs)"
      using "2.IH"(2) [of f] g by (simp_all add: taken'_def)
    have "set taken \<subseteq> set taken'" by (auto simp: taken'_def split: option.splits)
    then have "list_all (field_fine req taken) gs"
      using ih(1) field_fine_less by (auto simp: list_all_iff)
    moreover have "c \<notin> set (fields_of gs)" if "af_canonical f = Some c" for c
      using ih(1) that by (auto simp: taken'_def list_all_iff in_fields_of field_fine_def)
    ultimately show ?thesis
      using ih(2) read_item_fine a Some by (auto simp: fs split: option.splits)
  qed
qed auto

text \<open>Where a result comes from: the fallback, or a response that was read.\<close>

lemma attempts_result:
  "attempts cl create req n st = Inr (r, st') \<Longrightarrow>
   (\<exists>reason. r = declined_result cl req reason) \<or> (\<exists>u resp. parse_response cl u resp req = Inr (Some r))"
  by (induction n arbitrary: st)
    (auto simp: Let_def res_bind_Inr_iff split: prod.splits option.splits if_splits)

lemma claude_result:
  assumes "claude_adjudicate cl create st req = Inr (r, st')"
  shows "(req_unresolved req = [] \<and> ar_fields r = []) \<or> (\<exists>reason. r = declined_result cl req reason)
    \<or> (\<exists>u resp. parse_response cl u resp req = Inr (Some r))"
  using assms attempts_result
  by (fastforce simp: claude_adjudicate_def res_bind_Inr_iff split: if_splits)

definition result_fine :: "request \<Rightarrow> adj_result \<Rightarrow> bool" where
  "result_fine req r \<longleftrightarrow>
     list_all (field_fine req (map snd (req_resolved req))) (ar_fields r)
     \<and> distinct (answered_fields r) \<and> set (req_unresolved req) \<subseteq> af_source ` set (ar_fields r)"

lemma fields_of_append [simp]: "fields_of (xs @ ys) = fields_of xs @ fields_of ys"
  by (induction xs) (auto split: option.splits)

lemma fields_of_declined [simp]: "fields_of (map (\<lambda>h. answer h None c w) hs) = []"
  by (induction hs) auto

lemma declined_fine: "result_fine req (declined_result cl req reason)"
  by (auto simp: result_fine_def declined_result_def answered_fields_def field_fine_def list_all_iff image_image)

lemma unaddressed_fine: "list_all (field_fine req taken) (unaddressed req fs)" "fields_of (unaddressed req fs) = []"
  by (auto simp: unaddressed_def field_fine_def list_all_iff)

lemma parse_response_fine:
  assumes "parse_response cl u resp req = Inr (Some r)"
  shows "result_fine req r"
proof -
  obtain items out where out: "read_items req (map snd (req_resolved req)) items = Inr out"
    and r: "ar_fields r = out @ unaddressed req out"
    using assms by (auto simp: parse_response_def Let_def res_bind_Inr_iff split: if_splits option.splits)
  have "set (req_unresolved req) \<subseteq> af_source ` set (ar_fields r)"
  proof
    fix h
    assume h: "h \<in> set (req_unresolved req)"
    show "h \<in> af_source ` set (ar_fields r)"
    proof (cases "h \<in> af_source ` set out")
      case False
      with h have "answer h None 0 ''not addressed by the model'' \<in> set (ar_fields r)"
        by (simp add: r unaddressed_def)
      then show ?thesis by (rule rev_image_eqI) simp
    qed (auto simp: r)
  qed
  then show ?thesis
    using read_items_fine [OF out] unaddressed_fine
    by (auto simp: result_fine_def r answered_fields_def)
qed

lemma claude_fine:
  assumes "claude_adjudicate cl create st req = Inr (r, st')"
  shows "result_fine req r"
proof -
  consider "req_unresolved req = []" "ar_fields r = []" | reason where "r = declined_result cl req reason"
    | u resp where "parse_response cl u resp req = Inr (Some r)"
    using claude_result [OF assms] by blast
  then show ?thesis
    by cases (simp_all add: declined_fine parse_response_fine, simp add: result_fine_def answered_fields_def)
qed

interpretation claude: adjudicator "claude_adjudicate cl create" for cl :: claude and create :: "'s service"
proof
  fix st st' :: "'s claude_state" and req r f
  assume "claude_adjudicate cl create st req = Inr (r, st')"
  then have fine: "result_fine req r" by (rule claude_fine)
  then show "f \<in> set (ar_fields r) \<Longrightarrow> af_source f \<in> set (req_unresolved req)"
    by (auto simp: result_fine_def list_all_iff field_fine_def)
  show "set (req_unresolved req) \<subseteq> af_source ` set (ar_fields r)" "distinct (answered_fields r)"
    using fine by (simp_all add: result_fine_def)
  show "set (answered_fields r) \<subseteq> set MAPPABLE_FIELDS - set (map snd (req_resolved req))"
  proof
    fix c
    assume "c \<in> set (answered_fields r)"
    then obtain f where f: "f \<in> set (ar_fields r)" "af_canonical f = Some c"
      by (auto simp: answered_fields_def in_fields_of)
    then have "field_fine req (map snd (req_resolved req)) f"
      using fine by (simp add: result_fine_def list_all_iff)
    with f(2) show "c \<in> set MAPPABLE_FIELDS - set (map snd (req_resolved req))"
      by (simp add: field_fine_def)
  qed
qed

interpretation claude_ladder: ladder pg_get pg_put pg_view "claude_adjudicate cl create"
  for cl :: claude and create :: "'s service"
  by unfold_locales

section \<open>Attempts and their cost\<close>

definition tries :: "'s claude_state \<Rightarrow> int" where
  "tries st = u_calls (cs_usage st) + u_failures (cs_usage st)"

lemma record_usage_counts [simp]:
  "u_calls (record_usage r u) = u_calls u" "u_failures (record_usage r u) = u_failures u"
  "u_latencies_ms (record_usage r u) = u_latencies_ms u"
  by (simp_all add: record_usage_def split: option.splits)

lemma attempts_tries:
  "attempts cl create req n st = Inr (r, st') \<Longrightarrow> tries st \<le> tries st' \<and> tries st' \<le> tries st + int n"
proof (induction n arbitrary: st)
  case (Suc n)
  then show ?case
    by (fastforce simp: Let_def res_bind_Inr_iff tries_def split: prod.splits option.splits if_splits)
qed simp

lemma ensure_client_usage: "ensure_client cl st = Inr st' \<Longrightarrow> cs_usage st' = cs_usage st \<and> cs_service st' = cs_service st"
  by (auto simp: ensure_client_def split: if_splits)

lemma attempts_failure:
  assumes "create (cs_service st) (cl_model cl) MAX_TOKENS SYSTEM_PROMPT (build_prompt req) = (None, s')"
  shows "attempts cl create req (Suc n) st =
    (let st' = st\<lparr>cs_service := s', cs_usage := (cs_usage st)\<lparr>u_failures := u_failures (cs_usage st) + 1\<rparr>\<rparr>
     in if n = 0 then Inr (declined_result cl req ''model unavailable'', st') else attempts cl create req n st')"
  by (simp add: assms)

lemma attempts_outage:
  assumes "\<And>s m k sys p. fst (create s m k sys p) = None"
  shows "\<exists>st'. attempts cl create req (Suc n) st = Inr (declined_result cl req ''model unavailable'', st')
    \<and> u_failures (cs_usage st') = u_failures (cs_usage st) + int (Suc n)
    \<and> u_calls (cs_usage st') = u_calls (cs_usage st)"
proof (induction n arbitrary: st)
  case 0
  obtain s' where "create (cs_service st) (cl_model cl) MAX_TOKENS SYSTEM_PROMPT (build_prompt req) = (None, s')"
    using assms by (metis prod.collapse)
  then show ?case by (simp add: Let_def)
next
  case (Suc n)
  obtain s' where c: "create (cs_service st) (cl_model cl) MAX_TOKENS SYSTEM_PROMPT (build_prompt req) = (None, s')"
    using assms by (metis prod.collapse)
  let ?st = "st\<lparr>cs_service := s', cs_usage := (cs_usage st)\<lparr>u_failures := u_failures (cs_usage st) + 1\<rparr>\<rparr>"
  have "attempts cl create req (Suc (Suc n)) st = attempts cl create req (Suc n) ?st"
    using attempts_failure [of create st cl req s' "Suc n"] c by (simp only: Let_def nat.distinct if_False)
  moreover have "u_failures (cs_usage ?st) = u_failures (cs_usage st) + 1" "u_calls (cs_usage ?st) = u_calls (cs_usage st)"
    by simp_all
  ultimately show ?case using Suc.IH [of ?st] by (simp add: algebra_simps del: attempts.simps)
qed

section \<open>Properties\<close>



text \<open>The ladder keeps the columns' fields distinct and mappable with the live model bound, for
  every service.\<close>

lemma claude_ladder_distinct:
  assumes "make_table hs rs ev ws = Inr t"
    and "resolve_table pg_get pg_put (Some (claude_adjudicate cl create)) ex em [] j t (st, c, w)
      = Inr (oc, st', c', w')"
    and "extractor_ok ex" and "emb_ok st"
    and "\<forall>f k l. pg_view c f k = Some l \<longrightarrow> snd ` set l \<subseteq> set MAPPABLE_FIELDS"
  shows "map source_field (o_mappings oc) = hs
    \<and> distinct (resolved_fields (o_mappings oc))
    \<and> set (resolved_fields (o_mappings oc)) \<subseteq> set MAPPABLE_FIELDS"
proof -
  obtain ms0 where m: "map_table [] t = Inr ms0"
    using resolve_table_parts [OF assms(2)] by blast
  have f: "fields_ok ms0" and src: "map source_field ms0 = hs"
    using map_table_fields [OF assms(1) m] by (simp_all add: fields_ok_def)
  have "fields_ok (o_mappings oc)"
    using claude_ladder.resolve_table_ok(1) [OF assms(2) _ assms(3,4) _ m f] assms(5)
    by (simp add: claude_ladder.cache_ok_def)
  moreover have "map source_field (o_mappings oc) = hs"
    using extends_sources [OF resolve_table_extends [OF assms(2) m]] src by simp
  ultimately show ?thesis by (simp add: fields_ok_def)
qed

section \<open>Example\<close>

text \<open>A service that always answers with the same text: one column mapped, one to a field that does
  not exist.\<close>

definition sample_text :: string where
  \<open>sample_text = ''{"fields":[{"source_field":"a","canonical_field":"side"},{"source_field":"b","canonical_field":"px"}]}''\<close>

definition sample_service :: "unit service" where
  "sample_service s m k sys p =
     (Some (\<lparr>rs_blocks = [TextBlock sample_text], rs_usage = None\<rparr>, 120), s)"

definition sample_claude :: claude where
  "sample_claude = \<lparr>cl_model = ''m'', cl_api_key = ''key'', cl_max_attempts = MAX_ATTEMPTS\<rparr>"

definition sample_state :: "unit claude_state" where
  "sample_state = \<lparr>cs_usage = new_usage, cs_connected = False, cs_service = ()\<rparr>"

definition sample_request :: request where
  "sample_request = \<lparr>req_client_id = ''acme'', req_client_name = [], req_source_hint = [],
     req_domain = ''TRADE'', req_fingerprint = ''f1'', req_unresolved = [''a'', ''b''],
     req_resolved = [], req_samples = [], req_candidates = [''account_id'', ''side'']\<rparr>"

lemma sample_payload:
  "response_json sample_text = Some [(''fields'', JArr [JObj [(''source_field'', JStr ''a''), (''canonical_field'', JStr ''side'')],
     JObj [(''source_field'', JStr ''b''), (''canonical_field'', JStr ''px'')]])]"
  by code_simp

lemma sample_response_text: "response_text \<lparr>rs_blocks = [TextBlock sample_text], rs_usage = None\<rparr> = sample_text"
  by code_simp

lemma sample_items:
  "case read_items sample_request [] [JObj [(''source_field'', JStr ''a''), (''canonical_field'', JStr ''side'')],
       JObj [(''source_field'', JStr ''b''), (''canonical_field'', JStr ''px'')]] of
     Inr fs \<Rightarrow> map (\<lambda>f. (af_source f, af_canonical f)) fs = [(''a'', Some ''side''), (''b'', None)]
   | Inl _ \<Rightarrow> False"
  by code_simp

lemma sample_answer:
  obtains r st where "claude_adjudicate sample_claude sample_service sample_state sample_request = Inr (r, st)"
    "map (\<lambda>f. (af_source f, af_canonical f)) (ar_fields r) = [(''a'', Some ''side''), (''b'', None)]"
    "tries st = 1"
proof -
  obtain fs where fs: "read_items sample_request [] [JObj [(''source_field'', JStr ''a''), (''canonical_field'', JStr ''side'')],
      JObj [(''source_field'', JStr ''b''), (''canonical_field'', JStr ''px'')]] = Inr fs"
    "map (\<lambda>f. (af_source f, af_canonical f)) fs = [(''a'', Some ''side''), (''b'', None)]"
    using sample_items by (auto split: sum.splits)
  have ne: "fs \<noteq> []" "sample_text \<noteq> []" using fs(2) by (auto simp: sample_text_def)
  have src: "af_source ` set fs = {''a'', ''b''}"
    using arg_cong [OF fs(2), of "\<lambda>ps. fst ` set ps"] by (simp add: image_image)
  have "unaddressed sample_request fs = []"
    by (simp add: unaddressed_def src sample_request_def)
  then show ?thesis
    using that fs ne
    by (auto simp: claude_adjudicate_def ensure_client_def sample_service_def sample_response_text sample_payload
        parse_response_def dict_get_or_def sample_claude_def sample_state_def MAX_ATTEMPTS_def new_usage_def
        numeral_2_eq_2 tries_def Let_def sample_request_def [THEN arg_cong, of req_unresolved]
        sample_request_def [THEN arg_cong, of req_resolved])
qed


text \<open>A service that is down.\<close>

definition no_service :: "unit service" where
  "no_service s m k sys p = (None, s)"

lemma sample_start:
  "cl_max_attempts sample_claude = 2" "cl_api_key sample_claude \<noteq> []"
  "req_unresolved sample_request \<noteq> []" "u_failures (cs_usage sample_state) = 0" "tries sample_state = 0"
  by (simp_all add: sample_claude_def MAX_ATTEMPTS_def sample_request_def sample_state_def new_usage_def
      tries_def)


lemma no_service_total: "total_adjudicator (Some (claude_adjudicate sample_claude no_service))"
proof -
  have "fst (no_service s m k sys p) = None" for s m k sys p by (simp add: no_service_def)
  then have att: "\<exists>x. attempts sample_claude no_service req (Suc (Suc 0)) st = Inr x" for st req
    using attempts_outage [of no_service sample_claude req "Suc 0" st] by blast
  have "\<exists>x. claude_adjudicate sample_claude no_service st req = Inr x" for st req
  proof -
    obtain st1 where "ensure_client sample_claude st = Inr st1"
      by (cases "cs_connected st") (auto simp: ensure_client_def sample_claude_def)
    moreover have "cl_max_attempts sample_claude = Suc (Suc 0)"
      by (simp add: sample_claude_def MAX_ATTEMPTS_def)
    ultimately show ?thesis using att by (simp add: claude_adjudicate_def del: attempts.simps)
  qed
  then show ?thesis by (simp add: total_adjudicator_def)
qed

lemma claude_ladder_distinct_witness:
  "\<exists>oc s. resolve_table pg_get pg_put (Some (claude_adjudicate sample_claude no_service)) exact_extract no_model []
       ladder_job ladder_table (Unloaded, empty_rows, sample_state) = Inr (oc, s)
     \<and> map source_field (o_mappings oc) = [''zz acct'']"
proof -
  obtain ms0 where m: "map_table [] ladder_table = Inr ms0"
    using ladder_tier1 by (cases "map_table [] ladder_table") auto
  obtain oc st c w where r: "resolve_table pg_get pg_put (Some (claude_adjudicate sample_claude no_service))
      exact_extract no_model [] ladder_job ladder_table (Unloaded, empty_rows, sample_state) = Inr (oc, st, c, w)"
    using resolve_table_total [OF no_service_total m] by (metis surj_pair)
  then show ?thesis
    using claude_ladder_distinct [OF ladder_table_made r exact_extract_ok unloaded_ok ladder_start] by auto
qed

end
