(* ===== verification/Tabular.thy ===== *)
theory Tabular
  imports ParsedTable PyFloat PyJson "HOL-Library.Product_Lexorder"
begin

text \<open>
  What the delimited and the workbook parser have in common (\<open>delimited.py\<close>, \<open>excel.py\<close>, which
  repeat this code): the words that mark a summary line, the modal width of a grid, the score of a
  header row and the search for it, the suffixes of repeated headers and the row built from a record.
\<close>

definition TOTAL_MARKERS :: "string set" where
  "TOTAL_MARKERS = {''total'', ''totals'', ''grandtotal'', ''subtotal'', ''sum'', ''count'', ''endofreport'',
     ''eof'', ''end''}"

definition MAX_HEADER_SEARCH_ROWS :: nat where
  "MAX_HEADER_SEARCH_ROWS = 25"

definition norm_cell :: "string \<Rightarrow> string" where
  "norm_cell s = filter is_alnum (lower s)"

text \<open>Whether \<open>float(s)\<close> returns; the second equation decides it without the value.\<close>

definition numeric_text :: "string \<Rightarrow> bool" where
  "numeric_text s \<longleftrightarrow> s \<noteq> [] \<and> float_of_text s \<noteq> None"

lemma numeric_text_code [code]:
  "numeric_text s =
     (let t = strip s; (neg, body) = parse_sign (filter (\<lambda>c. c \<noteq> CHR ''_'') t)
      in s \<noteq> [] \<and> underscores_between t \<and> \<not> prefix ''_'' t
         \<and> (lower body \<in> {''inf'', ''infinity'', ''nan''}
              \<or> (case parse_finite neg body of Some (Num _ c e) \<Rightarrow> True | _ \<Rightarrow> False)))"
  by (auto simp: numeric_text_def float_of_text_def Let_def split: prod.splits option.splits decimal.splits)

text \<open>\<open>max(set(widths), key=lambda w: (widths.count(w), w))\<close>: the key has no ties.\<close>

definition modal_width :: "nat list \<Rightarrow> nat" where
  "modal_width widths = (case first_max (\<lambda>w. (count_list widths w, w)) (uniq widths) of None \<Rightarrow> 0 | Some w \<Rightarrow> w)"

section \<open>Finding the header row\<close>

text \<open>The score of a row from the number of its text cells, of its filled cells and of all its cells.\<close>

definition header_score :: "nat \<Rightarrow> nat \<Rightarrow> nat \<Rightarrow> bool \<Rightarrow> nat \<Rightarrow> rat" where
  "header_score texts filled width modal idx =
     (let s = fl (2 * fl (of_nat texts / of_nat filled));
          s = fl (s + (if modal then 3 / 2 else 0));
          s = fl (s + fl (of_nat filled / of_nat (max width 1)))
      in fl (s - fl (fl (15 / 100) * of_nat idx)))"

text \<open>The loop over the first rows: a row without a filled cell has no score, and \<open>None\<close> is minus infinity.\<close>

primrec best_index :: "(nat \<Rightarrow> rat option) \<Rightarrow> nat list \<Rightarrow> nat \<times> rat option \<Rightarrow> nat \<times> rat option" where
  "best_index sc [] b = b"
| "best_index sc (i # js) b =
     best_index sc js
       (case sc i of
          None \<Rightarrow> b
        | Some s \<Rightarrow> (case snd b of None \<Rightarrow> (i, Some s) | Some t \<Rightarrow> if t < s then (i, Some s) else b))"

definition header_index :: "(nat \<Rightarrow> rat option) \<Rightarrow> nat \<Rightarrow> nat" where
  "header_index sc n = fst (best_index sc [0..<min n MAX_HEADER_SEARCH_ROWS] (0, None))"

lemma best_index_result:
  assumes "best_index sc js b = b'" and "snd b = None \<or> snd b = sc (fst b)"
  shows "fst b' \<in> insert (fst b) (set js)"
    and "\<forall>i \<in> set js. \<forall>s. sc i = Some s \<longrightarrow> (\<exists>t. snd b' = Some t \<and> s \<le> t)"
    and "\<forall>s. snd b = Some s \<longrightarrow> (\<exists>t. snd b' = Some t \<and> s \<le> t)"
    and "snd b' = None \<or> snd b' = sc (fst b')"
proof -
  have "fst b' \<in> insert (fst b) (set js)
      \<and> (\<forall>i \<in> set js. \<forall>s. sc i = Some s \<longrightarrow> (\<exists>t. snd b' = Some t \<and> s \<le> t))
      \<and> (\<forall>s. snd b = Some s \<longrightarrow> (\<exists>t. snd b' = Some t \<and> s \<le> t))
      \<and> (snd b' = None \<or> snd b' = sc (fst b'))"
    using assms
  proof (induction js arbitrary: b)
    case Nil
    then show ?case by simp
  next
    case (Cons i js)
    let ?b = "case sc i of None \<Rightarrow> b
        | Some s \<Rightarrow> (case snd b of None \<Rightarrow> (i, Some s) | Some t \<Rightarrow> if t < s then (i, Some s) else b)"
    have step: "snd ?b = None \<or> snd ?b = sc (fst ?b)" "fst ?b \<in> {fst b, i}"
      "\<forall>s. sc i = Some s \<longrightarrow> (\<exists>t. snd ?b = Some t \<and> s \<le> t)"
      "\<forall>s. snd b = Some s \<longrightarrow> (\<exists>t. snd ?b = Some t \<and> s \<le> t)"
      using Cons.prems(2) by (auto split: option.split)
    from Cons.prems(1) have run: "best_index sc js ?b = b'" by simp
    note IH = Cons.IH [OF run step(1)]
    have le: "\<exists>t. snd b' = Some t \<and> s \<le> t" if "\<exists>t. snd ?b = Some t \<and> s \<le> t" for s
      using that IH order.trans by blast
    show ?case using IH step le by auto
  qed
  then show "fst b' \<in> insert (fst b) (set js)"
    and "\<forall>i \<in> set js. \<forall>s. sc i = Some s \<longrightarrow> (\<exists>t. snd b' = Some t \<and> s \<le> t)"
    and "\<forall>s. snd b = Some s \<longrightarrow> (\<exists>t. snd b' = Some t \<and> s \<le> t)"
    and "snd b' = None \<or> snd b' = sc (fst b')" by blast+
qed

lemma header_index_less: "0 < n \<Longrightarrow> header_index sc n < n"
  unfolding header_index_def
  using best_index_result(1) [OF refl, of "(0, None)" sc "[0..<min n MAX_HEADER_SEARCH_ROWS]"] by auto

lemma header_index_best:
  assumes "i < n" and "i < MAX_HEADER_SEARCH_ROWS" and "sc i = Some s"
  shows "\<exists>t. sc (header_index sc n) = Some t \<and> s \<le> t"
proof -
  let ?b = "best_index sc [0..<min n MAX_HEADER_SEARCH_ROWS] (0, None)"
  have "\<exists>t. snd ?b = Some t \<and> s \<le> t"
    using best_index_result(2) [OF refl, of "(0, None)" sc "[0..<min n MAX_HEADER_SEARCH_ROWS]"] assms by auto
  moreover have "snd ?b = None \<or> snd ?b = sc (fst ?b)"
    using best_index_result(4) [OF refl, of "(0, None)" sc "[0..<min n MAX_HEADER_SEARCH_ROWS]"] by simp
  ultimately show ?thesis by (auto simp: header_index_def)
qed

section \<open>Repeated headers\<close>

primrec rename_repeats :: "string list \<Rightarrow> (string, nat) dict \<Rightarrow> string list" where
  "rename_repeats [] seen = []"
| "rename_repeats (n # ns) seen =
     (case dict_get seen n of
        Some k \<Rightarrow> (n @ ''__'' @ nat_str (k + 1)) # rename_repeats ns (dict_set n (k + 1) seen)
      | None \<Rightarrow> n # rename_repeats ns (dict_set n 0 seen))"

lemma length_rename_repeats [simp]: "length (rename_repeats ns seen) = length ns"
  by (induction ns arbitrary: seen) (simp_all split: option.split)

lemma nat_str_no_underscore: "CHR ''_'' \<notin> set (nat_str n)"
proof
  assume "CHR ''_'' \<in> set (nat_str n)"
  then have "is_digit (CHR ''_'')" using dec_str_digits [of "int n"] by (simp add: nat_str_dec)
  then show False by (simp add: is_digit_def)
qed

lemma suffixed_inj:
  assumes "m @ ''__'' @ nat_str j = n @ ''__'' @ nat_str k"
  shows "m = n \<and> j = k"
proof -
  have tail: "takeWhile (\<lambda>c. c \<noteq> CHR ''_'') (rev (m @ ''__'' @ nat_str j)) = rev (nat_str j)" for m j
  proof -
    have "\<forall>c \<in> set (rev (nat_str j)). c \<noteq> CHR ''_''" using nat_str_no_underscore [of j] by auto
    then show ?thesis by (simp add: takeWhile_append)
  qed
  have "rev (nat_str j) = rev (nat_str k)" by (metis assms tail)
  then show ?thesis using assms nat_str_inj [of j k] by simp
qed

lemma set_rename_repeats:
  "h \<in> set (rename_repeats ns seen) \<Longrightarrow>
     (h \<in> set ns \<and> dict_get seen h = None)
     \<or> (\<exists>n \<in> set ns. \<exists>k. h = n @ ''__'' @ nat_str k
          \<and> (case dict_get seen n of None \<Rightarrow> True | Some j \<Rightarrow> j < k))"
proof (induction ns arbitrary: seen)
  case (Cons n ns)
  show ?case
  proof (cases "dict_get seen n")
    case None
    with Cons.prems consider "h = n" | "h \<in> set (rename_repeats ns (dict_set n 0 seen))" by auto
    then show ?thesis
    proof cases
      case 1
      with None show ?thesis by simp
    next
      case 2
      from Cons.IH [OF this] None show ?thesis by (fastforce split: if_splits option.splits)
    qed
  next
    case (Some k)
    with Cons.prems consider "h = n @ ''__'' @ nat_str (k + 1)"
      | "h \<in> set (rename_repeats ns (dict_set n (k + 1) seen))" by auto
    then show ?thesis
    proof cases
      case 1
      with Some show ?thesis by force
    next
      case 2
      from Cons.IH [OF this] Some show ?thesis by (fastforce split: if_splits option.splits)
    qed
  qed
qed simp

text \<open>Without a double underscore in the names the suffixes keep them apart.\<close>

lemma distinct_rename_repeats:
  assumes "\<forall>n \<in> set ns. \<not> contains ''__'' n"
  shows "distinct (rename_repeats ns seen)"
  using assms
proof (induction ns arbitrary: seen)
  case (Cons n ns)
  have suffixed: "contains ''__'' (m @ ''__'' @ x)" for m x
    unfolding contains_iff by (rule sublist_appendI)
  show ?case
  proof (cases "dict_get seen n")
    case None
    have "n \<notin> set (rename_repeats ns (dict_set n 0 seen))"
    proof
      assume "n \<in> set (rename_repeats ns (dict_set n 0 seen))"
      from set_rename_repeats [OF this] obtain m k where "n = m @ ''__'' @ nat_str k" by auto
      with Cons.prems suffixed [of m "nat_str k"] show False by simp
    qed
    with None Cons show ?thesis by simp
  next
    case (Some j)
    let ?h = "n @ ''__'' @ nat_str (j + 1)"
    have "?h \<notin> set (rename_repeats ns (dict_set n (j + 1) seen))"
    proof
      assume "?h \<in> set (rename_repeats ns (dict_set n (j + 1) seen))"
      from set_rename_repeats [OF this] consider "?h \<in> set ns"
        | m k where "?h = m @ ''__'' @ nat_str k"
            "case dict_get (dict_set n (j + 1) seen) m of None \<Rightarrow> True | Some i \<Rightarrow> i < k" by blast
      then show False
      proof cases
        case 1
        with Cons.prems suffixed [of n "nat_str (j + 1)"] show False by auto
      next
        case 2
        with suffixed_inj [OF 2(1)] show False by simp
      qed
    qed
    with Some Cons show ?thesis by simp
  qed
qed simp

section \<open>Rows\<close>

text \<open>\<open>{h: cells[i] if i < len(cells) else "" for i, h in enumerate(headers)}\<close>.\<close>

definition row_of :: "string list \<Rightarrow> string list \<Rightarrow> row" where
  "row_of hs cells = dict_of (map (\<lambda>(i, h). (h, if i < length cells then cells ! i else [])) (List.enumerate 0 hs))"

lemma keys_enumerate: "map fst (map (\<lambda>(i, h). (h, f i)) (List.enumerate n hs)) = hs"
  by (induction hs arbitrary: n) simp_all

lemma row_of_keys: "distinct (dict_keys (row_of hs cells)) \<and> set (dict_keys (row_of hs cells)) = set hs"
proof
  show "distinct (dict_keys (row_of hs cells))" unfolding row_of_def by (rule distinct_dict_of)
  show "set (dict_keys (row_of hs cells)) = set hs"
    unfolding row_of_def by (simp only: dict_of_keys set_map [symmetric] keys_enumerate)
qed

lemma row_of_cell:
  assumes "distinct hs" and "i < length hs"
  shows "cell (row_of hs cells) (hs ! i) = (if i < length cells then cells ! i else [])"
proof -
  let ?f = "\<lambda>i. if i < length cells then cells ! i else []"
  let ?ps = "map (\<lambda>(i, h). (h, ?f i)) (List.enumerate 0 hs)"
  have "(i, hs ! i) \<in> set (List.enumerate 0 hs)" using assms(2) by (simp add: in_set_enumerate_eq)
  then have "(hs ! i, ?f i) \<in> set ?ps"
    unfolding set_map by (rule rev_image_eqI) simp
  moreover have "distinct (map fst ?ps)" using assms(1) by (simp only: keys_enumerate)
  ultimately show ?thesis unfolding row_of_def dict_get_or_def using dict_of_get_distinct by fastforce
qed

end
