(* ===== verification/PyBytes.thy ===== *)
theory PyBytes
  imports PyText
begin

text \<open>
  Bytes as text: \<open>bytes.decode("utf-8-sig")\<close>, strict and with \<open>errors="ignore"\<close>,
  \<open>bytes.decode("latin-1")\<close> and \<open>str.splitlines\<close>. A byte is a \<^typ>\<open>char\<close>, so Latin-1 is the identity.
  The decoder reads one unit at a time: a sequence of the length its first byte announces, or the
  longest part of one that is well formed, which is an error. Characters from 256 on are outside
  the model's text: one is read as \<open>chr 255\<close>.
\<close>

section \<open>UTF-8\<close>

definition utf8_need :: "nat \<Rightarrow> nat option" where
  "utf8_need n =
     (if n < 128 then Some 0 else if 194 \<le> n \<and> n \<le> 223 then Some 1
      else if 224 \<le> n \<and> n \<le> 239 then Some 2 else if 240 \<le> n \<and> n \<le> 244 then Some 3 else None)"

definition is_cont :: "char \<Rightarrow> bool" where
  "is_cont c \<longleftrightarrow> 128 \<le> ord c \<and> ord c \<le> 191"

text \<open>The second byte excludes overlong forms, surrogates and what lies beyond the last code point.\<close>

definition second_ok :: "nat \<Rightarrow> char \<Rightarrow> bool" where
  "second_ok n c \<longleftrightarrow> is_cont c \<and> (n = 224 \<longrightarrow> 160 \<le> ord c) \<and> (n = 237 \<longrightarrow> ord c \<le> 159)
     \<and> (n = 240 \<longrightarrow> 144 \<le> ord c) \<and> (n = 244 \<longrightarrow> ord c \<le> 143)"

definition utf8_tail :: "nat \<Rightarrow> string \<Rightarrow> string" where
  "utf8_tail n cs =
     (case utf8_need n of
        None \<Rightarrow> []
      | Some k \<Rightarrow>
          (case take k cs of [] \<Rightarrow> [] | d # ds \<Rightarrow> if second_ok n d then d # takeWhile is_cont ds else []))"

definition utf8_value :: "nat \<Rightarrow> string \<Rightarrow> nat" where
  "utf8_value n ds =
     foldl (\<lambda>v d. 64 * v + (ord d - 128))
       (case length ds of 0 \<Rightarrow> n | Suc 0 \<Rightarrow> n - 192 | Suc (Suc 0) \<Rightarrow> n - 224 | _ \<Rightarrow> n - 240) ds"

text \<open>The units of a byte sequence: \<open>None\<close> is an error.\<close>

function utf8 :: "string \<Rightarrow> nat option list" where
  "utf8 [] = []"
| "utf8 (c # cs) =
     (let ds = utf8_tail (ord c) cs in
      (if utf8_need (ord c) = Some (length ds) then Some (utf8_value (ord c) ds) else None)
        # utf8 (drop (length ds) cs))"
  by pat_completeness auto
termination
  by (relation "measure length") auto

definition text_char :: "nat \<Rightarrow> char" where
  "text_char n = (if n < 256 then chr n else chr 255)"

definition BOM :: string where
  "BOM = [chr 239, chr 187, chr 191]"

definition drop_bom :: "string \<Rightarrow> string" where
  "drop_bom raw = (if prefix BOM raw then drop 3 raw else raw)"

definition utf8_strict :: "string \<Rightarrow> string option" where
  "utf8_strict raw =
     (let us = utf8 (drop_bom raw) in
      if None \<in> set us then None else Some (map text_char (List.map_filter id us)))"

definition utf8_ignore :: "string \<Rightarrow> string" where
  "utf8_ignore raw = map text_char (List.map_filter id (utf8 (drop_bom raw)))"

text \<open>\<open>raw.decode("utf-8-sig")\<close>, and \<open>raw.decode("latin-1")\<close> where it fails.\<close>

definition decode_or_latin1 :: "string \<Rightarrow> string" where
  "decode_or_latin1 raw = (case utf8_strict raw of Some t \<Rightarrow> t | None \<Rightarrow> raw)"

lemma utf8_ignore_strict: "utf8_strict raw = Some t \<Longrightarrow> utf8_ignore raw = t"
  by (auto simp: utf8_strict_def utf8_ignore_def Let_def split: if_splits)

definition ascii :: "string \<Rightarrow> bool" where
  "ascii s \<longleftrightarrow> list_all (\<lambda>c. ord c < 128) s"

lemma utf8_ascii: "ascii s \<Longrightarrow> utf8 s = map (\<lambda>c. Some (ord c)) s"
  by (induction s) (simp_all add: ascii_def utf8_tail_def utf8_need_def utf8_value_def)

lemma utf8_strict_ascii:
  assumes "ascii s"
  shows "utf8_strict s = Some s"
proof -
  have "drop_bom s = s" using assms by (cases s) (auto simp: drop_bom_def BOM_def ascii_def)
  moreover have "List.map_filter id (map (\<lambda>c. Some (ord c)) s) = map ord s"
    by (induction s) (simp_all add: List.map_filter_simps)
  moreover have "map text_char (map ord s) = s"
    using assms by (induction s) (auto simp: ascii_def text_char_def)
  ultimately show ?thesis
    using assms by (auto simp: utf8_strict_def utf8_ascii Let_def)
qed

section \<open>Lines\<close>

definition line_end :: "char \<Rightarrow> bool" where
  "line_end c \<longleftrightarrow> (let n = ord c in (10 \<le> n \<and> n \<le> 13) \<or> (28 \<le> n \<and> n \<le> 30) \<or> n = 133)"

lemma dropWhile_shorter: "dropWhile P s = e # rest \<Longrightarrow> length rest < length s"
  using length_dropWhile_le [of P s] by simp

text \<open>\<open>text.splitlines()\<close>: a carriage return and the line feed after it end one line.\<close>

function splitlines :: "string \<Rightarrow> string list" where
  "splitlines s =
     (if s = [] then []
      else (case dropWhile (\<lambda>c. \<not> line_end c) s of
              [] \<Rightarrow> [s]
            | e # rest \<Rightarrow>
                takeWhile (\<lambda>c. \<not> line_end c) s
                  # splitlines (if e = chr 13 \<and> prefix [chr 10] rest then tl rest else rest)))"
  by pat_completeness auto

termination
  by (relation "measure length") (auto dest!: dropWhile_shorter)

declare splitlines.simps [simp del]

lemma splitlines_Nil [simp]: "splitlines [] = []"
  by (simp add: splitlines.simps)

text \<open>No line has more characters than the text.\<close>

lemma set_splitlines: "l \<in> set (splitlines s) \<Longrightarrow> set l \<subseteq> set s"
proof (induction s rule: splitlines.induct)
  case (1 s)
  show ?case
  proof (cases "dropWhile (\<lambda>c. \<not> line_end c) s")
    case Nil
    with "1.prems" show ?thesis by (simp only: splitlines.simps [of s]) (auto split: if_splits)
  next
    case (Cons e rest)
    let ?r = "if e = chr 13 \<and> prefix [chr 10] rest then tl rest else rest"
    have ne: "s \<noteq> []" using Cons by auto
    have sub: "set ?r \<subseteq> set s"
      using Cons set_dropWhileD [of _ "\<lambda>c. \<not> line_end c" s] by (cases rest) auto
    have "l = takeWhile (\<lambda>c. \<not> line_end c) s \<or> l \<in> set (splitlines ?r)"
      using "1.prems" ne Cons by (simp only: splitlines.simps [of s]) simp
    then show ?thesis
    proof
      assume "l = takeWhile (\<lambda>c. \<not> line_end c) s"
      then show ?thesis using set_takeWhileD by fastforce
    next
      assume "l \<in> set (splitlines ?r)"
      from "1.IH" [OF ne Cons this] sub show ?thesis by blast
    qed
  qed
qed

lemma sublist_strip: "sublist (strip s) s"
proof -
  have s: "suffix (lstrip s) s" unfolding lstrip_def by (rule suffix_dropWhile)
  have "suffix (dropWhile is_space (rev (lstrip s))) (rev (lstrip s))" by (rule suffix_dropWhile)
  then have "prefix (strip s) (lstrip s)" by (simp add: strip_def rstrip_def suffix_to_prefix)
  with s show ?thesis by (meson prefix_imp_sublist suffix_imp_sublist sublist_order.order.trans)
qed

end
