(* ===== verification/PyCsv.thy ===== *)
theory PyCsv
  imports PyText
begin

text \<open>
  \<open>csv.reader\<close> with the excel dialect and a delimiter of its own, as the reader of the standard
  library is written: a state machine fed the characters of one line after the other, with an
  end-of-line mark (\<open>None\<close>) after each; a record ends when the machine is back in its first state.
  The lines are the ones \<open>io.StringIO(text)\<close> gives: they end at a line feed and keep it. Two inputs
  raise \<open>csv.Error\<close>: a field of more than \<open>FIELD_LIMIT\<close> characters and a character after a bare
  carriage return.
\<close>

section \<open>The machine\<close>

datatype csv_mode = StartRecord | StartField | InField | InQuoted | QuoteInQuoted | EatCrnl

text \<open>The characters of the open field and the closed fields of the record, both in order.\<close>

record csv_state =
  cs_mode :: csv_mode
  cs_field :: string
  cs_fields :: "string list"

definition csv_start :: csv_state where
  "csv_start = \<lparr>cs_mode = StartRecord, cs_field = [], cs_fields = []\<rparr>"

definition FIELD_LIMIT :: int where
  "FIELD_LIMIT = 131072"

definition QUOTE :: char where "QUOTE = chr 34"
definition NL :: char where "NL = chr 10"
definition CR :: char where "CR = chr 13"

definition save_field :: "csv_mode \<Rightarrow> csv_state \<Rightarrow> csv_state" where
  "save_field m st = st\<lparr>cs_mode := m, cs_field := [], cs_fields := cs_fields st @ [cs_field st]\<rparr>"

definition add_char :: "csv_mode \<Rightarrow> char \<Rightarrow> csv_state \<Rightarrow> csv_state result" where
  "add_char m c st =
     (if FIELD_LIMIT \<le> int (length (cs_field st)) then Inl CsvError
      else Inr (st\<lparr>cs_mode := m, cs_field := cs_field st @ [c]\<rparr>))"

definition ends_line :: "char option \<Rightarrow> bool" where
  "ends_line x \<longleftrightarrow> x = None \<or> x = Some NL \<or> x = Some CR"

definition end_mode :: "char option \<Rightarrow> csv_mode" where
  "end_mode x = (if x = None then StartRecord else EatCrnl)"

definition in_start_field :: "char \<Rightarrow> char option \<Rightarrow> csv_state \<Rightarrow> csv_state result" where
  "in_start_field d x st =
     (if ends_line x then Inr (save_field (end_mode x) st)
      else if x = Some QUOTE then Inr (st\<lparr>cs_mode := InQuoted\<rparr>)
      else if x = Some d then Inr (save_field StartField st)
      else add_char InField (the x) st)"

definition csv_char :: "char \<Rightarrow> char option \<Rightarrow> csv_state \<Rightarrow> csv_state result" where
  "csv_char d x st =
     (case cs_mode st of
        StartRecord \<Rightarrow>
          if x = None then Inr st
          else if ends_line x then Inr (st\<lparr>cs_mode := EatCrnl\<rparr>)
          else in_start_field d x st
      | StartField \<Rightarrow> in_start_field d x st
      | InField \<Rightarrow>
          if ends_line x then Inr (save_field (end_mode x) st)
          else if x = Some d then Inr (save_field StartField st)
          else add_char InField (the x) st
      | InQuoted \<Rightarrow>
          if x = None then Inr st
          else if x = Some QUOTE then Inr (st\<lparr>cs_mode := QuoteInQuoted\<rparr>)
          else add_char InQuoted (the x) st
      | QuoteInQuoted \<Rightarrow>
          if x = Some QUOTE then add_char InQuoted QUOTE st
          else if x = Some d then Inr (save_field StartField st)
          else if ends_line x then Inr (save_field (end_mode x) st)
          else add_char InField (the x) st
      | EatCrnl \<Rightarrow>
          if x = None then Inr (st\<lparr>cs_mode := StartRecord\<rparr>)
          else if ends_line x then Inr st
          else Inl CsvError)"

primrec csv_chars :: "char \<Rightarrow> char option list \<Rightarrow> csv_state \<Rightarrow> csv_state result" where
  "csv_chars d [] st = Inr st"
| "csv_chars d (x # xs) st = res_bind (csv_char d x st) (csv_chars d xs)"

definition csv_line :: "char \<Rightarrow> string \<Rightarrow> csv_state \<Rightarrow> csv_state result" where
  "csv_line d l st = csv_chars d (map Some l @ [None]) st"

text \<open>What is left in an open quoted field when the lines end is a field too.\<close>

primrec csv_rows :: "char \<Rightarrow> string list \<Rightarrow> csv_state \<Rightarrow> string list list result" where
  "csv_rows d [] st =
     Inr (if cs_field st \<noteq> [] \<or> cs_mode st = InQuoted then [cs_fields (save_field StartRecord st)] else [])"
| "csv_rows d (l # ls) st =
     res_bind (csv_line d l st) (\<lambda>st'.
       if cs_mode st' = StartRecord
       then res_bind (csv_rows d ls csv_start) (\<lambda>rs. Inr (cs_fields st' # rs))
       else csv_rows d ls st')"

text \<open>The lines of \<open>io.StringIO(text)\<close>.\<close>

fun io_lines :: "string \<Rightarrow> string \<Rightarrow> string list" where
  "io_lines l [] = (if l = [] then [] else [l])"
| "io_lines l (c # s) = (if c = NL then (l @ [c]) # io_lines [] s else io_lines (l @ [c]) s)"

definition csv_grid :: "char \<Rightarrow> string \<Rightarrow> string list list result" where
  "csv_grid d t = csv_rows d (io_lines [] t) csv_start"

section \<open>A writer\<close>

text \<open>
  What a counterparty that quotes every field sends (RFC 4180): quotes are doubled, records end with
  a carriage return and a line feed, and a field may hold anything.
\<close>

definition write_field :: "string \<Rightarrow> string" where
  "write_field f = [QUOTE] @ concat (map (\<lambda>c. if c = QUOTE then [QUOTE, QUOTE] else [c]) f) @ [QUOTE]"

definition write_record :: "char \<Rightarrow> string list \<Rightarrow> string" where
  "write_record d fs = join [d] (map write_field fs) @ [CR, NL]"

definition write_records :: "char \<Rightarrow> string list list \<Rightarrow> string" where
  "write_records d rs = concat (map (write_record d) rs)"

section \<open>The machine on a text\<close>

text \<open>
  The reader without the detour over lines: the mark comes after each line feed, and at the end of
  the text when its last line is open.
\<close>

definition csv_emit :: "csv_state \<Rightarrow> (csv_state \<Rightarrow> string list list result) \<Rightarrow> string list list result" where
  "csv_emit st k =
     (if cs_mode st = StartRecord then res_bind (k csv_start) (\<lambda>rs. Inr (cs_fields st # rs)) else k st)"

fun csv_text :: "char \<Rightarrow> bool \<Rightarrow> string \<Rightarrow> csv_state \<Rightarrow> string list list result" where
  "csv_text d op [] st =
     (if op then res_bind (csv_char d None st) (\<lambda>st'. csv_emit st' (csv_rows d [])) else csv_rows d [] st)"
| "csv_text d op (c # s) st =
     res_bind (csv_char d (Some c) st) (\<lambda>st1.
       if c = NL then res_bind (csv_char d None st1) (\<lambda>st2. csv_emit st2 (csv_text d False s))
       else csv_text d True s st1)"

lemma csv_chars_append:
  "csv_chars d (xs @ ys) st = res_bind (csv_chars d xs st) (csv_chars d ys)"
proof (induction xs arbitrary: st)
  case (Cons x xs)
  then show ?case by (cases "csv_char d x st") simp_all
qed simp

lemma csv_line_mark: "csv_line d l st = res_bind (csv_chars d (map Some l) st) (csv_char d None)"
proof -
  have "res_bind r (csv_chars d []) = r" for r by (cases r) simp_all
  then have "csv_chars d [None] = csv_char d None" by (intro ext) simp
  then show ?thesis by (simp add: csv_line_def csv_chars_append)
qed

lemma csv_rows_emit:
  "csv_rows d (l # ls) st = res_bind (csv_line d l st) (\<lambda>st'. csv_emit st' (csv_rows d ls))"
  by (simp add: csv_emit_def cong: if_cong)

lemma csv_emit_mono:
  assumes "csv_emit st k = Inr rs" and "\<And>st rs. k st = Inr rs \<Longrightarrow> k' st = Inr rs"
  shows "csv_emit st k' = Inr rs"
  using assms by (auto simp: csv_emit_def res_bind_Inr_iff split: if_splits)

lemma csv_text_lines:
  assumes "csv_chars d (map Some l) st = Inr st'" and "csv_text d (l \<noteq> []) s st' = Inr rs"
  shows "csv_rows d (io_lines l s) st = Inr rs"
  using assms
proof (induction s arbitrary: l st st' rs)
  case Nil
  then show ?case
    by (cases "l = []") (auto simp: csv_line_mark csv_rows_emit simp del: csv_rows.simps(2))
next
  case (Cons c s)
  from Cons.prems(2) obtain st1 where st1: "csv_char d (Some c) st' = Inr st1"
    by (auto simp: res_bind_Inr_iff)
  show ?case
  proof (cases "c = NL")
    case True
    with Cons.prems(2) st1 obtain st2 where
      st2: "csv_char d None st1 = Inr st2" "csv_emit st2 (csv_text d False s) = Inr rs"
      by (auto simp: res_bind_Inr_iff)
    have "csv_emit st2 (csv_rows d (io_lines [] s)) = Inr rs"
      using st2(2) by (rule csv_emit_mono) (use Cons.IH [of "[]"] in simp)
    with True Cons.prems(1) st1 st2(1) show ?thesis
      by (simp add: csv_rows_emit csv_line_mark csv_chars_append del: csv_rows.simps(2))
  next
    case False
    with Cons.prems st1 have "csv_chars d (map Some (l @ [c])) st = Inr st1"
      and "csv_text d (l @ [c] \<noteq> []) s st1 = Inr rs"
      by (simp_all add: csv_chars_append)
    from Cons.IH [OF this] False show ?thesis by simp
  qed
qed

section \<open>Reading back what was written\<close>

definition plain_delimiter :: "char \<Rightarrow> bool" where
  "plain_delimiter d \<longleftrightarrow> d \<noteq> QUOTE \<and> d \<noteq> NL \<and> d \<noteq> CR"

lemma special_chars [simp]:
  "QUOTE \<noteq> NL" "QUOTE \<noteq> CR" "NL \<noteq> CR" "NL \<noteq> QUOTE" "CR \<noteq> QUOTE" "CR \<noteq> NL"
  by (simp_all add: QUOTE_def NL_def CR_def)

lemma plain_delimiterD:
  assumes "plain_delimiter d"
  shows "d \<noteq> QUOTE" "d \<noteq> NL" "d \<noteq> CR" "QUOTE \<noteq> d" "NL \<noteq> d" "CR \<noteq> d"
  using assms by (auto simp: plain_delimiter_def)

lemma read_quoted:
  assumes "cs_mode st = InQuoted" and "int (length (cs_field st @ f)) \<le> FIELD_LIMIT"
  shows "csv_text d op (concat (map (\<lambda>c. if c = QUOTE then [QUOTE, QUOTE] else [c]) f) @ QUOTE # rest) st
       = csv_text d True rest (st\<lparr>cs_mode := QuoteInQuoted, cs_field := cs_field st @ f\<rparr>)"
  using assms
proof (induction f arbitrary: st op)
  case Nil
  then show ?case by (simp add: csv_char_def)
next
  case (Cons c f)
  let ?st = "st\<lparr>cs_mode := InQuoted, cs_field := cs_field st @ [c]\<rparr>"
  have small: "\<not> FIELD_LIMIT \<le> int (length (cs_field st))" using Cons.prems(2) by simp
  have IH: "csv_text d op' (concat (map (\<lambda>c. if c = QUOTE then [QUOTE, QUOTE] else [c]) f) @ QUOTE # rest) ?st
      = csv_text d True rest (st\<lparr>cs_mode := QuoteInQuoted, cs_field := cs_field st @ c # f\<rparr>)" for op'
    using Cons.IH [of ?st op'] Cons.prems(2) by simp
  show ?case
    using Cons.prems(1) small IH
    by (cases "c = NL"; cases "c = QUOTE") (auto simp: csv_char_def add_char_def csv_emit_def)
qed

lemma read_field:
  assumes "cs_mode st \<in> {StartRecord, StartField}" and "cs_field st = []" and "int (length f) \<le> FIELD_LIMIT"
  shows "csv_text d op (write_field f @ rest) st
       = csv_text d True rest (st\<lparr>cs_mode := QuoteInQuoted, cs_field := f\<rparr>)"
  using assms read_quoted [of "st\<lparr>cs_mode := InQuoted\<rparr>" f d True rest]
  by (auto simp: write_field_def csv_char_def in_start_field_def ends_line_def)

lemma read_record:
  assumes "plain_delimiter d" and "fs \<noteq> []" and "\<forall>f \<in> set fs. int (length f) \<le> FIELD_LIMIT"
    and "cs_mode st \<in> {StartRecord, StartField}" and "cs_field st = []"
  shows "csv_text d op (write_record d fs @ rest) st
       = res_bind (csv_text d False rest csv_start) (\<lambda>rs. Inr ((cs_fields st @ fs) # rs))"
  using assms
proof (induction fs arbitrary: st op)
  case (Cons f fs)
  let ?st = "st\<lparr>cs_mode := QuoteInQuoted, cs_field := f\<rparr>"
  have first: "csv_text d op (write_field f @ s) st = csv_text d True s ?st" for s
    using Cons.prems by (intro read_field) simp_all
  show ?case
  proof (cases fs)
    case Nil
    then show ?thesis
      using first plain_delimiterD [OF Cons.prems(1)]
      by (simp add: write_record_def csv_char_def ends_line_def save_field_def end_mode_def csv_emit_def)
  next
    case (Cons g gs)
    let ?st' = "save_field StartField ?st"
    have "csv_text d op (write_record d (f # fs) @ rest) st = csv_text d True (d # write_record d fs @ rest) ?st"
      using first Cons by (simp add: write_record_def)
    also have "\<dots> = csv_text d True (write_record d fs @ rest) ?st'"
      using plain_delimiterD [OF Cons.prems(1)] by (simp add: csv_char_def)
    also have "\<dots> = res_bind (csv_text d False rest csv_start) (\<lambda>rs. Inr ((cs_fields ?st' @ fs) # rs))"
      by (rule Cons.IH) (use Cons Cons.prems in \<open>auto simp: save_field_def\<close>)
    finally show ?thesis by (simp add: save_field_def)
  qed
qed simp

lemma read_empty_record:
  "csv_text d False (write_record d [] @ rest) csv_start
     = res_bind (csv_text d False rest csv_start) (\<lambda>rs. Inr ([] # rs))"
  by (simp add: write_record_def csv_start_def csv_char_def ends_line_def csv_emit_def)

lemma read_records:
  assumes "plain_delimiter d" and "\<forall>fs \<in> set rs. \<forall>f \<in> set fs. int (length f) \<le> FIELD_LIMIT"
  shows "csv_text d False (write_records d rs) csv_start = Inr rs"
  using assms(2)
proof (induction rs)
  case Nil
  then show ?case by (simp add: write_records_def csv_start_def)
next
  case (Cons fs rs)
  then have IH: "csv_text d False (write_records d rs) csv_start = Inr rs" by simp
  show ?case
  proof (cases "fs = []")
    case True
    with IH show ?thesis using read_empty_record [of d "write_records d rs"] by (simp add: write_records_def)
  next
    case False
    with Cons.prems IH read_record [OF assms(1) False, of csv_start False "write_records d rs"] show ?thesis
      by (simp add: write_records_def csv_start_def)
  qed
qed

lemma csv_grid_write:
  assumes "plain_delimiter d" and "\<forall>fs \<in> set rs. \<forall>f \<in> set fs. int (length f) \<le> FIELD_LIMIT"
  shows "csv_grid d (write_records d rs) = Inr rs"
  unfolding csv_grid_def using csv_text_lines [of d "[]" csv_start csv_start] read_records [OF assms] by simp

text \<open>The reader fails in one way only.\<close>

lemma csv_char_error: "csv_char d x st = Inl e \<Longrightarrow> e = CsvError"
  by (auto simp: csv_char_def in_start_field_def add_char_def split: csv_mode.splits if_splits)

lemma csv_chars_error: "csv_chars d xs st = Inl e \<Longrightarrow> e = CsvError"
  by (induction xs arbitrary: st) (auto simp: res_bind_def csv_char_error split: sum.splits)

lemma csv_rows_error: "csv_rows d ls st = Inl e \<Longrightarrow> e = CsvError"
  by (induction ls arbitrary: st)
    (auto simp: res_bind_def csv_line_def csv_chars_error split: sum.splits if_splits)

lemma csv_grid_error: "csv_grid d t = Inl e \<Longrightarrow> e = CsvError"
  by (simp add: csv_grid_def csv_rows_error)

end
