(* ===== verification/DelimitedParser.thy ===== *)
theory DelimitedParser
  imports Tabular PyBytes PyCsv
begin

text \<open>
  Delimited text: \<open>python/src/inspector/parsers/delimited.py\<close>. The delimiter is voted for by the
  first lines, the reader of \<^verbatim>\<open>PyCsv\<close> gives the grid, the header is searched among its first rows
  and what follows is rows or summary lines. The vote looks at the set of the counts, and a set has
  an order of its own: \<open>set_order\<close> is that order, an argument of the definitions.
\<close>

definition CANDIDATE_DELIMITERS :: string where
  "CANDIDATE_DELIMITERS = [CHR '','', chr 9, CHR ''|'', CHR '';'']"

definition looks_numeric :: "string \<Rightarrow> bool" where
  "looks_numeric c =
     (let stripped = remove_chars (\<lambda>x. x \<in> {CHR '','', CHR ''$'', CHR ''%''}) (strip c);
          inner = (if prefix ''('' stripped \<and> suffix '')'' stripped then butlast (tl stripped) else stripped)
      in numeric_text inner)"

definition blank :: "string \<Rightarrow> bool" where
  "blank s \<longleftrightarrow> strip s = []"

section \<open>The delimiter\<close>

text \<open>The counts of a delimiter in the lines that have it.\<close>

definition delim_counts :: "char \<Rightarrow> string list \<Rightarrow> nat list" where
  "delim_counts d lines = filter (\<lambda>n. 0 < n) (map (\<lambda>l. count_list l d) lines)"

definition modal_count :: "(nat list \<Rightarrow> nat list) \<Rightarrow> nat list \<Rightarrow> nat" where
  "modal_count set_order counts =
     (case first_max (count_list counts) (set_order counts) of None \<Rightarrow> 0 | Some m \<Rightarrow> m)"

definition count_agreement :: "nat list \<Rightarrow> nat \<Rightarrow> rat" where
  "count_agreement counts modal = fl (of_nat (count_list counts modal) / of_nat (length counts))"

text \<open>One candidate against the best so far, its score and its agreement.\<close>

definition vote ::
    "(nat list \<Rightarrow> nat list) \<Rightarrow> string list \<Rightarrow> char \<Rightarrow> char option \<times> rat \<times> rat \<Rightarrow> char option \<times> rat \<times> rat" where
  "vote set_order lines d best =
     (let counts = delim_counts d lines in
      if length counts < max 2 (length lines div 3) then best
      else
        let modal = modal_count set_order counts; agreement = count_agreement counts modal;
            sc = fl (agreement * min 1 (fl (of_nat modal / 6)))
        in if fst (snd best) < sc then (Some d, sc, agreement) else best)"

definition best_delimiter :: "(nat list \<Rightarrow> nat list) \<Rightarrow> string list \<Rightarrow> char option \<times> rat" where
  "best_delimiter set_order lines =
     (let (d, _, agreement) = fold (vote set_order lines) CANDIDATE_DELIMITERS (None, 0, 0) in (d, agreement))"

definition sample_lines :: "string \<Rightarrow> string list" where
  "sample_lines t = take 20 (filter (\<lambda>l. \<not> blank l) (splitlines t))"

definition delimited_sniff :: "(nat list \<Rightarrow> nat list) \<Rightarrow> string \<Rightarrow> string \<Rightarrow> rat" where
  "delimited_sniff set_order head name =
     (case utf8_strict head of
        None \<Rightarrow> 0
      | Some t \<Rightarrow>
          let stripped = lstrip t; lines = sample_lines t in
          if stripped = [] \<or> hd stripped \<in> {CHR ''<'', CHR ''{'', CHR ''[''} then 0
          else if length lines < 2 then 0
          else (case best_delimiter set_order lines of
                  (None, _) \<Rightarrow> 0
                | (Some _, consistency) \<Rightarrow>
                    let s = fl (fl (35 / 100) + fl (consistency / 2));
                        s = (if list_ex (\<lambda>e. suffix e (lower name)) [''.csv'', ''.tsv'', ''.txt'', ''.psv'']
                             then fl (s + fl (1 / 10)) else s)
                    in min s (fl (97 / 100))))"

section \<open>The header\<close>

definition row_score :: "string list list \<Rightarrow> nat \<Rightarrow> rat option" where
  "row_score grid idx =
     (let r = grid ! idx; filled = filter (\<lambda>c. \<not> blank c) r in
      if filled = [] then None
      else Some (header_score (length (filter (\<lambda>c. \<not> looks_numeric c) filled)) (length filled) (length r)
                   (length r = modal_width (map length grid)) idx))"

definition find_header_row :: "string list list \<Rightarrow> nat" where
  "find_header_row grid = header_index (row_score grid) (length grid)"

definition first_filled :: "string list \<Rightarrow> string" where
  "first_filled r = (case find (\<lambda>c. \<not> blank c) r of None \<Rightarrow> [] | Some c \<Rightarrow> c)"

definition is_total_row :: "string list \<Rightarrow> bool" where
  "is_total_row r \<longleftrightarrow> norm_cell (first_filled r) \<in> TOTAL_MARKERS"

definition header_name :: "nat \<Rightarrow> string \<Rightarrow> string" where
  "header_name i h = (if strip h = [] then ''column_'' @ nat_str (i + 1) else strip h)"

definition dedupe :: "string list \<Rightarrow> string list" where
  "dedupe hs = rename_repeats (map (\<lambda>(i, h). header_name i h) (List.enumerate 0 hs)) []"

section \<open>The table\<close>

text \<open>The loop below the header: rows, warnings of long records, number of summary lines.\<close>

primrec read_rows :: "string list \<Rightarrow> string list list \<Rightarrow> row list \<times> string list \<times> nat" where
  "read_rows hs [] = ([], [], 0)"
| "read_rows hs (r # rs) =
     (let (rows, warns, dropped) = read_rows hs rs in
      if is_total_row r then (rows, warns, Suc dropped)
      else (row_of hs (map strip (take (length hs) r)) # rows,
            (if length hs < length r then [''row had more cells than headers; extra cells ignored''] else []) @ warns,
            dropped))"

definition delimiter_name :: "char \<Rightarrow> string" where
  "delimiter_name d = (if d = CHR '','' then ''comma'' else if d = chr 9 then ''tab''
     else if d = CHR ''|'' then ''pipe'' else ''semicolon'')"

definition table_of :: "char \<Rightarrow> bool \<Rightarrow> string list list \<Rightarrow> parsed_table result" where
  "table_of d bom grid =
     (let idx = find_header_row grid;
          headers = dedupe (grid ! idx);
          (rows, warns, dropped) = read_rows headers (drop (idx + 1) grid)
      in make_table headers rows
           [(''delimiter'', delimiter_name d), (''header_row_index'', nat_str idx),
            (''encoding'', if bom then ''utf-8-bom'' else ''utf-8'')]
           ((if 0 < idx then [''skipped '' @ nat_str idx @ '' preamble row(s) above the header''] else [])
            @ warns
            @ (if 0 < dropped then [''excluded '' @ nat_str dropped @ '' summary row(s)''] else [])))"

definition nonblank_rows :: "string list list \<Rightarrow> string list list" where
  "nonblank_rows grid = filter (\<lambda>r. \<exists>c \<in> set r. \<not> blank c) grid"

definition delimited_parse :: "(nat list \<Rightarrow> nat list) \<Rightarrow> string \<Rightarrow> parsed_table result" where
  "delimited_parse set_order raw =
     (let t = decode_or_latin1 raw in
      if list_all blank (splitlines t) then Inl (ParseError ''file is empty'')
      else
        case fst (best_delimiter set_order (sample_lines t)) of
          None \<Rightarrow> Inl (ParseError ''no delimiter could be determined'')
        | Some d \<Rightarrow>
            res_bind (csv_grid d t) (\<lambda>records.
              let grid = nonblank_rows records in
              if grid = [] then Inl (ParseError ''file contains no non-empty rows'')
              else table_of d (prefix BOM raw) grid))"

section \<open>Lemmas\<close>

lemma vote_candidate:
  assumes "fst best = None \<or> (\<exists>c \<in> set CANDIDATE_DELIMITERS. fst best = Some c)"
    and "d \<in> set CANDIDATE_DELIMITERS"
  shows "fst (vote so lines d best) = None \<or> (\<exists>c \<in> set CANDIDATE_DELIMITERS. fst (vote so lines d best) = Some c)"
  using assms by (auto simp: vote_def Let_def)

lemma best_delimiter_candidate:
  assumes "fst (best_delimiter so lines) = Some d"
  shows "d \<in> set CANDIDATE_DELIMITERS"
proof -
  let ?ok = "\<lambda>best. fst best = None \<or> (\<exists>c \<in> set CANDIDATE_DELIMITERS. fst best = Some c)"
  have "?ok best \<Longrightarrow> set ds \<subseteq> set CANDIDATE_DELIMITERS \<Longrightarrow> ?ok (fold (vote so lines) ds best)" for ds best
    using vote_candidate by (induction ds arbitrary: best) auto
  from this [of "(None, 0, 0)" CANDIDATE_DELIMITERS] assms show ?thesis
    by (auto simp: best_delimiter_def split: prod.splits)
qed

lemma candidates_plain: "d \<in> set CANDIDATE_DELIMITERS \<Longrightarrow> plain_delimiter d"
proof -
  have "list_all plain_delimiter CANDIDATE_DELIMITERS" by code_simp
  then show "d \<in> set CANDIDATE_DELIMITERS \<Longrightarrow> plain_delimiter d" by (simp add: list_all_iff)
qed

lemma read_rows_eq:
  "read_rows hs rs =
     (map (\<lambda>r. row_of hs (map strip (take (length hs) r))) (filter (\<lambda>r. \<not> is_total_row r) rs),
      map (\<lambda>_. ''row had more cells than headers; extra cells ignored'')
        (filter (\<lambda>r. \<not> is_total_row r \<and> length hs < length r) rs),
      length (filter is_total_row rs))"
  by (induction rs) (simp_all add: Let_def)

lemma header_in_grid: "grid \<noteq> [] \<Longrightarrow> find_header_row grid < length grid"
  unfolding find_header_row_def by (rule header_index_less) simp

lemma length_dedupe [simp]: "length (dedupe hs) = length hs"
  by (simp add: dedupe_def)

lemma delimited_parse_Inr:
  assumes "delimited_parse so raw = Inr t"
  obtains d records where "d \<in> set CANDIDATE_DELIMITERS" "csv_grid d (decode_or_latin1 raw) = Inr records"
    "nonblank_rows records \<noteq> []" "table_of d (prefix BOM raw) (nonblank_rows records) = Inr t"
  using assms best_delimiter_candidate
  by (fastforce simp: delimited_parse_def Let_def res_bind_Inr_iff split: if_splits option.splits)

lemma table_of_Inr:
  assumes "table_of d bom grid = Inr t" and "hs = dedupe (grid ! find_header_row grid)"
  shows "distinct hs" and "t_headers t = hs"
    and "t_rows t = map (\<lambda>r. row_of hs (map strip (take (length hs) r)))
           (filter (\<lambda>r. \<not> is_total_row r) (drop (find_header_row grid + 1) grid))"
  using assms by (auto simp: table_of_def read_rows_eq Let_def make_table_Inr)

lemma delimited_parse_square:
  assumes "delimited_parse so raw = Inr t" and "r \<in> set (t_rows t)"
  shows "distinct (dict_keys r) \<and> set (dict_keys r) = set (t_headers t)"
proof -
  from assms(1) obtain d records where "table_of d (prefix BOM raw) (nonblank_rows records) = Inr t"
    by (rule delimited_parse_Inr)
  note table = table_of_Inr(2,3) [OF this refl]
  from assms(2) table obtain cells where "r = row_of (t_headers t) cells" by auto
  then show ?thesis using row_of_keys by blast
qed

text \<open>A header that is named after nothing but itself has a double underscore only if a cell has.\<close>

lemma header_name_plain:
  assumes "\<not> contains ''__'' h"
  shows "\<not> contains ''__'' (header_name i h)"
proof (cases "strip h = []")
  case True
  have "CHR ''_'' \<notin> set (nat_str (i + 1))" by (rule nat_str_no_underscore)
  have "\<not> sublist ''__'' (''column_'' @ nat_str (i + 1))"
  proof
    assume "sublist ''__'' (''column_'' @ nat_str (i + 1))"
    then obtain p s where e: "''column_'' @ nat_str (i + 1) = p @ ''__'' @ s" by (auto simp: sublist_def)
    then have "count_list (''column_'' @ nat_str (i + 1)) (CHR ''_'') = count_list (p @ ''__'' @ s) (CHR ''_'')"
      by (rule arg_cong)
    then show False
      using \<open>CHR ''_'' \<notin> set (nat_str (i + 1))\<close> by (simp add: count_notin)
  qed
  with True show ?thesis by (simp add: header_name_def contains_iff)
next
  case False
  have "sublist (strip h) h" by (rule sublist_strip)
  with False assms show ?thesis
    by (metis contains_iff header_name_def sublist_order.order.trans)
qed

lemma dedupe_distinct:
  assumes "\<forall>h \<in> set hs. \<not> contains ''__'' h"
  shows "distinct (dedupe hs)"
  unfolding dedupe_def
proof (rule distinct_rename_repeats, rule ballI)
  fix n assume "n \<in> set (map (\<lambda>(i, h). header_name i h) (List.enumerate 0 hs))"
  then obtain i h where "(i, h) \<in> set (List.enumerate 0 hs)" "n = header_name i h" by auto
  moreover from this(1) have "h \<in> set hs" by (auto simp: in_set_enumerate_eq)
  ultimately show "\<not> contains ''__'' n" using assms header_name_plain by blast
qed

section \<open>Properties\<close>

text \<open>C27. The reader and a writer that quotes every field are inverse: whatever quotes, delimiters and
  line ends the fields hold, each of the delimiters the parser tries gives back the records.\<close>

theorem csv_roundtrip:
  assumes "d \<in> set CANDIDATE_DELIMITERS"
    and "\<forall>fs \<in> set rs. \<forall>f \<in> set fs. int (length f) \<le> FIELD_LIMIT"
  shows "csv_grid d (write_records d rs) = Inr rs"
  using csv_grid_write [OF candidates_plain [OF assms(1)] assms(2)] .

definition sample_records :: "string list list" where
  "sample_records = [[''Id'', ''Note''], [''T1'', [QUOTE, CHR '','', NL, CR, CHR ''x'']], [], [[]]]"

theorem csv_roundtrip_witness:
  "csv_grid (CHR '','') (write_records (CHR '','') sample_records) = Inr sample_records"
proof (rule csv_roundtrip)
  show "CHR '','' \<in> set CANDIDATE_DELIMITERS" by code_simp
  show "\<forall>fs \<in> set sample_records. \<forall>f \<in> set fs. int (length f) \<le> FIELD_LIMIT"
    by (simp add: sample_records_def FIELD_LIMIT_def)
qed

text \<open>C28. Every record below the header that is not a summary line is a row of the table, in order and with
  its cells stripped, the missing ones empty; the header is a record of the highest score among the
  first of the file.\<close>

theorem delimited_rows_complete:
  assumes "delimited_parse so raw = Inr t"
  shows "\<exists>d records. csv_grid d (decode_or_latin1 raw) = Inr records \<and>
     (let grid = nonblank_rows records; idx = find_header_row grid in
      idx < length grid \<and> t_headers t = dedupe (grid ! idx)
      \<and> (\<forall>i s. i < length grid \<and> i < MAX_HEADER_SEARCH_ROWS \<and> row_score grid i = Some s \<longrightarrow>
           (\<exists>u. row_score grid idx = Some u \<and> s \<le> u))
      \<and> list_all2 (\<lambda>r rec. \<forall>i < length (t_headers t).
           cell r (t_headers t ! i) = (if i < length rec then strip (rec ! i) else []))
          (t_rows t) (filter (\<lambda>r. \<not> is_total_row r) (drop (idx + 1) grid)))"
proof -
  from assms obtain d records where g: "csv_grid d (decode_or_latin1 raw) = Inr records"
    "nonblank_rows records \<noteq> []" "table_of d (prefix BOM raw) (nonblank_rows records) = Inr t"
    by (rule delimited_parse_Inr)
  let ?grid = "nonblank_rows records"
  note table = table_of_Inr [OF g(3) refl]
  have cells: "\<forall>i < length (t_headers t). cell (row_of (t_headers t) (map strip (take (length (t_headers t)) rec)))
      (t_headers t ! i) = (if i < length rec then strip (rec ! i) else [])" for rec
    using table(1) by (auto simp: table(2) row_of_cell)
  have "\<exists>u. row_score ?grid (find_header_row ?grid) = Some u \<and> s \<le> u"
    if "i < length ?grid" "i < MAX_HEADER_SEARCH_ROWS" "row_score ?grid i = Some s" for i s
    using header_index_best [of i "length ?grid" "row_score ?grid" s] that by (simp add: find_header_row_def)
  moreover have "list_all2 (\<lambda>r rec. \<forall>i < length (t_headers t).
           cell r (t_headers t ! i) = (if i < length rec then strip (rec ! i) else []))
          (t_rows t) (filter (\<lambda>r. \<not> is_total_row r) (drop (find_header_row ?grid + 1) ?grid))"
    using cells by (simp add: table(3) table(2) [symmetric] list_all2_map1 list.rel_refl)
  ultimately show ?thesis
    using g(1) header_in_grid [OF g(2)] table(2) by (intro exI [of _ d] exI [of _ records]) (auto simp: Let_def)
qed

definition sample_extract :: string where
  "sample_extract = ''Id,Px'' @ [NL] @ ''T1, 9'' @ [NL] @ ''Total,9'' @ [NL]"

definition sample_extract_table :: parsed_table where
  "sample_extract_table = \<lparr>t_headers = [''Id'', ''Px''], t_rows = [[(''Id'', ''T1''), (''Px'', ''9'')]],
     t_evidence = [(''delimiter'', ''comma''), (''header_row_index'', ''0''), (''encoding'', ''utf-8'')],
     t_warnings = [''excluded 1 summary row(s)'']\<rparr>"

lemma sample_extract_parses: "delimited_parse uniq sample_extract = Inr sample_extract_table"
  by code_simp

theorem delimited_rows_complete_witness:
  "\<exists>d records. csv_grid d (decode_or_latin1 sample_extract) = Inr records \<and>
     (let grid = nonblank_rows records; idx = find_header_row grid in
      idx < length grid \<and> t_headers sample_extract_table = dedupe (grid ! idx)
      \<and> (\<forall>i s. i < length grid \<and> i < MAX_HEADER_SEARCH_ROWS \<and> row_score grid i = Some s \<longrightarrow>
           (\<exists>u. row_score grid idx = Some u \<and> s \<le> u))
      \<and> list_all2 (\<lambda>r rec. \<forall>i < length (t_headers sample_extract_table).
           cell r (t_headers sample_extract_table ! i) = (if i < length rec then strip (rec ! i) else []))
          (t_rows sample_extract_table) (filter (\<lambda>r. \<not> is_total_row r) (drop (idx + 1) grid)))"
  by (rule delimited_rows_complete [OF sample_extract_parses])

text \<open>An extract is refused for four reasons only: it is empty, no delimiter fits, its records are blank
  or the reader stops at a malformed one; headers that repeat are refused only when some cell has a
  double underscore of its own.\<close>

lemma delimited_errors:
  assumes "delimited_parse so raw = Inl e"
  shows "e \<in> {ParseError ''file is empty'', ParseError ''no delimiter could be determined'', CsvError,
         ParseError ''file contains no non-empty rows''}
    \<or> (\<exists>d records. csv_grid d (decode_or_latin1 raw) = Inr records \<and> (\<exists>r \<in> set records. \<exists>h \<in> set r. contains ''__'' h))"
proof -
  have csv: "f = CsvError" if "csv_grid d body = Inl f" for d body f
    using that csv_grid_error by blast
  have repeats: "\<exists>r \<in> set records. \<exists>h \<in> set r. contains ''__'' h"
    if g: "nonblank_rows records \<noteq> []" "table_of d bom (nonblank_rows records) = Inl e" for d bom records
  proof (rule ccontr)
    assume no: "\<not> (\<exists>r \<in> set records. \<exists>h \<in> set r. contains ''__'' h)"
    let ?grid = "nonblank_rows records"
    have "?grid ! find_header_row ?grid \<in> set records"
      using nth_mem [OF header_in_grid [OF g(1)]] by (simp add: nonblank_rows_def)
    with no have "distinct (dedupe (?grid ! find_header_row ?grid))" by (intro dedupe_distinct) blast
    with g(2) show False by (simp add: table_of_def Let_def make_table_def read_rows_eq)
  qed
  let ?t = "decode_or_latin1 raw"
  show ?thesis
  proof (cases "list_all blank (splitlines ?t) \<or> fst (best_delimiter so (sample_lines ?t)) = None")
    case True
    with assms show ?thesis by (auto simp: delimited_parse_def Let_def split: if_splits)
  next
    case False
    then obtain d where d: "\<not> list_all blank (splitlines ?t)" "fst (best_delimiter so (sample_lines ?t)) = Some d"
      by auto
    show ?thesis
    proof (cases "csv_grid d ?t")
      case (Inl f)
      with assms d csv [OF Inl] show ?thesis by (simp add: delimited_parse_def Let_def)
    next
      case (Inr records)
      with assms d have rest: "nonblank_rows records = [] \<and> e = ParseError ''file contains no non-empty rows''
          \<or> nonblank_rows records \<noteq> [] \<and> table_of d (prefix BOM raw) (nonblank_rows records) = Inl e"
        by (simp add: delimited_parse_def Let_def split: if_splits)
      with Inr repeats show ?thesis by blast
    qed
  qed
qed

definition repeated_headers :: string where
  "repeated_headers = ''A,A,A__1'' @ [NL] @ ''1,2,3'' @ [NL]"

lemma delimited_errors_witness:
  "delimited_parse uniq repeated_headers = Inl (ParseError (''duplicate column headers: '' @ list_repr [''A__1'']))
   \<and> (\<exists>d records. csv_grid d (decode_or_latin1 repeated_headers) = Inr records
         \<and> (\<exists>r \<in> set records. \<exists>h \<in> set r. contains ''__'' h))"
proof -
  have e: "delimited_parse uniq repeated_headers = Inl (ParseError (''duplicate column headers: '' @ list_repr [''A__1'']))"
    by code_simp
  from delimited_errors [OF e] e show ?thesis by auto
qed

end
