(* ===== verification/ExcelParser.thy ===== *)
theory ExcelParser
  imports Tabular
begin

text \<open>
  Workbooks: \<open>python/src/inspector/parsers/excel.py\<close>. The reader of the file is openpyxl, which is not
  under \<open>src/\<close>: it is an argument that gives \<open>None\<close> for one of the exceptions the code turns into a
  parse error and the sheets otherwise. Of a cell the code uses whether it is empty, whether it is a
  number and the text \<open>str\<close> gives. The scores of the sheets are small whole numbers, which doubles
  hold exactly.
\<close>

datatype xcell = XNone | XNum string | XText string

text \<open>A merged range has its first row and column and its last, counted from one.\<close>

type_synonym xrange = "nat \<times> nat \<times> nat \<times> nat"

record xsheet =
  xs_max_row :: nat
  xs_max_column :: nat
  xs_cells :: "xcell list list"
  xs_merged :: "xrange list"

type_synonym workbook = "(string \<times> xsheet) list"

definition NON_DATA_SHEET_TOKENS :: "string list" where
  "NON_DATA_SHEET_TOKENS = [''cover'', ''disclaimer'', ''notes'', ''legend'', ''glossary'', ''index'', ''contents'',
     ''summary'', ''about'', ''readme'']"

definition XLSX_MAGIC :: string where
  "XLSX_MAGIC = ''PK'' @ [chr 3, chr 4]"

definition excel_sniff :: "string \<Rightarrow> string \<Rightarrow> rat" where
  "excel_sniff head name =
     (if \<not> prefix XLSX_MAGIC head then 0
      else if list_ex (\<lambda>e. suffix e (lower name)) [''.xlsx'', ''.xlsm''] then fl (97 / 100) else fl (9 / 10))"

section \<open>Cells\<close>

primrec cell_str :: "xcell \<Rightarrow> string" where
  "cell_str XNone = ''None''"
| "cell_str (XNum s) = s"
| "cell_str (XText s) = s"

definition xl_blank :: "xcell \<Rightarrow> bool" where
  "xl_blank v \<longleftrightarrow> v = XNone \<or> strip (cell_str v) = []"

definition xl_looks_numeric :: "xcell \<Rightarrow> bool" where
  "xl_looks_numeric v =
     (case v of
        XNum _ \<Rightarrow> True
      | _ \<Rightarrow> numeric_text (remove_chars (\<lambda>x. x \<in> {CHR '','', CHR ''$''}) (strip (cell_str v))))"

text \<open>What a row of the table gets from a cell.\<close>

definition cell_value :: "xcell \<Rightarrow> string" where
  "cell_value v = (if xl_blank v then [] else strip (cell_str v))"

section \<open>The sheet\<close>

definition sheet_score :: "string \<times> xsheet \<Rightarrow> int" where
  "sheet_score = (\<lambda>(name, sheet).
     let rows = int (xs_max_row sheet); cols = int (xs_max_column sheet);
         s = min rows 5000 + min cols 100 * 5;
         s = (if list_ex (\<lambda>token. contains token (norm_cell name)) NON_DATA_SHEET_TOKENS then s - 5000 else s)
     in if rows \<le> 1 \<or> cols \<le> 1 then s - 1000 else s)"

text \<open>The first sheet of the highest score.\<close>

definition choose_sheet :: "workbook \<Rightarrow> (string \<times> xsheet) option" where
  "choose_sheet wb = first_max sheet_score wb"

definition set_cell :: "xcell \<Rightarrow> nat \<Rightarrow> nat \<Rightarrow> xcell list list \<Rightarrow> xcell list list" where
  "set_cell v r c grid =
     (if r < length grid \<and> c < length (grid ! r) then grid[r := (grid ! r)[c := v]] else grid)"

definition fill_range :: "xrange \<Rightarrow> xcell list list \<Rightarrow> xcell list list" where
  "fill_range = (\<lambda>(min_row, min_col, max_row, max_col) grid.
     if length grid \<le> min_row - 1 \<or> length (grid ! (min_row - 1)) \<le> min_col - 1 then grid
     else
       let v = grid ! (min_row - 1) ! (min_col - 1) in
       fold (\<lambda>r grid. fold (set_cell v r) [min_col - 1..<max_col] grid) [min_row - 1..<max_row] grid)"

definition fill_merged :: "xrange list \<Rightarrow> xcell list list \<Rightarrow> xcell list list" where
  "fill_merged ranges grid = fold fill_range ranges grid"

definition blank_row :: "xcell list \<Rightarrow> bool" where
  "blank_row r \<longleftrightarrow> list_all xl_blank r"

definition grid_of :: "xsheet \<Rightarrow> xcell list list" where
  "grid_of sheet = rev (dropWhile blank_row (rev (fill_merged (xs_merged sheet) (xs_cells sheet))))"

section \<open>The header\<close>

definition filled :: "xcell list \<Rightarrow> xcell list" where
  "filled r = filter (\<lambda>v. \<not> xl_blank v) r"

definition xl_row_score :: "xcell list list \<Rightarrow> nat \<Rightarrow> rat option" where
  "xl_row_score grid idx =
     (let r = grid ! idx in
      if filled r = [] then None
      else Some (header_score (length (filter (\<lambda>v. \<not> xl_looks_numeric v) (filled r))) (length (filled r)) (length r)
                   (length (filled r) = modal_width (map (\<lambda>r. length (filled r)) grid)) idx))"

definition xl_header_row :: "xcell list list \<Rightarrow> nat" where
  "xl_header_row grid = header_index (xl_row_score grid) (length grid)"

definition xl_total_row :: "xcell list \<Rightarrow> bool" where
  "xl_total_row r \<longleftrightarrow>
     norm_cell (case find (\<lambda>v. \<not> xl_blank v) r of None \<Rightarrow> [] | Some v \<Rightarrow> cell_str v) \<in> TOTAL_MARKERS"

definition xl_header_name :: "nat \<Rightarrow> xcell \<Rightarrow> string" where
  "xl_header_name i v = (if xl_blank v then ''column_'' @ nat_str (i + 1) else strip (cell_str v))"

text \<open>The loop that drops placeholder columns, on the reversed names.\<close>

fun drop_placeholders :: "nat \<Rightarrow> string list \<Rightarrow> string list" where
  "drop_placeholders 0 out = out"
| "drop_placeholders (Suc n) [] = []"
| "drop_placeholders (Suc n) (h # out) = (if prefix ''column_'' h then drop_placeholders n out else h # out)"

definition xl_dedupe :: "xcell list \<Rightarrow> string list" where
  "xl_dedupe raw =
     rev (drop_placeholders (length (takeWhile xl_blank (rev raw)))
       (rev (rename_repeats (map (\<lambda>(i, v). xl_header_name i v) (List.enumerate 0 raw)) [])))"

section \<open>The table\<close>

primrec xl_read_rows :: "string list \<Rightarrow> xcell list list \<Rightarrow> row list \<times> nat" where
  "xl_read_rows hs [] = ([], 0)"
| "xl_read_rows hs (r # rs) =
     (let (rows, dropped) = xl_read_rows hs rs in
      if blank_row r then (rows, dropped)
      else if xl_total_row r then (rows, Suc dropped)
      else (row_of hs (map cell_value r) # rows, dropped))"

definition sheet_table :: "nat \<Rightarrow> string \<Rightarrow> xcell list list \<Rightarrow> parsed_table result" where
  "sheet_table sheets name grid =
     (let idx = xl_header_row grid;
          headers = xl_dedupe (grid ! idx)
      in if headers = [] then Inl (ParseError ''no header row could be identified'')
         else
           let (rows, dropped) = xl_read_rows headers (drop (idx + 1) grid) in
           make_table headers rows
             [(''sheet'', name), (''sheet_count'', nat_str sheets), (''header_row_index'', nat_str idx)]
             ((if 1 < sheets then [''workbook has '' @ nat_str sheets @ '' sheets; selected '' @ repr name] else [])
              @ (if 0 < idx then [''skipped '' @ nat_str idx @ '' row(s) above the header''] else [])
              @ (if 0 < dropped then [''excluded '' @ nat_str dropped @ '' summary row(s)''] else [])))"

definition excel_parse :: "(string \<Rightarrow> workbook option) \<Rightarrow> string \<Rightarrow> parsed_table result" where
  "excel_parse load_workbook raw =
     (case load_workbook raw of
        None \<Rightarrow> Inl (ParseError ''not a readable workbook'')
      | Some wb \<Rightarrow>
          (case choose_sheet wb of
             None \<Rightarrow> Inl IndexError
           | Some (name, sheet) \<Rightarrow>
               let grid = grid_of sheet in
               if grid = [] then Inl (ParseError (''sheet '' @ repr name @ '' contains no data''))
               else sheet_table (length wb) name grid))"

section \<open>Merged cells\<close>

definition cell_at :: "xcell list list \<Rightarrow> nat \<Rightarrow> nat \<Rightarrow> xcell option" where
  "cell_at grid r c = (if r < length grid \<and> c < length (grid ! r) then Some (grid ! r ! c) else None)"

text \<open>A position of a range, counted from zero.\<close>

definition in_range :: "xrange \<Rightarrow> nat \<Rightarrow> nat \<Rightarrow> bool" where
  "in_range = (\<lambda>(min_row, min_col, max_row, max_col) r c.
     min_row - 1 \<le> r \<and> r < max_row \<and> min_col - 1 \<le> c \<and> c < max_col)"

definition top_left :: "xrange \<Rightarrow> xcell list list \<Rightarrow> xcell option" where
  "top_left = (\<lambda>(min_row, min_col, max_row, max_col) grid. cell_at grid (min_row - 1) (min_col - 1))"

lemma cell_at_set:
  "cell_at (set_cell v r c grid) r' c' =
     (if r' = r \<and> c' = c \<and> cell_at grid r' c' \<noteq> None then Some v else cell_at grid r' c')"
  by (auto simp: cell_at_def set_cell_def nth_list_update)

lemma cell_at_row:
  "cell_at (fold (set_cell v r) cs grid) r' c' =
     (if r' = r \<and> c' \<in> set cs \<and> cell_at grid r' c' \<noteq> None then Some v else cell_at grid r' c')"
  by (induction cs arbitrary: grid) (auto simp: cell_at_set)

lemma cell_at_rows:
  "cell_at (fold (\<lambda>r. fold (set_cell v r) cs) rs grid) r' c' =
     (if r' \<in> set rs \<and> c' \<in> set cs \<and> cell_at grid r' c' \<noteq> None then Some v else cell_at grid r' c')"
  by (induction rs arbitrary: grid) (auto simp: cell_at_row)

lemma cell_at_fill:
  "cell_at (fill_range rg grid) r c =
     (case top_left rg grid of
        Some v \<Rightarrow> if in_range rg r c \<and> cell_at grid r c \<noteq> None then Some v else cell_at grid r c
      | None \<Rightarrow> cell_at grid r c)"
proof -
  obtain r0 c0 r1 c1 where rg: "rg = (r0, c0, r1, c1)" by (cases rg)
  show ?thesis
  proof (cases "length grid \<le> r0 - 1 \<or> length (grid ! (r0 - 1)) \<le> c0 - 1")
    case True
    then have "top_left rg grid = None" by (auto simp: top_left_def rg cell_at_def)
    with True show ?thesis by (simp add: fill_range_def rg)
  next
    case False
    then have t: "top_left rg grid = Some (grid ! (r0 - 1) ! (c0 - 1))" by (simp add: top_left_def rg cell_at_def)
    have "fill_range rg grid = fold (\<lambda>r. fold (set_cell (grid ! (r0 - 1) ! (c0 - 1)) r) [c0 - 1..<c1]) [r0 - 1..<r1] grid"
      using False by (simp add: fill_range_def rg Let_def)
    with t show ?thesis by (simp add: cell_at_rows in_range_def rg)
  qed
qed

definition disjoint_ranges :: "xrange list \<Rightarrow> bool" where
  "disjoint_ranges rgs \<longleftrightarrow>
     (\<forall>i < length rgs. \<forall>j < length rgs. i \<noteq> j \<longrightarrow> (\<nexists>r c. in_range (rgs ! i) r c \<and> in_range (rgs ! j) r c))"

lemma cell_at_merged_outside:
  "(\<forall>rg \<in> set rgs. \<not> in_range rg r c) \<Longrightarrow> cell_at (fill_merged rgs grid) r c = cell_at grid r c"
  unfolding fill_merged_def
  by (induction rgs arbitrary: grid) (simp_all add: cell_at_fill split: option.split)

lemma in_range_top_left:
  assumes "in_range (r0, c0, r1, c1) r c"
  shows "in_range (r0, c0, r1, c1) (r0 - 1) (c0 - 1)"
  using assms by (auto simp: in_range_def)

lemma cell_at_merged_inside:
  assumes "disjoint_ranges rgs" and "rg \<in> set rgs" and "in_range rg r c"
    and "cell_at grid r c \<noteq> None" and "top_left rg grid = Some v"
  shows "cell_at (fill_merged rgs grid) r c = Some v"
proof -
  obtain i where i: "i < length rgs" "rgs ! i = rg" using assms(2) by (auto simp: in_set_conv_nth)
  define xs ys where "xs = take i rgs" and "ys = drop (Suc i) rgs"
  have rgs: "rgs = xs @ rg # ys" using i id_take_nth_drop [of i rgs] by (simp add: xs_def ys_def)
  obtain r0 c0 r1 c1 where rg: "rg = (r0, c0, r1, c1)" by (cases rg)
  have other: "\<not> in_range q r' c'" if q: "q \<in> set xs \<union> set ys" and at: "in_range rg r' c'" for q r' c'
  proof -
    from q obtain j where "j < length rgs" "j \<noteq> i" "rgs ! j = q"
    proof
      assume "q \<in> set xs"
      then obtain j where "j < length xs" "xs ! j = q" by (auto simp: in_set_conv_nth)
      with that [of j] show thesis by (simp add: xs_def)
    next
      assume "q \<in> set ys"
      then obtain j where "j < length ys" "ys ! j = q" by (auto simp: in_set_conv_nth)
      with that [of "Suc i + j"] i(1) show thesis by (simp add: ys_def)
    qed
    with assms(1) i at show ?thesis unfolding disjoint_ranges_def by blast
  qed
  let ?g = "fold fill_range xs grid"
  have before: "cell_at ?g r' c' = cell_at grid r' c'" if "in_range rg r' c'" for r' c'
    using cell_at_merged_outside [of xs r' c' grid] other that by (auto simp: fill_merged_def)
  have "top_left rg ?g = Some v"
    using before in_range_top_left assms(3,5) by (simp add: top_left_def rg)
  then have "cell_at (fill_range rg ?g) r c = Some v"
    using before assms(3,4) by (simp add: cell_at_fill)
  then show ?thesis
    using cell_at_merged_outside [of ys r c "fill_range rg ?g"] other assms(3)
    by (simp add: fill_merged_def rgs)
qed

section \<open>Rows\<close>

lemma xl_read_rows_eq:
  "xl_read_rows hs rs =
     (map (\<lambda>r. row_of hs (map cell_value r)) (filter (\<lambda>r. \<not> blank_row r \<and> \<not> xl_total_row r) rs),
      length (filter (\<lambda>r. \<not> blank_row r \<and> xl_total_row r) rs))"
  by (induction rs) (simp_all add: Let_def)

lemma xl_header_in_grid: "grid \<noteq> [] \<Longrightarrow> xl_header_row grid < length grid"
  unfolding xl_header_row_def by (rule header_index_less) simp

lemma sheet_table_Inr:
  assumes "sheet_table n name grid = Inr t" and "hs = xl_dedupe (grid ! xl_header_row grid)"
  shows "distinct hs" and "t_headers t = hs"
    and "t_rows t = map (\<lambda>r. row_of hs (map cell_value r))
           (filter (\<lambda>r. \<not> blank_row r \<and> \<not> xl_total_row r) (drop (xl_header_row grid + 1) grid))"
  using assms by (auto simp: sheet_table_def xl_read_rows_eq Let_def make_table_Inr split: if_splits)

lemma excel_parse_Inr:
  assumes "excel_parse lw raw = Inr t"
  obtains wb name sheet where "lw raw = Some wb" "choose_sheet wb = Some (name, sheet)" "grid_of sheet \<noteq> []"
    "sheet_table (length wb) name (grid_of sheet) = Inr t"
  using assms by (auto simp: excel_parse_def Let_def split: option.splits if_splits)

lemma excel_parse_square:
  assumes "excel_parse lw raw = Inr t" and "r \<in> set (t_rows t)"
  shows "distinct (dict_keys r) \<and> set (dict_keys r) = set (t_headers t)"
proof -
  from assms(1) obtain wb name sheet where "lw raw = Some wb" "choose_sheet wb = Some (name, sheet)"
    "grid_of sheet \<noteq> []" and s: "sheet_table (length wb) name (grid_of sheet) = Inr t"
    by (rule excel_parse_Inr)
  note table = sheet_table_Inr(2,3) [OF s refl]
  from assms(2) table obtain cells where "r = row_of (t_headers t) cells" by auto
  then show ?thesis using row_of_keys by blast
qed

section \<open>Properties\<close>

text \<open>Forward filling gives every cell of a merged range the value of the range's first cell and leaves
  the cells outside the ranges alone, when no two ranges overlap.\<close>

lemma merged_cells_filled:
  assumes "disjoint_ranges rgs"
  shows "((\<exists>rg \<in> set rgs. in_range rg r c \<and> top_left rg grid = Some v) \<and> cell_at grid r c \<noteq> None
            \<longrightarrow> cell_at (fill_merged rgs grid) r c = Some v)
    \<and> ((\<forall>rg \<in> set rgs. \<not> in_range rg r c) \<longrightarrow> cell_at (fill_merged rgs grid) r c = cell_at grid r c)"
  using cell_at_merged_inside [OF assms] cell_at_merged_outside by blast

definition banner :: "xcell list list" where
  "banner = [[XText ''Price'', XNone, XText ''Qty''], [XNum ''1'', XNum ''2'', XNum ''3'']]"

lemma merged_cells_filled_witness:
  "cell_at banner 0 1 = Some XNone \<and> cell_at (fill_merged [(1, 1, 1, 2)] banner) 0 1 = Some (XText ''Price'')
   \<and> cell_at (fill_merged [(1, 1, 1, 2)] banner) 0 2 = Some (XText ''Qty'')"
proof -
  have d: "disjoint_ranges [(1, 1, 1, 2)]" by (simp add: disjoint_ranges_def)
  have b: "cell_at banner 0 1 = Some XNone" by (simp add: cell_at_def banner_def)
  have c: "cell_at banner 0 2 = Some (XText ''Qty'')" by (simp add: cell_at_def banner_def)
  have t: "top_left (1, 1, 1, 2) banner = Some (XText ''Price'')" by (simp add: top_left_def cell_at_def banner_def)
  have i: "in_range (1, 1, 1, 2) 0 1" "\<not> in_range (1, 1, 1, 2) 0 2" by (simp_all add: in_range_def)
  show ?thesis
    using merged_cells_filled [OF d, of 0 1 banner "XText ''Price''"] merged_cells_filled [OF d, of 0 2 banner] b c t i
    by simp
qed

text \<open>The rows of the table are the records of a sheet of the highest score, below its header, without
  the blank ones and the summary lines, in order and cell by cell.\<close>

lemma excel_rows_complete:
  assumes "excel_parse lw raw = Inr t"
  shows "\<exists>wb name sheet. lw raw = Some wb \<and> (name, sheet) \<in> set wb
    \<and> (\<forall>s \<in> set wb. sheet_score s \<le> sheet_score (name, sheet))
    \<and> (let grid = grid_of sheet; idx = xl_header_row grid in
       idx < length grid \<and> t_headers t = xl_dedupe (grid ! idx)
       \<and> list_all2 (\<lambda>r rec. \<forall>i < length (t_headers t).
            cell r (t_headers t ! i) = (if i < length rec then cell_value (rec ! i) else []))
          (t_rows t) (filter (\<lambda>r. \<not> blank_row r \<and> \<not> xl_total_row r) (drop (idx + 1) grid)))"
proof -
  from assms obtain wb name sheet where p: "lw raw = Some wb" "choose_sheet wb = Some (name, sheet)"
    "grid_of sheet \<noteq> []" "sheet_table (length wb) name (grid_of sheet) = Inr t"
    by (rule excel_parse_Inr)
  note table = sheet_table_Inr [OF p(4) refl]
  note best = first_max_Some [OF p(2) [unfolded choose_sheet_def]]
  have cells: "\<forall>i < length (t_headers t). cell (row_of (t_headers t) (map cell_value rec)) (t_headers t ! i)
      = (if i < length rec then cell_value (rec ! i) else [])" for rec
    using table(1) by (auto simp: table(2) row_of_cell)
  have "list_all2 (\<lambda>r rec. \<forall>i < length (t_headers t).
           cell r (t_headers t ! i) = (if i < length rec then cell_value (rec ! i) else []))
          (t_rows t) (filter (\<lambda>r. \<not> blank_row r \<and> \<not> xl_total_row r)
             (drop (xl_header_row (grid_of sheet) + 1) (grid_of sheet)))"
    using cells by (simp add: table(3) table(2) [symmetric] list_all2_map1 list.rel_refl)
  then show ?thesis
    using p(1) best xl_header_in_grid [OF p(3)] table(2)
    by (intro exI [of _ wb] exI [of _ name] exI [of _ sheet]) (auto simp: Let_def)
qed

definition statement :: workbook where
  "statement =
     [(''Cover'', \<lparr>xs_max_row = 40, xs_max_column = 8, xs_cells = [[XText ''Disclaimer'']], xs_merged = []\<rparr>),
      (''Trades'', \<lparr>xs_max_row = 3, xs_max_column = 2,
         xs_cells = [[XText ''Id'', XText ''Px''], [XText ''T1'', XNum ''9''], [XText ''Total'', XNum ''9'']],
         xs_merged = []\<rparr>)]"

definition statement_table :: parsed_table where
  "statement_table = \<lparr>t_headers = [''Id'', ''Px''], t_rows = [[(''Id'', ''T1''), (''Px'', ''9'')]],
     t_evidence = [(''sheet'', ''Trades''), (''sheet_count'', ''2''), (''header_row_index'', ''0'')],
     t_warnings = [''workbook has 2 sheets; selected '' @ repr ''Trades'', ''excluded 1 summary row(s)'']\<rparr>"

lemma statement_parses: "excel_parse (\<lambda>_. Some statement) [] = Inr statement_table"
  by code_simp

lemma excel_rows_complete_witness:
  "t_rows statement_table \<noteq> [] \<and> (\<exists>name sheet. (name, sheet) \<in> set statement
     \<and> t_headers statement_table = xl_dedupe (grid_of sheet ! xl_header_row (grid_of sheet)))"
  using excel_rows_complete [OF statement_parses] by (auto simp: statement_table_def Let_def)

text \<open>A cover sheet is not read for a data sheet: when some sheet without a telling name has two rows and
  two columns, the chosen one has no such name either, unless it is large.\<close>

definition cover_name :: "string \<Rightarrow> bool" where
  "cover_name name \<longleftrightarrow> list_ex (\<lambda>token. contains token (norm_cell name)) NON_DATA_SHEET_TOKENS"

lemma sheet_score_data:
  assumes "\<not> cover_name n" and "2 \<le> xs_max_row s" and "2 \<le> xs_max_column s"
  shows "12 \<le> sheet_score (n, s)"
  using assms by (simp add: sheet_score_def cover_name_def Let_def min_def)

lemma sheet_score_cover:
  assumes "cover_name n"
  shows "sheet_score (n, s) \<le> int (xs_max_row s) + 5 * int (xs_max_column s) - 5000"
  using assms by (simp add: sheet_score_def cover_name_def Let_def min_def)

lemma data_sheet_chosen:
  assumes "choose_sheet wb = Some (name, sheet)" and "(n, s) \<in> set wb" and "\<not> cover_name n"
    and "2 \<le> xs_max_row s" and "2 \<le> xs_max_column s"
  shows "cover_name name \<longrightarrow> 5012 \<le> xs_max_row sheet + 5 * xs_max_column sheet"
proof
  assume "cover_name name"
  from sheet_score_cover [OF this, of sheet] sheet_score_data [OF assms(3-5)]
    first_max_Some(2) [OF assms(1) [unfolded choose_sheet_def] assms(2)]
  show "5012 \<le> xs_max_row sheet + 5 * xs_max_column sheet" by linarith
qed

lemma data_sheet_chosen_witness:
  "choose_sheet statement = Some (statement ! 1) \<and> \<not> cover_name (fst (statement ! 1)) \<and> cover_name ''Cover''"
proof -
  have c: "choose_sheet statement = Some (fst (statement ! 1), snd (statement ! 1))" by code_simp
  have m: "(fst (statement ! 1), snd (statement ! 1)) \<in> set statement" by (simp add: statement_def)
  have n: "\<not> cover_name ''Trades''" "cover_name ''Cover''" by code_simp+
  have "cover_name (fst (statement ! 1)) \<longrightarrow> 5012 \<le> xs_max_row (snd (statement ! 1)) + 5 * xs_max_column (snd (statement ! 1))"
    by (rule data_sheet_chosen [OF c m]) (use n in \<open>simp_all add: statement_def\<close>)
  then have "\<not> cover_name (fst (statement ! 1))" by (simp add: statement_def)
  with c n show ?thesis by simp
qed

end
