(* ===== verification/Rows.thy ===== *)
theory Rows
  imports ParsedTable
begin

text \<open>
  What the parsers of nested documents share (\<open>json_parser.py\<close>, \<open>xml_parser.py\<close>, \<open>fixml.py\<close>): dotted
  paths, \<open>dict.update\<close>, and squaring off: the headers are the columns of all rows in the order in
  which they first occur, and a row gets an empty cell for every header it lacks.
\<close>

definition dict_update :: "('k, 'v) dict \<Rightarrow> ('k, 'v) dict \<Rightarrow> ('k, 'v) dict" where
  "dict_update d e = fold (\<lambda>(k, v) d. dict_set k v d) e d"

definition drop_dots :: "string \<Rightarrow> string" where
  "drop_dots s = rev (dropWhile (\<lambda>c. c = CHR ''.'') (rev s))"

definition square :: "string list \<Rightarrow> row \<Rightarrow> row" where
  "square hs r = fold (\<lambda>h r. dict_setdefault h [] r) hs r"

definition first_seen :: "row list \<Rightarrow> string list" where
  "first_seen rs = uniq (concat (map dict_keys rs))"

section \<open>Rows\<close>

lemma keys_setdefault [simp]: "set (dict_keys (dict_setdefault k v d)) = insert k (set (dict_keys d))"
  by (auto simp: dict_setdefault_def split: option.splits) (metis domI dom_map_of_conv_image_fst)

lemma get_setdefault: "dict_get (dict_setdefault k v d) h = (case dict_get d h of
    Some w \<Rightarrow> Some w | None \<Rightarrow> if h = k then Some v else None)"
  by (auto simp: dict_setdefault_def split: option.splits)

lemma distinct_setdefault [simp]: "distinct (dict_keys d) \<Longrightarrow> distinct (dict_keys (dict_setdefault k v d))"
  by (simp add: dict_setdefault_def split: option.split)

lemma square_keys: "set (dict_keys (square hs r)) = set hs \<union> set (dict_keys r)"
  unfolding square_def by (induction hs arbitrary: r) (simp_all del: set_map)

lemma square_distinct: "distinct (dict_keys r) \<Longrightarrow> distinct (dict_keys (square hs r))"
  unfolding square_def by (induction hs arbitrary: r) simp_all

lemma square_get: "dict_get r h = Some v \<Longrightarrow> dict_get (square hs r) h = Some v"
  unfolding square_def by (induction hs arbitrary: r) (simp_all add: get_setdefault)

lemma square_get_iff: "dict_get (square hs r) h = (case dict_get r h of
    Some w \<Rightarrow> Some w | None \<Rightarrow> if h \<in> set hs then Some [] else None)"
  unfolding square_def by (induction hs arbitrary: r) (auto simp: get_setdefault split: option.splits)

lemma dict_update_distinct [simp]: "distinct (dict_keys d) \<Longrightarrow> distinct (dict_keys (dict_update d e))"
  unfolding dict_update_def by (rule dict_fold_distinct)

text \<open>Squaring off the rows of a document gives a table whose rows have exactly its columns.\<close>

lemma distinct_first_seen [simp]: "distinct (first_seen rs)"
  by (simp add: first_seen_def)

lemma set_first_seen: "set (first_seen rs) = (\<Union>r \<in> set rs. set (dict_keys r))"
  by (simp add: first_seen_def)

lemma squared_rows:
  assumes "\<forall>r \<in> set rs. distinct (dict_keys r)" and "q \<in> set (map (square (first_seen rs)) rs)"
  shows "distinct (dict_keys q) \<and> set (dict_keys q) = set (first_seen rs)"
proof -
  obtain r where r: "r \<in> set rs" "q = square (first_seen rs) r" using assms(2) by auto
  have "set (dict_keys r) \<subseteq> set (first_seen rs)" using r(1) unfolding set_first_seen by blast
  with r assms(1) show ?thesis by (auto simp: square_keys square_distinct simp del: set_map)
qed

lemma make_squared_table: "make_table (first_seen rs) qs ev ws =
    Inr \<lparr>t_headers = first_seen rs, t_rows = qs, t_evidence = ev, t_warnings = ws\<rparr>"
  by (simp add: make_table_Inr)

end
