(* ===== verification/XmlTree.thy ===== *)
theory XmlTree
  imports Rows
begin

text \<open>
  The element trees the XML parsers walk. The parser of the text is lxml, which is not under \<open>src/\<close>:
  it is an argument that gives \<open>None\<close> for a syntax error and a tree otherwise. An element has the text
  of its tag (\<open>str(element.tag)\<close>, with a namespace in braces), its attributes in document order, the
  text before its first child and its children; a comment is an element too, as it is in lxml.
\<close>

datatype xml = Elem (xml_tag: string) (xml_attrib: "(string \<times> string) list") (xml_text: "string option")
  (xml_children: "xml list")

type_synonym etree = "string \<Rightarrow> xml option"

text \<open>\<open>_localname\<close>: what follows the last closing brace.\<close>

definition localname :: "string \<Rightarrow> string" where
  "localname t = rev (takeWhile (\<lambda>c. c \<noteq> CHR ''}'') (rev t))"

definition local_tag :: "xml \<Rightarrow> string" where
  "local_tag e = localname (xml_tag e)"

text \<open>\<open>(element.text or "").strip()\<close>.\<close>

definition own_text :: "xml \<Rightarrow> string" where
  "own_text e = (case xml_text e of None \<Rightarrow> [] | Some t \<Rightarrow> strip t)"

text \<open>\<open>element.iter()\<close>: the element and all below it, in document order.\<close>

fun iter_tree :: "xml \<Rightarrow> xml list" where
  "iter_tree (Elem t as body cs) = Elem t as body cs # concat (map iter_tree cs)"

definition below :: "xml \<Rightarrow> xml list" where
  "below e = concat (map iter_tree (xml_children e))"

lemma iter_tree_eq: "iter_tree e = e # below e"
  by (cases e) (simp only: iter_tree.simps below_def xml.sel)

lemma iter_tree_self: "e \<in> set (iter_tree e)"
  by (cases e) simp

lemma iter_tree_child: "e \<in> set (iter_tree d) \<Longrightarrow> c \<in> set (xml_children e) \<Longrightarrow> c \<in> set (iter_tree d)"
proof (induction d)
  case (Elem t as body cs)
  show ?case
  proof (cases "e = Elem t as body cs")
    case True
    with Elem.prems(2) iter_tree_self [of c] show ?thesis by auto
  next
    case False
    with Elem.prems(1) obtain x where "x \<in> set cs" "e \<in> set (iter_tree x)" by auto
    with Elem.IH Elem.prems(2) show ?thesis by auto
  qed
qed

lemma localname_plain:
  assumes "CHR ''}'' \<notin> set t"
  shows "localname t = t"
proof -
  have "takeWhile (\<lambda>c. c \<noteq> CHR ''}'') (rev t) = rev t"
    unfolding takeWhile_eq_all_conv using assms by auto
  then show ?thesis by (simp only: localname_def rev_rev_ident)
qed

lemma localname_qualified: "localname (ns @ ''}'' @ t) = localname t"
  by (simp add: localname_def takeWhile_tail)

end
