(* ===== verification/XmlParser.thy ===== *)
theory XmlParser
  imports XmlTree PyFloat
begin

text \<open>
  Generic XML extracts: \<open>python/src/inspector/parsers/xml_parser.py\<close>. The record element is the one
  with the best score among the tags that occur at least twice, where the score weighs what an
  element carries against how often it occurs; each record is flattened to dotted paths. The
  averages and the score are doubles.
\<close>

definition ATTR_PREFIX :: string where "ATTR_PREFIX = ''@''"
definition MIN_RECORDS :: nat where "MIN_RECORDS = 2"

text \<open>\<open>sniff\<close>, on the decoded head.\<close>

definition xml_sniff :: "string \<Rightarrow> string \<Rightarrow> rat" where
  "xml_sniff head name =
     (let body = lstrip head in
      if \<not> prefix ''<'' body then 0
      else let head_upper = upper (take 2000 body) in
        if contains ''<FIXML'' head_upper \<or> contains ''<EXECRPT'' head_upper then fl (3 / 10)
        else if suffix ''.xml'' (lower name) then fl (92 / 100) else fl (85 / 100))"

section \<open>Finding the records\<close>

definition richness :: "xml \<Rightarrow> nat" where
  "richness e = length (xml_children e) + length (xml_attrib e)"

definition by_tag :: "xml \<Rightarrow> (string, xml list) dict" where
  "by_tag doc = fold (\<lambda>e d. dict_set (local_tag e) (dict_get_or d (local_tag e) [] @ [e]) d) (below doc) []"

definition content_of :: "xml list \<Rightarrow> rat" where
  "content_of es =
     fl (fl (of_nat (sum_list (map (\<lambda>e. length (xml_children e)) es)) / of_nat (length es))
       + fl (of_nat (sum_list (map (\<lambda>e. length (xml_attrib e)) es)) / of_nat (length es)))"

definition record_score :: "xml list \<Rightarrow> rat" where
  "record_score es = fl (fl (content_of es * 10) + of_nat (min (length es) 100))"

definition eligible :: "xml list \<Rightarrow> bool" where
  "eligible es \<longleftrightarrow> MIN_RECORDS \<le> length es \<and> 1 \<le> content_of es"

text \<open>The loop over the tags: the best so far is \<open>None\<close> before any tag qualifies.\<close>

primrec best_records ::
    "(string \<times> xml list) list \<Rightarrow> (string \<times> xml list) option \<Rightarrow> (string \<times> xml list) option" where
  "best_records [] best = best"
| "best_records (te # tes) best =
     best_records tes
       (if eligible (snd te) \<and> (case best of None \<Rightarrow> True | Some b \<Rightarrow> record_score (snd b) < record_score (snd te))
        then Some te else best)"

definition xml_find_records :: "xml \<Rightarrow> string \<times> xml list" where
  "xml_find_records doc =
     (case best_records (by_tag doc) None of
        Some best \<Rightarrow> best
      | None \<Rightarrow>
          (case first_max richness (xml_children doc) of
             None \<Rightarrow> ([], [])
           | Some richest \<Rightarrow> if 0 < richness richest then (local_tag richest, [richest]) else ([], [])))"

section \<open>Flattening\<close>

definition attr_cells :: "xml \<Rightarrow> string \<Rightarrow> row" where
  "attr_cells e pre = dict_of (map (\<lambda>(k, v). (pre @ ATTR_PREFIX @ localname k, strip v)) (xml_attrib e))"

definition leaf_cell :: "xml \<Rightarrow> string \<Rightarrow> row \<Rightarrow> row" where
  "leaf_cell e pre out =
     (if own_text e \<noteq> [] \<and> pre \<noteq> [] then dict_set (drop_dots pre) (own_text e) out else out)"

text \<open>The path of a child: a tag that repeats among the children carries its number.\<close>

definition child_name :: "string \<Rightarrow> string list \<Rightarrow> string list \<Rightarrow> string \<Rightarrow> string" where
  "child_name pre tags before tag =
     (if 1 < count_list tags tag then pre @ tag @ ''['' @ nat_str (count_list before tag) @ '']'' else pre @ tag)"

fun xml_flatten :: "xml \<Rightarrow> string \<Rightarrow> row"
  and flatten_children :: "xml list \<Rightarrow> string list \<Rightarrow> string list \<Rightarrow> string \<Rightarrow> row \<Rightarrow> row" where
  "xml_flatten (Elem t as body cs) pre =
     (if cs = [] then leaf_cell (Elem t as body cs) pre (attr_cells (Elem t as body cs) pre)
      else flatten_children cs (map local_tag cs) [] pre (attr_cells (Elem t as body cs) pre))"
| "flatten_children [] tags before pre out = out"
| "flatten_children (c # cs) tags before pre out =
     flatten_children cs tags (before @ [local_tag c]) pre
       (let name = child_name pre tags before (local_tag c) in
        if xml_children c \<noteq> [] \<or> xml_attrib c \<noteq> [] then
          (let o1 = dict_update out (xml_flatten c (name @ ''.'')) in
           if own_text c \<noteq> [] then dict_set name (own_text c) o1 else o1)
        else dict_set name (own_text c) out)"

definition xml_parse :: "etree \<Rightarrow> string \<Rightarrow> parsed_table result" where
  "xml_parse etree raw =
     (case etree raw of
        None \<Rightarrow> Inl (ParseError ''malformed XML'')
      | Some doc \<Rightarrow>
          let (tag, records) = xml_find_records doc in
          if records = [] then Inl (ParseError ''no repeating record element could be identified'')
          else
            let rs = map (\<lambda>e. xml_flatten e []) records; hs = first_seen rs
            in make_table hs (map (square hs) rs)
                 [(''root'', local_tag doc), (''record_element'', tag), (''record_count'', nat_str (length records))] [])"

section \<open>The record element\<close>

lemma by_tag_get: "dict_get_or (by_tag doc) t [] = filter (\<lambda>e. local_tag e = t) (below doc)"
proof -
  have "dict_get_or (fold (\<lambda>e d. dict_set (local_tag e) (dict_get_or d (local_tag e) [] @ [e]) d) es d) t []
      = dict_get_or d t [] @ filter (\<lambda>e. local_tag e = t) es" for es d
    by (induction es arbitrary: d) (simp_all add: dict_get_or_def)
  from this [of "below doc" "[]"] show ?thesis by (simp add: by_tag_def dict_get_or_def)
qed

lemma by_tag_distinct: "distinct (dict_keys (by_tag doc))"
proof -
  have "distinct (dict_keys d) \<Longrightarrow>
      distinct (dict_keys (fold (\<lambda>e d. dict_set (local_tag e) (dict_get_or d (local_tag e) [] @ [e]) d) es d))" for es d
    by (induction es arbitrary: d) simp_all
  then show ?thesis by (simp add: by_tag_def)
qed

lemma by_tag_entry: "(t, es) \<in> set (by_tag doc) \<Longrightarrow> es = filter (\<lambda>e. local_tag e = t) (below doc)"
  using by_tag_get [of doc t] map_of_is_SomeI [OF by_tag_distinct, of t es doc] by (simp add: dict_get_or_def)

lemma by_tag_complete: "e \<in> set (below doc) \<Longrightarrow> \<exists>es. (local_tag e, es) \<in> set (by_tag doc)"
proof -
  assume "e \<in> set (below doc)"
  moreover have "x \<in> set xs \<Longrightarrow> local_tag x \<in> set (dict_keys
      (fold (\<lambda>e d. dict_set (local_tag e) (dict_get_or d (local_tag e) [] @ [e]) d) xs d))" for x xs d
  proof (induction xs arbitrary: d)
    case (Cons y ys)
    have "k \<in> set (dict_keys d) \<Longrightarrow> k \<in> set (dict_keys
        (fold (\<lambda>e d. dict_set (local_tag e) (dict_get_or d (local_tag e) [] @ [e]) d) zs d))" for k zs d
      by (induction zs arbitrary: d) simp_all
    with Cons show ?case by auto
  qed simp
  ultimately have "local_tag e \<in> set (dict_keys (by_tag doc))" by (simp add: by_tag_def)
  then show ?thesis by auto
qed

lemma best_records_spec:
  assumes "best_records tes best = Some b"
    and "\<And>b0. best = Some b0 \<Longrightarrow> eligible (snd b0)"
  shows "(b \<in> set tes \<or> best = Some b) \<and> eligible (snd b)
    \<and> (\<forall>te \<in> set tes. eligible (snd te) \<longrightarrow> record_score (snd te) \<le> record_score (snd b))
    \<and> (\<forall>b0. best = Some b0 \<longrightarrow> record_score (snd b0) \<le> record_score (snd b))"
  using assms
proof (induction tes arbitrary: best)
  case (Cons te tes)
  let ?new = "eligible (snd te) \<and> (case best of None \<Rightarrow> True | Some b \<Rightarrow> record_score (snd b) < record_score (snd te))"
  show ?case
  proof (cases ?new)
    case True
    with Cons.prems(1) have "best_records tes (Some te) = Some b" by simp
    from Cons.IH [OF this] True show ?thesis by (auto split: option.splits)
  next
    case False
    with Cons.prems(1) have "best_records tes best = Some b" by (simp split: if_splits)
    from Cons.IH [OF this Cons.prems(2)] False show ?thesis by (auto split: option.splits)
  qed
qed simp

lemma best_records_None: "best_records tes None = None \<longleftrightarrow> (\<forall>te \<in> set tes. \<not> eligible (snd te))"
proof -
  have some: "best_records xs (Some b) \<noteq> None" for xs b
    by (induction xs arbitrary: b) (auto simp del: not_None_eq)
  show ?thesis
  proof (induction tes)
    case (Cons te tes)
    then show ?case using some [of tes te] by auto
  qed simp
qed

section \<open>Paths\<close>

text \<open>Tags without the characters that paths are built with.\<close>

definition path_free :: "string \<Rightarrow> bool" where
  "path_free t \<longleftrightarrow> t \<noteq> [] \<and> CHR ''.'' \<notin> set t \<and> CHR ''['' \<notin> set t"

lemma drop_dots_snoc: "s \<noteq> [] \<Longrightarrow> last s \<noteq> CHR ''.'' \<Longrightarrow> drop_dots (s @ ''.'') = s"
  by (cases s rule: rev_cases) (simp_all add: drop_dots_def)

text \<open>The part of a child's path behind its parent's path.\<close>

definition step_name :: "string list \<Rightarrow> string list \<Rightarrow> string \<Rightarrow> string" where
  "step_name tags before tag =
     (if 1 < count_list tags tag then tag @ ''['' @ nat_str (count_list before tag) @ '']'' else tag)"

lemma child_name_step: "child_name pre tags before tag = pre @ step_name tags before tag"
  by (simp add: child_name_def step_name_def)

lemma step_name_plain:
  assumes "path_free tag"
  shows "step_name tags before tag \<noteq> []" and "CHR ''.'' \<notin> set (step_name tags before tag)"
    and "last (step_name tags before tag) \<noteq> CHR ''.''"
proof -
  have dot: "\<not> is_digit (CHR ''.'')" by (simp add: is_digit_def)
  show "step_name tags before tag \<noteq> []" using assms by (simp add: step_name_def path_free_def)
  show nd: "CHR ''.'' \<notin> set (step_name tags before tag)"
    using assms dot nat_str_digits by (auto simp: step_name_def path_free_def)
  show "last (step_name tags before tag) \<noteq> CHR ''.''"
    using nd \<open>step_name tags before tag \<noteq> []\<close> by (metis last_in_set)
qed

lemma step_name_inj:
  assumes "path_free s" and "path_free t" and "step_name tags b s = step_name tags b' t"
  shows "s = t \<and> (1 < count_list tags s \<longrightarrow> count_list b s = count_list b' t)"
proof -
  have tw: "takeWhile (\<lambda>c. c \<noteq> CHR ''['') (step_name tags b u) = u" if "path_free u" for u b
  proof -
    have all: "\<forall>c \<in> set u. c \<noteq> CHR ''[''" using that by (auto simp: path_free_def)
    then have "takeWhile (\<lambda>c. c \<noteq> CHR ''['') (u @ w) = u @ takeWhile (\<lambda>c. c \<noteq> CHR ''['') w" for w
      by (simp add: takeWhile_append2)
    from this [of "[]"] this [of "''['' @ nat_str (count_list b u) @ '']''"] show ?thesis
      by (simp add: step_name_def)
  qed
  from tw [OF assms(1), of b] tw [OF assms(2), of b'] assms(3) have "s = t" by simp
  moreover have "count_list b s = count_list b' t" if "1 < count_list tags s"
  proof -
    from that \<open>s = t\<close> assms(3) have "nat_str (count_list b s) = nat_str (count_list b' t)"
      by (simp add: step_name_def)
    then show ?thesis
      by (metis digits_val_dec_str int_str_def nat_str_def of_nat_0_le_iff of_nat_eq_iff of_nat_less_0_iff)
  qed
  ultimately show ?thesis by simp
qed

text \<open>Two children of one element never get the same path, and no path is the parent of another.\<close>

lemma child_paths_apart:
  assumes "i < j" and "j < length tags" and "\<forall>t \<in> set tags. path_free t"
  shows "step_name tags (take i tags) (tags ! i) \<noteq> step_name tags (take j tags) (tags ! j)"
proof
  assume "step_name tags (take i tags) (tags ! i) = step_name tags (take j tags) (tags ! j)"
  with assms have same: "tags ! i = tags ! j"
    and cnt: "1 < count_list tags (tags ! i) \<longrightarrow> count_list (take i tags) (tags ! i) = count_list (take j tags) (tags ! i)"
    using step_name_inj [of "tags ! i" "tags ! j" tags "take i tags" "take j tags"] by auto
  have split: "take j tags = take i tags @ tags ! i # drop (Suc i) (take j tags)"
    using assms(1,2) id_take_nth_drop [of i "take j tags"] by (simp add: min_def)
  have less: "count_list (take i tags) (tags ! i) < count_list (take j tags) (tags ! i)"
    by (subst split) simp
  have "tags = take j tags @ tags ! j # drop (Suc j) tags" using assms(2) by (rule id_take_nth_drop)
  then have "count_list tags (tags ! j) = count_list (take j tags @ tags ! j # drop (Suc j) tags) (tags ! j)" by simp
  with less same have "1 < count_list tags (tags ! i)" by simp
  with cnt less show False by simp
qed

section \<open>The cells of a record\<close>

definition plain_tree :: "xml \<Rightarrow> bool" where
  "plain_tree e \<longleftrightarrow> (\<forall>x \<in> set (below e). path_free (local_tag x))"

lemma plain_tree_children:
  "plain_tree e \<longleftrightarrow> (\<forall>c \<in> set (xml_children e). path_free (local_tag c) \<and> plain_tree c)"
proof -
  have "set (below e) = (\<Union>c \<in> set (xml_children e). insert c (set (below c)))"
    by (simp add: below_def [of e] iter_tree_eq)
  then show ?thesis unfolding plain_tree_def by blast
qed

lemma dict_update_keys [simp]: "fst ` set (dict_update d e) = fst ` set d \<union> fst ` set e"
  unfolding dict_update_def by (induction e arbitrary: d) (simp_all add: split_beta)

lemma dict_update_other: "k \<notin> set (dict_keys e) \<Longrightarrow> dict_get (dict_update d e) k = dict_get d k"
  unfolding dict_update_def by (induction e arbitrary: d) auto

lemma attr_cells_keys: "k \<in> set (dict_keys (attr_cells e pre)) \<Longrightarrow> prefix pre k"
  unfolding attr_cells_def dict_of_keys by auto

text \<open>What one child adds.\<close>

definition child_step :: "string list \<Rightarrow> string list \<Rightarrow> string \<Rightarrow> xml \<Rightarrow> row \<Rightarrow> row" where
  "child_step tags before pre c out =
     (let name = child_name pre tags before (local_tag c) in
      if xml_children c \<noteq> [] \<or> xml_attrib c \<noteq> [] then
        (let o1 = dict_update out (xml_flatten c (name @ ''.'')) in
         if own_text c \<noteq> [] then dict_set name (own_text c) o1 else o1)
      else dict_set name (own_text c) out)"

lemma flatten_children_Cons:
  "flatten_children (c # cs) tags before pre out =
     flatten_children cs tags (before @ [local_tag c]) pre (child_step tags before pre c out)"
  by (simp add: child_step_def)

lemma flatten_children_append:
  "flatten_children (xs @ ys) tags before pre out =
     flatten_children ys tags (before @ map local_tag xs) pre (flatten_children xs tags before pre out)"
  by (induction xs arbitrary: before out) (simp_all add: flatten_children_Cons del: flatten_children.simps(2))

text \<open>Every column of an element's row lies under its path, or is the path itself.\<close>

definition keys_under :: "xml \<Rightarrow> bool" where
  "keys_under c \<longleftrightarrow> (\<forall>p. \<forall>k \<in> set (dict_keys (xml_flatten c p)). prefix p k \<or> k = drop_dots p)"

lemma drop_dots_child: "path_free t \<Longrightarrow>
    drop_dots (child_name pre tags before t @ ''.'') = child_name pre tags before t"
  unfolding child_name_step using step_name_plain [of t tags before] by (intro drop_dots_snoc) simp_all

lemma child_step_keys:
  assumes "path_free (local_tag c)" and "keys_under c"
    and "k \<in> set (dict_keys (child_step tags before pre c out))"
  shows "k \<in> set (dict_keys out) \<or> k = child_name pre tags before (local_tag c)
    \<or> prefix (child_name pre tags before (local_tag c) @ ''.'') k"
proof -
  let ?n = "child_name pre tags before (local_tag c)"
  have "\<forall>k \<in> set (dict_keys (xml_flatten c (?n @ ''.''))). prefix (?n @ ''.'') k \<or> k = ?n"
    using assms(2) drop_dots_child [OF assms(1)] unfolding keys_under_def by metis
  moreover have "set (dict_keys (child_step tags before pre c out))
      \<subseteq> insert ?n (set (dict_keys out) \<union> set (dict_keys (xml_flatten c (?n @ ''.''))))"
    unfolding child_step_def Let_def by simp blast
  ultimately show ?thesis using assms(3) by blast
qed

lemma child_name_prefix: "prefix (child_name pre tags before t @ w) k \<Longrightarrow> prefix pre k"
  by (simp only: child_name_step append.assoc) (rule append_prefixD)

lemma flatten_children_keys:
  assumes "\<forall>c \<in> set cs. keys_under c \<and> path_free (local_tag c)"
    and "k \<in> set (dict_keys (flatten_children cs tags before pre out))"
  shows "k \<in> set (dict_keys out) \<or> prefix pre k"
  using assms
proof (induction cs arbitrary: before out)
  case (Cons c cs)
  have "k \<in> set (dict_keys (child_step tags before pre c out)) \<or> prefix pre k"
    using Cons.prems by (intro Cons.IH [of "before @ [local_tag c]"]) (simp, simp only: flatten_children_Cons)
  moreover have "prefix pre k" if "k \<in> set (dict_keys (child_step tags before pre c out))" "k \<notin> set (dict_keys out)"
    using child_step_keys [OF _ _ that(1)] that(2) Cons.prems(1)
      child_name_prefix [of pre tags before "local_tag c" "[]" k]
      child_name_prefix [of pre tags before "local_tag c" "''.''" k] by auto
  ultimately show ?case by blast
qed simp

lemma flatten_keys: "plain_tree e \<Longrightarrow> keys_under e"
proof (induction e)
  case (Elem t as body cs)
  have ok: "\<forall>c \<in> set cs. keys_under c \<and> path_free (local_tag c)"
    using Elem by (simp add: plain_tree_children [of "Elem t as body cs"])
  have "prefix p k \<or> k = drop_dots p" if "k \<in> set (dict_keys (xml_flatten (Elem t as body cs) p))" for p k
  proof (cases "cs = []")
    case True
    then have "set (dict_keys (xml_flatten (Elem t as body cs) p))
        \<subseteq> insert (drop_dots p) (set (dict_keys (attr_cells (Elem t as body cs) p)))"
      by (simp add: leaf_cell_def subset_insertI)
    with that attr_cells_keys [of k "Elem t as body cs" p] show ?thesis by blast
  next
    case False
    with that attr_cells_keys [of k "Elem t as body cs" p]
      flatten_children_keys [OF ok, of k "map local_tag cs" "[]" p "attr_cells (Elem t as body cs) p"]
    show ?thesis by (auto simp del: set_map)
  qed
  then show ?case unfolding keys_under_def by blast
qed

lemma flatten_children_other:
  assumes "\<forall>c \<in> set cs. keys_under c \<and> path_free (local_tag c)"
    and "\<forall>j < length cs. \<not> prefix (child_name pre tags (before @ map local_tag (take j cs)) (local_tag (cs ! j)) @ ''.'') k
      \<and> k \<noteq> child_name pre tags (before @ map local_tag (take j cs)) (local_tag (cs ! j))"
  shows "dict_get (flatten_children cs tags before pre out) k = dict_get out k"
  using assms
proof (induction cs arbitrary: before out)
  case (Cons c cs)
  let ?n = "child_name pre tags before (local_tag c)"
  have n: "\<not> prefix (?n @ ''.'') k" "k \<noteq> ?n" using spec [OF Cons.prems(2), of 0] by simp_all
  have "\<forall>k \<in> set (dict_keys (xml_flatten c (?n @ ''.''))). prefix (?n @ ''.'') k \<or> k = ?n"
    using Cons.prems(1) drop_dots_child [of "local_tag c" pre tags before] unfolding keys_under_def by (metis list.set_intros(1))
  with n(1,2) have "k \<notin> set (dict_keys (xml_flatten c (?n @ ''.'')))" by blast
  then have "dict_get (dict_update out (xml_flatten c (?n @ ''.''))) k = dict_get out k" by (rule dict_update_other)
  with n(2) have "dict_get (child_step tags before pre c out) k = dict_get out k"
    by (simp add: child_step_def Let_def)
  moreover have "dict_get (flatten_children cs tags (before @ [local_tag c]) pre out') k = dict_get out' k" for out'
  proof (rule Cons.IH)
    show "\<forall>j < length cs. \<not> prefix (child_name pre tags ((before @ [local_tag c]) @ map local_tag (take j cs)) (local_tag (cs ! j)) @ ''.'') k
      \<and> k \<noteq> child_name pre tags ((before @ [local_tag c]) @ map local_tag (take j cs)) (local_tag (cs ! j))"
    proof (intro allI impI)
      fix j assume "j < length cs"
      with spec [OF Cons.prems(2), of "Suc j"] show "\<not> prefix (child_name pre tags ((before @ [local_tag c]) @ map local_tag (take j cs)) (local_tag (cs ! j)) @ ''.'') k
      \<and> k \<noteq> child_name pre tags ((before @ [local_tag c]) @ map local_tag (take j cs)) (local_tag (cs ! j))" by simp
    qed
  qed (use Cons.prems(1) in simp)
  ultimately show ?case by (simp only: flatten_children_Cons)
qed simp

lemma paths_apart:
  fixes pre :: string
  assumes "\<forall>c \<in> set cs. path_free (local_tag c)" and "i < j" and "j < length cs"
  defines "n \<equiv> \<lambda>k. child_name pre (map local_tag cs) (take k (map local_tag cs)) (local_tag (cs ! k))"
  shows "n i \<noteq> n j \<and> \<not> prefix (n j @ ''.'') (n i)"
proof -
  let ?s = "\<lambda>k. step_name (map local_tag cs) (take k (map local_tag cs)) (map local_tag cs ! k)"
  have n: "n k = pre @ ?s k" if "k < length cs" for k
    using that by (simp add: n_def child_name_step)
  have "?s i \<noteq> ?s j"
    by (rule child_paths_apart) (use assms(1-3) in simp_all)
  moreover have "\<not> prefix (?s j @ ''.'') (?s i)"
  proof
    assume "prefix (?s j @ ''.'') (?s i)"
    then have "CHR ''.'' \<in> set (?s i)" by (auto simp: prefix_def)
    moreover have "path_free (map local_tag cs ! i)" using assms(1-3) by simp
    ultimately show False using step_name_plain(2) by blast
  qed
  ultimately show ?thesis using n [of i] n [of j] assms(2,3) by simp
qed

lemma leaf_kept:
  assumes "plain_tree (Elem t as body cs)" and "i < length cs"
    and "xml_children (cs ! i) = []" and "xml_attrib (cs ! i) = []"
  shows "dict_get (xml_flatten (Elem t as body cs) pre)
      (child_name pre (map local_tag cs) (take i (map local_tag cs)) (local_tag (cs ! i))) = Some (own_text (cs ! i))"
proof -
  let ?tags = "map local_tag cs"
  let ?n = "child_name pre ?tags (take i ?tags) (local_tag (cs ! i))"
  have ok: "\<forall>c \<in> set cs. keys_under c \<and> path_free (local_tag c)"
    using assms(1) flatten_keys by (auto simp: plain_tree_children [of "Elem t as body cs"])
  have split: "cs = take i cs @ cs ! i # drop (Suc i) cs" using assms(2) by (rule id_take_nth_drop)
  let ?out = "flatten_children (take i cs) ?tags [] pre (attr_cells (Elem t as body cs) pre)"
  have "xml_flatten (Elem t as body cs) pre
      = flatten_children cs ?tags [] pre (attr_cells (Elem t as body cs) pre)"
    using assms(2) by auto
  also have "\<dots> = flatten_children (take i cs @ cs ! i # drop (Suc i) cs) ?tags [] pre (attr_cells (Elem t as body cs) pre)"
    using split by simp
  also have "\<dots> = flatten_children (drop (Suc i) cs) ?tags (take (Suc i) ?tags) pre
      (child_step ?tags (take i ?tags) pre (cs ! i) ?out)"
    using assms(2) by (simp only: flatten_children_append flatten_children_Cons append_Nil take_map)
      (simp add: take_Suc_conv_app_nth take_map)
  finally have eq: "xml_flatten (Elem t as body cs) pre = \<dots>" .
  have step: "child_step ?tags (take i ?tags) pre (cs ! i) ?out = dict_set ?n (own_text (cs ! i)) ?out"
    by (simp add: child_step_def assms(3,4))
  have "dict_get (flatten_children (drop (Suc i) cs) ?tags (take (Suc i) ?tags) pre out) ?n = dict_get out ?n" for out
  proof (rule flatten_children_other)
    show "\<forall>c \<in> set (drop (Suc i) cs). keys_under c \<and> path_free (local_tag c)"
      using ok by (meson in_set_dropD)
    show "\<forall>j < length (drop (Suc i) cs).
        \<not> prefix (child_name pre ?tags (take (Suc i) ?tags @ map local_tag (take j (drop (Suc i) cs)))
            (local_tag (drop (Suc i) cs ! j)) @ ''.'') ?n
      \<and> ?n \<noteq> child_name pre ?tags (take (Suc i) ?tags @ map local_tag (take j (drop (Suc i) cs)))
            (local_tag (drop (Suc i) cs ! j))"
    proof (intro allI impI)
      fix j assume "j < length (drop (Suc i) cs)"
      then have j: "Suc i + j < length cs" by simp
      have b: "take (Suc i) ?tags @ map local_tag (take j (drop (Suc i) cs)) = take (Suc i + j) ?tags"
        by (simp only: take_add take_map drop_map map_append)
      from paths_apart [of cs i "Suc i + j" pre] ok j
      show "\<not> prefix (child_name pre ?tags (take (Suc i) ?tags @ map local_tag (take j (drop (Suc i) cs)))
            (local_tag (drop (Suc i) cs ! j)) @ ''.'') ?n
        \<and> ?n \<noteq> child_name pre ?tags (take (Suc i) ?tags @ map local_tag (take j (drop (Suc i) cs)))
            (local_tag (drop (Suc i) cs ! j))"
        unfolding b by (simp add: j)
    qed
  qed
  then show ?thesis by (simp only: eq step dict_get_set simp_thms if_True)
qed

lemma xml_flatten_distinct:
  "distinct (dict_keys (xml_flatten e pre))"
  "distinct (dict_keys out) \<Longrightarrow> distinct (dict_keys (flatten_children cs tags before pre out))"
  by (induction e pre and cs tags before pre out rule: xml_flatten_flatten_children.induct)
    (simp_all add: leaf_cell_def attr_cells_def Let_def)

lemma xml_parse_square:
  assumes "xml_parse etree raw = Inr t" and "r \<in> set (t_rows t)"
  shows "distinct (dict_keys r) \<and> set (dict_keys r) = set (t_headers t)"
proof -
  from assms(1) obtain records where
    t: "t_headers t = first_seen (map (\<lambda>e. xml_flatten e []) records)"
      "t_rows t = map (square (first_seen (map (\<lambda>e. xml_flatten e []) records))) (map (\<lambda>e. xml_flatten e []) records)"
    by (auto simp: xml_parse_def Let_def make_squared_table split: option.splits prod.splits if_splits)
  have "\<forall>r \<in> set (map (\<lambda>e. xml_flatten e []) records). distinct (dict_keys r)"
    by (simp add: xml_flatten_distinct)
  from squared_rows [OF this, of r] assms(2) show ?thesis unfolding t by blast
qed

section \<open>Properties\<close>

text \<open>The record element is the best of its kind: whenever some tag repeats with content, the
  records are all the elements of one such tag below the root, and no other such tag scores higher.\<close>

lemma record_element_best:
  assumes "xml_find_records doc = (tag, es)" and "e \<in> set (below doc)"
    and "eligible (filter (\<lambda>x. local_tag x = local_tag e) (below doc))"
  shows "es = filter (\<lambda>x. local_tag x = tag) (below doc) \<and> eligible es
    \<and> record_score (filter (\<lambda>x. local_tag x = local_tag e) (below doc)) \<le> record_score es"
proof -
  obtain es' where e: "(local_tag e, es') \<in> set (by_tag doc)" using by_tag_complete [OF assms(2)] by blast
  with by_tag_entry have es': "es' = filter (\<lambda>x. local_tag x = local_tag e) (below doc)" by blast
  have "best_records (by_tag doc) None \<noteq> None"
    unfolding best_records_None using e assms(3) es' by force
  with assms(1) have b: "best_records (by_tag doc) None = Some (tag, es)"
    by (auto simp: xml_find_records_def)
  from best_records_spec [OF b] have spec: "(tag, es) \<in> set (by_tag doc)" "eligible es"
    "\<forall>te \<in> set (by_tag doc). eligible (snd te) \<longrightarrow> record_score (snd te) \<le> record_score es" by auto
  with bspec [OF spec(3) e] assms(3) es' by_tag_entry show ?thesis by auto
qed


section \<open>Example\<close>

definition leaf :: "string \<Rightarrow> string \<Rightarrow> xml" where
  "leaf t v = Elem t [] (Some v) []"

definition trade_legs :: xml where
  "trade_legs = Elem ''Trade'' [(''id'', ''T1'')] None [leaf ''Leg'' ''1'', leaf ''Ccy'' ''USD'', leaf ''Leg'' ''2'']"

definition trade_doc :: xml where
  "trade_doc = Elem ''Extract'' [] None [Elem ''Trades'' [] None [trade_legs, trade_legs]]"

lemma trade_records: "xml_find_records trade_doc = (''Trade'', [trade_legs, trade_legs])"
  by code_simp

lemma record_element_best_witness:
  "record_score (filter (\<lambda>x. local_tag x = ''Trade'') (below trade_doc)) \<le> record_score [trade_legs, trade_legs]"
proof -
  have "trade_legs \<in> set (below trade_doc)" "local_tag trade_legs = ''Trade''"
    "eligible (filter (\<lambda>x. local_tag x = ''Trade'') (below trade_doc))"
    by code_simp+
  with record_element_best [OF trade_records, of trade_legs] show ?thesis by simp
qed


end
