(* ===== verification/FixmlParser.thy ===== *)
theory FixmlParser
  imports XmlTree PyFloat
begin

text \<open>
  FIXML reports: \<open>python/src/inspector/parsers/fixml.py\<close>. The report elements anywhere in the document
  are the records; FIX attribute names are translated to readable headers, the instrument's
  identifier is named by its source and the customer account is read off the party blocks. A row is
  threaded through the loops as the code's dictionary \<open>out\<close>.
\<close>

definition FIX_FIELDS :: "(string, string) dict" where
  "FIX_FIELDS =
     [(''ExecID'', ''ExecID''), (''OrderID'', ''OrderID''), (''TradeID'', ''TradeID''), (''ClOrdID'', ''ClOrdID''),
      (''LastQty'', ''LastQty''), (''CumQty'', ''CumQty''), (''LastPx'', ''LastPx''), (''AvgPx'', ''AvgPx''),
      (''SettlPx'', ''Settlement Price''), (''SettlCurrAmt'', ''Settlement Amount''), (''NetMoney'', ''NetMoney''),
      (''GrossTradeAmt'', ''Gross Amount''), (''TrdDt'', ''Trade Date''), (''TradeDate'', ''Trade Date''),
      (''SettlDt'', ''Settlement Date''), (''TransactTime'', ''Transaction Time''), (''Ccy'', ''Currency''),
      (''Curr'', ''Currency''), (''SettlCurrency'', ''Settlement Currency''), (''Sym'', ''Symbol''),
      (''Issr'', ''Issuer''), (''Desc'', ''Security Description''), (''SecTyp'', ''Security Type''),
      (''MatDt'', ''Maturity Date'')]"

definition SIDE_CODES :: "(string, string) dict" where
  "SIDE_CODES = [(''1'', ''BUY''), (''2'', ''SELL''), (''3'', ''BUY''), (''4'', ''SELL''), (''5'', ''SELL''),
     (''6'', ''SELL'')]"

definition ID_SOURCES :: "(string, string) dict" where
  "ID_SOURCES = [(''1'', ''CUSIP''), (''2'', ''SEDOL''), (''4'', ''ISIN''), (''8'', ''Ticker''), (''5'', ''RIC'')]"

definition ACCOUNT_ROLES :: "string list" where
  "ACCOUNT_ROLES = [''24'', ''3'', ''1'']"

definition RECORD_TAGS :: "string list" where
  "RECORD_TAGS = [''ExecRpt'', ''TrdCaptRpt'', ''Position'', ''PosRpt'', ''Alloc'']"

text \<open>\<open>sniff\<close>, on the decoded head.\<close>

definition fixml_sniff :: "string \<Rightarrow> string \<Rightarrow> rat" where
  "fixml_sniff head name =
     (let body = lstrip head in
      if \<not> prefix ''<'' body then 0
      else let up = upper (take 4000 body) in
        if contains ''<FIXML'' up then fl (98 / 100)
        else if list_ex (\<lambda>t. contains (''<'' @ upper t) up) RECORD_TAGS then fl (9 / 10)
        else 0)"

section \<open>One report\<close>

definition fix_name :: "string \<Rightarrow> string" where
  "fix_name n = dict_get_or FIX_FIELDS n n"

definition attribute_cell :: "string \<Rightarrow> string \<times> string \<Rightarrow> row \<Rightarrow> row" where
  "attribute_cell pre = (\<lambda>(k, v) out.
     if localname k = ''Side'' then dict_set ''Side'' (dict_get_or SIDE_CODES v v) out
     else dict_set (pre @ fix_name (localname k)) (strip v) out)"

definition attribute_cells :: "xml \<Rightarrow> string \<Rightarrow> row \<Rightarrow> row" where
  "attribute_cells e pre out = fold (attribute_cell pre) (xml_attrib e) out"

text \<open>\<open>{_localname(k): str(v)}\<close>.\<close>

definition local_attrs :: "xml \<Rightarrow> (string, string) dict" where
  "local_attrs e = dict_of (map (\<lambda>(k, v). (localname k, v)) (xml_attrib e))"

definition instrument_cells :: "xml \<Rightarrow> row \<Rightarrow> row" where
  "instrument_cells e out =
     (let attrs = local_attrs e;
          o1 = (case dict_get attrs ''Sym'' of None \<Rightarrow> out | Some s \<Rightarrow> dict_set ''Symbol'' s out);
          identifier = dict_get_or attrs ''ID'' [];
          o2 = (if identifier \<noteq> []
                then dict_set (dict_get_or ID_SOURCES (dict_get_or attrs ''IDSrc'' []) ''Security ID'') identifier o1
                else o1)
      in fold (\<lambda>(n, v) out. if n \<in> {''Sym'', ''ID'', ''IDSrc''} then out
                            else dict_set (''Instrmt.'' @ fix_name n) v out) attrs o2)"

definition party_cells :: "xml \<Rightarrow> row \<Rightarrow> row" where
  "party_cells e out =
     (let attrs = local_attrs e; role = dict_get_or attrs ''R'' []; identifier = dict_get_or attrs ''ID'' [] in
      if identifier = [] then out
      else if role \<in> set ACCOUNT_ROLES then dict_set ''Account ID'' identifier out
      else dict_set (''Party.'' @ (if role \<noteq> [] then role else ''unknown'')) identifier out)"

definition child_cells :: "xml \<Rightarrow> row \<Rightarrow> row" where
  "child_cells c out =
     (let tag = local_tag c in
      if tag = ''Instrmt'' then instrument_cells c out
      else if tag = ''Pty'' then party_cells c out
      else let o1 = attribute_cells c (tag @ ''.'') out in
        if own_text c \<noteq> [] then dict_set (fix_name tag) (own_text c) o1 else o1)"

definition flatten_report :: "xml \<Rightarrow> row" where
  "flatten_report e = fold child_cells (xml_children e) (attribute_cells e [] [])"

section \<open>The document\<close>

definition reports_of :: "xml \<Rightarrow> xml list" where
  "reports_of doc = filter (\<lambda>e. local_tag e \<in> set RECORD_TAGS) (iter_tree doc)"

definition fixml_parse :: "etree \<Rightarrow> string \<Rightarrow> parsed_table result" where
  "fixml_parse etree raw =
     (case etree raw of
        None \<Rightarrow> Inl (ParseError ''malformed FIXML'')
      | Some doc \<Rightarrow>
          let records = reports_of doc in
          if records = [] then Inl (ParseError ''no FIXML report elements found'')
          else
            let rs = map flatten_report records; hs = first_seen rs
            in make_table hs (map (square hs) rs)
                 [(''record_elements'', join '','' (sort (remdups (map local_tag records)))),
                  (''record_count'', nat_str (length records)),
                  (''fix_version'', (case map_of (xml_attrib doc) ''v'' of None \<Rightarrow> [] | Some v \<Rightarrow> v))] [])"

section \<open>The side of a report\<close>

text \<open>A row whose side, if it has one, is not a FIX code.\<close>

definition side_decoded :: "row \<Rightarrow> bool" where
  "side_decoded r \<longleftrightarrow> (\<forall>s. dict_get r ''Side'' = Some s \<longrightarrow> s \<notin> set (dict_keys SIDE_CODES))"

lemma side_decoded_other: "side_decoded r \<Longrightarrow> k \<noteq> ''Side'' \<Longrightarrow> side_decoded (dict_set k v r)"
  by (simp add: side_decoded_def)

lemma side_decoded_Nil [simp]: "side_decoded []"
  by (simp add: side_decoded_def)

lemma decode_side: "dict_get_or SIDE_CODES v v \<notin> set (dict_keys SIDE_CODES)"
  by (simp add: SIDE_CODES_def dict_get_or_def)

lemma fix_name_side: "fix_name n = ''Side'' \<Longrightarrow> n = ''Side''"
  by (auto simp: fix_name_def dict_get_or_def FIX_FIELDS_def split: if_splits)

lemma dotted_not_side: "pre @ ''.'' @ n \<noteq> ''Side''"
proof
  assume "pre @ ''.'' @ n = ''Side''"
  then have "CHR ''.'' \<in> set ''Side''" by (metis append_is_Nil_conv in_set_conv_decomp append.left_neutral append_Cons)
  then show False by simp
qed

lemma side_decoded_fold:
  assumes "\<And>x r. x \<in> set xs \<Longrightarrow> side_decoded r \<Longrightarrow> side_decoded (f x r)" and "side_decoded r"
  shows "side_decoded (fold f xs r)"
  using assms by (induction xs arbitrary: r) simp_all

lemma attribute_cells_side:
  assumes "side_decoded out" and "pre = [] \<or> (\<exists>t. pre = t @ ''.'')"
  shows "side_decoded (attribute_cells e pre out)"
  unfolding attribute_cells_def
proof (rule side_decoded_fold [OF _ assms(1)])
  fix kv :: "string \<times> string" and r :: row
  assume r: "side_decoded r"
  obtain k v where kv: "kv = (k, v)" by (cases kv)
  show "side_decoded (attribute_cell pre kv r)"
  proof (cases "localname k = ''Side''")
    case True
    then show ?thesis using decode_side [of v] by (simp add: attribute_cell_def kv side_decoded_def)
  next
    case False
    then have "pre @ fix_name (localname k) \<noteq> ''Side''"
      using assms(2) fix_name_side dotted_not_side by auto
    with False r show ?thesis by (simp add: attribute_cell_def kv side_decoded_other)
  qed
qed

lemma instrument_cells_side:
  assumes "side_decoded out"
  shows "side_decoded (instrument_cells e out)"
proof -
  have src: "dict_get_or ID_SOURCES x ''Security ID'' \<noteq> ''Side''" for x
    by (simp add: ID_SOURCES_def dict_get_or_def)
  have pre: "''Instrmt.'' @ n \<noteq> ''Side''" for n by simp
  show ?thesis
    unfolding instrument_cells_def Let_def
    by (rule side_decoded_fold)
      (use assms src pre in \<open>auto intro!: side_decoded_other split: option.split\<close>)
qed

lemma party_cells_side: "side_decoded out \<Longrightarrow> side_decoded (party_cells e out)"
  by (simp add: party_cells_def Let_def side_decoded_other)

lemma child_cells_side:
  assumes "side_decoded out" and "local_tag c \<noteq> ''Side''"
  shows "side_decoded (child_cells c out)"
  using assms fix_name_side [of "local_tag c"] attribute_cells_side [OF assms(1), of "local_tag c @ ''.''" c]
  by (auto simp: child_cells_def Let_def instrument_cells_side party_cells_side intro!: side_decoded_other)

lemma flatten_report_side:
  assumes "\<forall>c \<in> set (xml_children e). local_tag c \<noteq> ''Side''"
  shows "side_decoded (flatten_report e)"
  unfolding flatten_report_def
  by (rule side_decoded_fold) (use assms in \<open>simp_all add: child_cells_side attribute_cells_side\<close>)

section \<open>Rows of reports\<close>

lemma attribute_cells_distinct: "distinct (dict_keys out) \<Longrightarrow> distinct (dict_keys (attribute_cells e pre out))"
proof -
  have "distinct (dict_keys out) \<Longrightarrow> distinct (dict_keys (fold (attribute_cell pre) kvs out))" for kvs
    by (induction kvs arbitrary: out) (auto simp: attribute_cell_def)
  then show "distinct (dict_keys out) \<Longrightarrow> ?thesis" by (simp add: attribute_cells_def)
qed

lemma distinct_keys_fold:
  assumes "\<And>x r. distinct (dict_keys r) \<Longrightarrow> distinct (dict_keys (f x r))" and "distinct (dict_keys r)"
  shows "distinct (dict_keys (fold f xs r))"
  using assms by (induction xs arbitrary: r) simp_all

lemma instrument_cells_distinct:
  assumes "distinct (dict_keys out)"
  shows "distinct (dict_keys (instrument_cells e out))"
  unfolding instrument_cells_def Let_def
  by (rule distinct_keys_fold) (use assms in \<open>auto split: option.split\<close>)

lemma flatten_report_distinct: "distinct (dict_keys (flatten_report e))"
proof -
  have "distinct (dict_keys out) \<Longrightarrow> distinct (dict_keys (child_cells c out))" for c out
    by (simp add: child_cells_def party_cells_def Let_def instrument_cells_distinct attribute_cells_distinct)
  then have "distinct (dict_keys out) \<Longrightarrow> distinct (dict_keys (fold child_cells cs out))" for cs out
    by (induction cs arbitrary: out) simp_all
  then show ?thesis by (simp add: flatten_report_def attribute_cells_distinct)
qed

lemma fixml_parse_square:
  assumes "fixml_parse etree raw = Inr t" and "r \<in> set (t_rows t)"
  shows "distinct (dict_keys r) \<and> set (dict_keys r) = set (t_headers t)"
proof -
  from assms(1) obtain records where
    t: "t_headers t = first_seen (map flatten_report records)"
      "t_rows t = map (square (first_seen (map flatten_report records))) (map flatten_report records)"
    by (auto simp: fixml_parse_def Let_def make_squared_table split: option.splits if_splits)
  have "\<forall>r \<in> set (map flatten_report records). distinct (dict_keys r)"
    by (simp add: flatten_report_distinct)
  from squared_rows [OF this, of r] assms(2) show ?thesis unfolding t by blast
qed

section \<open>Property\<close>

text \<open>No FIX side code reaches the mapping: in a document without elements of their own for the side,
  no row of the table has a code in its side column.\<close>

lemma fixml_side_decoded:
  assumes "fixml_parse etree raw = Inr t" and "etree raw = Some doc"
    and "\<forall>x \<in> set (iter_tree doc). local_tag x \<noteq> ''Side''"
  shows "\<forall>r \<in> set (t_rows t). cell r ''Side'' \<notin> set (dict_keys SIDE_CODES)"
proof
  fix r assume "r \<in> set (t_rows t)"
  with assms(1,2) obtain e hs where e: "e \<in> set (iter_tree doc)" and r: "r = square hs (flatten_report e)"
    by (auto simp: fixml_parse_def reports_of_def Let_def make_squared_table split: if_splits)
  have "\<forall>c \<in> set (xml_children e). local_tag c \<noteq> ''Side''"
    using e assms(3) iter_tree_child by blast
  then have "side_decoded (flatten_report e)" by (rule flatten_report_side)
  then show "cell r ''Side'' \<notin> set (dict_keys SIDE_CODES)"
    by (auto simp: r dict_get_or_def square_get_iff side_decoded_def SIDE_CODES_def split: option.splits)
qed

section \<open>Example\<close>

definition exec_report :: xml where
  "exec_report = Elem ''{urn}FIXML'' [(''v'', ''4.4'')] None
     [Elem ''{urn}ExecRpt'' [(''Side'', ''1''), (''LastPx'', '' 9.5'')] None
        [Elem ''Instrmt'' [(''ID'', ''X1''), (''IDSrc'', ''4'')] None [], Elem ''Pty'' [(''ID'', ''A7''), (''R'', ''24'')] None []]]"

definition exec_table :: parsed_table where
  "exec_table = \<lparr>t_headers = [''Side'', ''LastPx'', ''ISIN'', ''Account ID''],
     t_rows = [[(''Side'', ''BUY''), (''LastPx'', ''9.5''), (''ISIN'', ''X1''), (''Account ID'', ''A7'')]],
     t_evidence = [(''record_elements'', ''ExecRpt''), (''record_count'', ''1''), (''fix_version'', ''4.4'')],
     t_warnings = []\<rparr>"

lemma exec_parses: "fixml_parse (\<lambda>raw. Some exec_report) ''x'' = Inr exec_table"
  by code_simp

lemma fixml_side_decoded_witness:
  "list_all (\<lambda>r. cell r ''Side'' \<notin> set (dict_keys SIDE_CODES)) (t_rows exec_table)"
proof -
  have "\<forall>x \<in> set (iter_tree exec_report). local_tag x \<noteq> ''Side''" by code_simp
  from fixml_side_decoded [OF exec_parses refl this] show ?thesis by (simp add: list_all_iff)
qed

end
