(* ===== verification/JsonParser.thy ===== *)
theory JsonParser
  imports Rows PyFloat PyJson
begin

text \<open>
  JSON payloads: \<open>python/src/inspector/parsers/json_parser.py\<close>. A payload is found in its envelope,
  every record is flattened to dotted paths by recursion on the document, the envelope's scalars are
  added, and the rows are squared off over the union of their columns. The bytes are decoded by the
  caller of the model: \<open>None\<close> is a payload that is not UTF-8. The text of the decoder's message is
  left out of the error.
\<close>

definition RECORD_KEYS :: "string list" where
  "RECORD_KEYS = [''records'', ''rows'', ''data'', ''items'', ''trades'', ''positions'', ''entries'', ''messages'',
     ''results'', ''payload'', ''transactions'', ''movements'']"

definition MAX_DEPTH :: nat where "MAX_DEPTH = 8"

text \<open>\<open>sniff\<close>, on the decoded head.\<close>

definition json_sniff :: "string \<Rightarrow> string \<Rightarrow> rat" where
  "json_sniff head name =
     (let body = lstrip head in
      if body = [] \<or> hd body \<notin> {CHR ''{'', CHR ''[''} then 0
      else if suffix ''.json'' (lower name) then fl (95 / 100) else fl (85 / 100))"

section \<open>Flattening\<close>

definition is_scalar :: "json \<Rightarrow> bool" where
  "is_scalar v \<longleftrightarrow> \<not> is_arr v \<and> \<not> is_obj v"

definition too_deep :: "json \<Rightarrow> string \<Rightarrow> row" where
  "too_deep v pre = (if pre = [] then [] else [(drop_dots pre, take 512 (json_dumps v))])"

definition scalar_cell :: "json \<Rightarrow> string \<Rightarrow> row" where
  "scalar_cell v pre = (let name = drop_dots pre in
     if name = [] then [] else [(name, if v = JNull then [] else json_str v)])"

text \<open>\<open>flatten\<close>, with its loops over the members of an object and the elements of an array.\<close>

fun flatten :: "json \<Rightarrow> string \<Rightarrow> nat \<Rightarrow> row"
  and flatten_members :: "(string \<times> json) list \<Rightarrow> string \<Rightarrow> nat \<Rightarrow> row \<Rightarrow> row"
  and flatten_elements :: "json list \<Rightarrow> nat \<Rightarrow> string \<Rightarrow> nat \<Rightarrow> row \<Rightarrow> row" where
  "flatten (JObj kvs) pre depth =
     (if MAX_DEPTH < depth then too_deep (JObj kvs) pre else flatten_members kvs pre depth [])"
| "flatten (JArr vs) pre depth =
     (if MAX_DEPTH < depth then too_deep (JArr vs) pre
      else if list_all is_scalar vs then [(drop_dots pre, join '', '' (map json_str vs))]
      else flatten_elements vs 0 pre depth [])"
| "flatten v pre depth = (if MAX_DEPTH < depth then too_deep v pre else scalar_cell v pre)"
| "flatten_members [] pre depth out = out"
| "flatten_members ((k, v) # kvs) pre depth out =
     flatten_members kvs pre depth (dict_update out (flatten v (pre @ k @ ''.'') (depth + 1)))"
| "flatten_elements [] i pre depth out = out"
| "flatten_elements (v # vs) i pre depth out =
     flatten_elements vs (i + 1) pre depth
       (dict_update out (flatten v (pre @ ''['' @ nat_str i @ ''].'') (depth + 1)))"

section \<open>Finding the records\<close>

definition is_records :: "json \<Rightarrow> bool" where
  "is_records v = (case v of JArr vs \<Rightarrow> vs \<noteq> [] \<and> list_all is_obj vs | _ \<Rightarrow> False)"

fun arr_items :: "json \<Rightarrow> json list" where
  "arr_items (JArr vs) = vs"
| "arr_items _ = []"

definition envelope_of :: "(string \<times> json) list \<Rightarrow> row" where
  "envelope_of doc = map (\<lambda>(k, v). (k, json_str v)) (filter (\<lambda>(k, v). is_scalar v \<and> v \<noteq> JNull) doc)"

definition longest_records :: "(string \<times> json) list \<Rightarrow> string \<times> json list" where
  "longest_records doc =
     foldl (\<lambda>best (k, v). if is_records v \<and> length (snd best) < length (arr_items v) then (k, arr_items v) else best)
       ([], []) doc"

definition find_records :: "json \<Rightarrow> json list \<times> row \<times> string" where
  "find_records document =
     (case document of
        JArr vs \<Rightarrow> (filter is_obj vs, [], ''$'')
      | JObj doc \<Rightarrow>
          (let envelope = envelope_of doc in
           case find (\<lambda>k. is_records (dict_get_or doc k JNull)) RECORD_KEYS of
             Some k \<Rightarrow> (arr_items (dict_get_or doc k JNull), envelope, k)
           | None \<Rightarrow>
               let (best_key, best) = longest_records doc in
               if best \<noteq> [] then (best, envelope, best_key)
               else if list_ex (\<lambda>(k, v). is_obj v) doc \<or> envelope \<noteq> []
                 then ([document], [], ''$ (single record)'')
               else ([], [], []))
      | _ \<Rightarrow> ([], [], []))"

section \<open>Parsing\<close>

definition with_envelope :: "row \<Rightarrow> row \<Rightarrow> row" where
  "with_envelope envelope flat = fold (\<lambda>(k, v) r. dict_setdefault k v r) envelope flat"

definition json_parse :: "string option \<Rightarrow> parsed_table result" where
  "json_parse raw =
     (case raw of
        None \<Rightarrow> Inl (ParseError ''malformed JSON'')
      | Some body \<Rightarrow>
          (case json_loads body of
             None \<Rightarrow> Inl (ParseError ''malformed JSON'')
           | Some document \<Rightarrow>
               let (records, envelope, source) = find_records document in
               if records = [] then Inl (ParseError ''no record array or object could be identified'')
               else
                 let rs = map (\<lambda>r. with_envelope envelope (flatten r [] 0)) records;
                     hs = first_seen rs
                 in make_table hs (map (square hs) rs)
                      [(''records_at'', source), (''record_count'', nat_str (length records))] []))"

section \<open>Rows\<close>

lemma with_envelope_get: "dict_get r h = Some v \<Longrightarrow> dict_get (with_envelope e r) h = Some v"
  unfolding with_envelope_def by (induction e arbitrary: r) (auto simp: get_setdefault)

lemma with_envelope_distinct: "distinct (dict_keys r) \<Longrightarrow> distinct (dict_keys (with_envelope e r))"
  unfolding with_envelope_def by (induction e arbitrary: r) auto

lemma flatten_distinct:
  "distinct (dict_keys (flatten v pre depth))"
  "distinct (dict_keys out) \<Longrightarrow> distinct (dict_keys (flatten_members kvs pre depth out))"
  "distinct (dict_keys out) \<Longrightarrow> distinct (dict_keys (flatten_elements vs i pre depth out))"
  by (induction v pre depth and kvs pre depth out and vs i pre depth out
      rule: flatten_flatten_members_flatten_elements.induct)
    (simp_all add: too_deep_def scalar_cell_def Let_def)

lemma json_parse_Inr:
  assumes "json_parse raw = Inr t"
  obtains body document records envelope source where
    "raw = Some body" "json_loads body = Some document" "find_records document = (records, envelope, source)"
    "records \<noteq> []" "t_headers t = first_seen (map (\<lambda>r. with_envelope envelope (flatten r [] 0)) records)"
    "t_rows t = map (square (t_headers t)) (map (\<lambda>r. with_envelope envelope (flatten r [] 0)) records)"
proof -
  obtain body document where d: "raw = Some body" "json_loads body = Some document"
    using assms by (auto simp: json_parse_def split: option.splits)
  obtain records envelope source where f: "find_records document = (records, envelope, source)"
    by (cases "find_records document")
  have ne: "records \<noteq> []" using assms by (auto simp: json_parse_def d f)
  with assms have "t_headers t = first_seen (map (\<lambda>r. with_envelope envelope (flatten r [] 0)) records)"
    "t_rows t = map (square (t_headers t)) (map (\<lambda>r. with_envelope envelope (flatten r [] 0)) records)"
    by (auto simp: json_parse_def d f Let_def make_table_Inr)
  with d f ne that show ?thesis by blast
qed

section \<open>Properties\<close>

text \<open>Every row of a parsed payload has exactly the table's columns, each once, and there is a row for
  every record.\<close>

lemma json_rows_square:
  assumes "json_parse raw = Inr t"
  shows "t_rows t \<noteq> [] \<and> (\<forall>r \<in> set (t_rows t). distinct (dict_keys r) \<and> set (dict_keys r) = set (t_headers t))"
proof -
  obtain envelope records where ne: "records \<noteq> []"
    and hs: "t_headers t = first_seen (map (\<lambda>r. with_envelope envelope (flatten r [] 0)) records)"
    and rows: "t_rows t = map (square (t_headers t)) (map (\<lambda>r. with_envelope envelope (flatten r [] 0)) records)"
    by (rule json_parse_Inr [OF assms]) blast
  have d: "\<forall>r \<in> set (map (\<lambda>r. with_envelope envelope (flatten r [] 0)) records). distinct (dict_keys r)"
    by (simp add: with_envelope_distinct [OF flatten_distinct(1)])
  have "distinct (dict_keys r) \<and> set (dict_keys r) = set (t_headers t)" if "r \<in> set (t_rows t)" for r
    using squared_rows [OF d, of r] that unfolding rows hs by blast
  moreover have "t_rows t \<noteq> []" using ne by (simp add: rows)
  ultimately show ?thesis by blast
qed

text \<open>Parsing a payload fails only with a parse error, the one failure the consumer handles: a
  malformed document or one without records.\<close>

lemma json_fails_cleanly:
  "(case json_parse raw of Inr t \<Rightarrow> True | Inl e \<Rightarrow>
      e = ParseError ''malformed JSON'' \<and> (raw = None \<or> json_loads (the raw) = None)
      \<or> e = ParseError ''no record array or object could be identified''
        \<and> fst (find_records (the (json_loads (the raw)))) = [])"
proof (cases raw)
  case (Some body)
  show ?thesis
  proof (cases "json_loads body")
    case d: (Some document)
    obtain records envelope source where f: "find_records document = (records, envelope, source)"
      by (cases "find_records document")
    show ?thesis by (simp add: json_parse_def Some d f Let_def make_table_def)
  qed (simp add: json_parse_def Some)
qed (simp add: json_parse_def)

text \<open>The envelope fills gaps and never overwrites: what a record says of itself stands in its row.\<close>

lemma record_outranks_envelope:
  assumes "json_parse (Some body) = Inr t" and "json_loads body = Some document"
    and "i < length (fst (find_records document))"
    and "dict_get (flatten (fst (find_records document) ! i) [] 0) h = Some v"
  shows "cell (t_rows t ! i) h = v"
proof -
  obtain records envelope source where f: "find_records document = (records, envelope, source)"
    and rows: "t_rows t = map (square (t_headers t)) (map (\<lambda>r. with_envelope envelope (flatten r [] 0)) records)"
    by (rule json_parse_Inr [OF assms(1)]) (use assms(2) in auto)
  have "t_rows t ! i = square (t_headers t) (with_envelope envelope (flatten (records ! i) [] 0))"
    using assms(3) by (simp add: rows f)
  then have "dict_get (t_rows t ! i) h = Some v"
    using assms(4) by (simp add: f square_get with_envelope_get)
  then show ?thesis by (simp add: dict_get_or_def)
qed

section \<open>Example\<close>

definition json_example :: string where
  \<open>json_example = ''{"venue":"X","rows":[{"a":1},{"b":{"c":null},"venue":"Y"}]}''\<close>

definition json_table :: parsed_table where
  "json_table = \<lparr>t_headers = [''a'', ''venue'', ''b.c''],
     t_rows = [[(''a'', ''1''), (''venue'', ''X''), (''b.c'', [])], [(''b.c'', []), (''venue'', ''Y''), (''a'', [])]],
     t_evidence = [(''records_at'', ''rows''), (''record_count'', ''2'')], t_warnings = []\<rparr>"

lemma json_example_parses: "json_parse (Some json_example) = Inr json_table"
  by code_simp

lemma json_rows_square_witness:
  "json_parse (Some json_example) = Inr json_table \<and> length (t_rows json_table) = 2
     \<and> list_all (\<lambda>r. set (dict_keys r) = set (t_headers json_table)) (t_rows json_table)"
proof -
  have "length (t_rows json_table) = 2" by (simp add: json_table_def)
  with json_rows_square [OF json_example_parses] json_example_parses show ?thesis unfolding list_all_iff by blast
qed

lemma json_example_document:
  "json_loads json_example = Some (JObj [(''venue'', JStr ''X''),
     (''rows'', JArr [JObj [(''a'', JInt 1)], JObj [(''b'', JObj [(''c'', JNull)]), (''venue'', JStr ''Y'')]])])"
  by code_simp

lemma record_outranks_envelope_witness:
  "json_parse (Some json_example) = Inr json_table \<and> cell (t_rows json_table ! 1) ''venue'' = ''Y''"
proof -
  have "1 < length (fst (find_records (JObj [(''venue'', JStr ''X''),
     (''rows'', JArr [JObj [(''a'', JInt 1)], JObj [(''b'', JObj [(''c'', JNull)]), (''venue'', JStr ''Y'')]])])))"
    "dict_get (flatten (fst (find_records (JObj [(''venue'', JStr ''X''),
     (''rows'', JArr [JObj [(''a'', JInt 1)], JObj [(''b'', JObj [(''c'', JNull)]), (''venue'', JStr ''Y'')]])])) ! 1) [] 0)
       ''venue'' = Some ''Y''"
    by code_simp+
  from record_outranks_envelope [OF json_example_parses json_example_document this] json_example_parses
  show ?thesis by (intro conjI)
qed

end
