(* ===== verification/EmailParser.thy ===== *)
theory EmailParser
  imports ValueDate PyFloat PyBytes
begin

text \<open>
  Free-text advices: \<open>python/src/inspector/parsers/email_text.py\<close>. Line by line: a currency and an
  amount make a movement, whose account, value date and direction are read off the line where they
  are there. The patterns are the ones of the code in the fragment of \<^verbatim>\<open>PyRegex\<close>; the euro sign is not a
  character of the model's text and is left out of the symbols.
\<close>

definition CURRENCIES :: "string list" where
  "CURRENCIES = [''USD'', ''EUR'', ''GBP'', ''JPY'', ''CHF'', ''HKD'', ''AUD'', ''CAD'', ''SEK'', ''SGD'']"

definition SYMBOL_CURRENCY :: "(char, string) dict" where
  "SYMBOL_CURRENCY = [(CHR ''$'', ''USD''), (chr 163, ''GBP''), (chr 165, ''JPY'')]"

section \<open>Patterns\<close>

definition D :: re where "D = Chr is_digit"
definition opt_re :: "re \<Rightarrow> re" where "opt_re r = Rep 0 1 r"
definition decimals :: re where "decimals = opt_re (Seq (Lit (CHR ''.'')) (Many 1 D))"

definition NUMBER :: re where
  "NUMBER = Alt (Seqs [Rep 1 3 D, Many 0 (Seq (Lit (CHR '','')) (Rep 3 3 D)), decimals]) (Seqs [Many 1 D, decimals])"

definition AMOUNT :: re where
  "AMOUNT = Seqs
     [opt_re (Grp ''symbol'' (Chr (\<lambda>c. c \<in> set (dict_keys SYMBOL_CURRENCY)))), Many 0 (Chr is_space),
      Grp ''number'' NUMBER, NotAhead is_digit]"

definition CURRENCY_CODE :: re where
  "CURRENCY_CODE = Seqs [WordB, Grp ''1'' (Alts (map Word CURRENCIES)), WordB]"

definition ascii_upper :: "char \<Rightarrow> bool" where "ascii_upper c \<longleftrightarrow> 65 \<le> ord c \<and> ord c \<le> 90"
definition ascii_lower :: "char \<Rightarrow> bool" where "ascii_lower c \<longleftrightarrow> 97 \<le> ord c \<and> ord c \<le> 122"

definition account_part :: re where "account_part = Rep 2 6 (Chr (\<lambda>c. ascii_upper c \<or> is_digit c))"
definition account_sep :: re where "account_sep = Chr (\<lambda>c. c = CHR ''-'' \<or> c = CHR ''_'')"

definition ACCOUNT :: re where
  "ACCOUNT = Seqs [WordB, account_part, account_sep, account_part, opt_re (Seq account_sep account_part), WordB]"

definition DATE_PATTERNS :: "re list" where
  "DATE_PATTERNS = map (\<lambda>r. Seqs [WordB, Grp ''1'' r, WordB])
     [Seqs [Rep 4 4 D, Lit (CHR ''-''), Rep 2 2 D, Lit (CHR ''-''), Rep 2 2 D],
      Seqs [Rep 1 2 D, Many 1 (Chr is_space), Chr ascii_upper, Many 1 (Chr ascii_lower), Many 1 (Chr is_space),
            Rep 4 4 D],
      Seqs [Rep 1 2 D, Lit (CHR ''/''), Rep 1 2 D, Lit (CHR ''/''), Rep 4 4 D],
      Seqs [Rep 1 2 D, Lit (CHR ''-''), Rep 3 3 (Chr (\<lambda>c. ascii_upper c \<or> ascii_lower c)), Lit (CHR ''-''), Rep 4 4 D]]"

definition DEBIT_WORDS :: "string list" where
  "DEBIT_WORDS = [''debit'', ''withdrawal'', ''outgoing'', ''paid'', ''payment out'', ''sent'']"

definition CREDIT_WORDS :: "string list" where
  "CREDIT_WORDS = [''credit'', ''deposit'', ''incoming'', ''received'', ''receipt'']"

definition EMAIL_HEADERS :: "string list" where
  "EMAIL_HEADERS = [''Account ID'', ''Net Amount'', ''Currency'', ''Value Date'', ''Direction'',
     ''Extraction Confidence'', ''Source Line'']"

definition EMAIL_MARKERS :: "string list" where
  "EMAIL_MARKERS = [''from:'', ''to:'', ''subject:'', ''sent:'', ''cc:'', ''date:'']"

definition MIN_LINE_CONFIDENCE :: rat where
  "MIN_LINE_CONFIDENCE = 1 / 2"

section \<open>Reading a line\<close>

text \<open>\<open>match.group(name) or ""\<close>.\<close>

definition group_of :: "string \<Rightarrow> rmatch \<Rightarrow> string" where
  "group_of n m = (case map_of (m_groups m) n of None \<Rightarrow> [] | Some t \<Rightarrow> t)"

primrec symbol_currency :: "(char \<times> string) list \<Rightarrow> string \<Rightarrow> string option" where
  "symbol_currency [] line = None"
| "symbol_currency (sc # scs) line = (if fst sc \<in> set line then Some (snd sc) else symbol_currency scs line)"

definition currency_of :: "string \<Rightarrow> string option" where
  "currency_of line =
     (case re_search CURRENCY_CODE line of
        Some m \<Rightarrow> Some (group_of ''1'' m)
      | None \<Rightarrow> symbol_currency SYMBOL_CURRENCY line)"

definition no_commas :: "string \<Rightarrow> string" where
  "no_commas s = remove_chars (\<lambda>c. c = CHR '','') s"

text \<open>\<open>float(number.replace(",", ""))\<close> for what the pattern matches: digits, and at most one point.\<close>

definition number_value :: "string \<Rightarrow> rat" where
  "number_value s =
     (let whole = takeWhile (\<lambda>c. c \<noteq> CHR ''.'') s; frac = drop (length whole + 1) s
      in fl (of_int (digits_val (whole @ frac)) / 10 ^ length frac))"

text \<open>One match of the loop against the best so far.\<close>

definition better_amount :: "rmatch \<Rightarrow> string option \<times> rat \<Rightarrow> string option \<times> rat" where
  "better_amount m best =
     (let number = group_of ''number'' m; comma = CHR '','' \<in> set number; point = CHR ''.'' \<in> set number;
          v = number_value (no_commas number)
      in if \<not> comma \<and> \<not> point \<and> 5 \<le> length number then best
         else if 1900 \<le> v \<and> v \<le> 2100 \<and> \<not> point \<and> \<not> comma then best
         else if \<not> (group_of ''symbol'' m \<noteq> [] \<or> comma \<or> point) then best
         else if snd best < v then (Some (no_commas number), v) else best)"

definition amount_of :: "string \<Rightarrow> string option" where
  "amount_of line = fst (fold better_amount (re_findall AMOUNT line) (None, - 1))"

text \<open>\<open>str.isdigit\<close> accepts superscripts too.\<close>

definition py_isdigit :: "char \<Rightarrow> bool" where
  "py_isdigit c \<longleftrightarrow> is_digit c \<or> ord c \<in> {178, 179, 185}"

definition direction_of :: "string \<Rightarrow> string" where
  "direction_of line =
     (let lowered = lower line in
      if list_ex (\<lambda>w. contains w lowered) DEBIT_WORDS then ''DEBIT''
      else if list_ex (\<lambda>w. contains w lowered) CREDIT_WORDS then ''CREDIT''
      else if CHR ''('' \<in> set line \<and> CHR '')'' \<in> set line \<and> list_ex py_isdigit line then ''DEBIT''
      else ''UNKNOWN'')"

primrec first_date_in :: "re list \<Rightarrow> string \<Rightarrow> string option" where
  "first_date_in [] t = None"
| "first_date_in (p # ps) t =
     (case re_search p t of
        None \<Rightarrow> first_date_in ps t
      | Some m \<Rightarrow>
          (case parse_date (group_of ''1'' m) of
             Some d \<Rightarrow> Some (isoformat d)
           | None \<Rightarrow>
               (case strptime (group_of ''1'' m) ''%d %B %Y'' of
                  Some (_, d) \<Rightarrow> Some (isoformat d)
                | None \<Rightarrow> first_date_in ps t)))"

definition first_date :: "string \<Rightarrow> string option" where
  "first_date t = first_date_in DATE_PATTERNS t"

definition line_confidence :: "bool \<Rightarrow> bool \<Rightarrow> bool \<Rightarrow> rat" where
  "line_confidence account dated directed =
     (let c = 1 / 2;
          c = (if account then fl (c + fl (1 / 5)) else c);
          c = (if dated then fl (c + fl (1 / 5)) else c)
      in if directed then fl (c + fl (1 / 10)) else c)"

definition movement_of :: "string \<Rightarrow> string option \<Rightarrow> row option" where
  "movement_of line default_date =
     (case (currency_of line, amount_of line) of
        (Some currency, Some amount) \<Rightarrow>
          let direction = direction_of line;
              signed = (if direction \<noteq> ''DEBIT'' then amount else ''-'' @ amount);
              account = re_search ACCOUNT line;
              value_date = (case first_date line of Some d \<Rightarrow> d
                            | None \<Rightarrow> (case default_date of Some d \<Rightarrow> d | None \<Rightarrow> []));
              confidence = line_confidence (account \<noteq> None) (value_date \<noteq> []) (direction \<noteq> ''UNKNOWN'')
          in if confidence < MIN_LINE_CONFIDENCE then None
             else Some
               [(''Account ID'', case account of Some m \<Rightarrow> m_text m | None \<Rightarrow> []), (''Net Amount'', signed),
                (''Currency'', currency), (''Value Date'', value_date), (''Direction'', direction),
                (''Extraction Confidence'', fixed 2 (min confidence 1)), (''Source Line'', take 300 line)]
      | _ \<Rightarrow> None)"

definition looks_like_a_movement :: "string \<Rightarrow> bool" where
  "looks_like_a_movement line \<longleftrightarrow> re_search ACCOUNT line \<noteq> None \<or> currency_of line \<noteq> None"

definition is_header_line :: "string \<Rightarrow> bool" where
  "is_header_line line \<longleftrightarrow> list_ex (\<lambda>mk. prefix mk (lower line)) EMAIL_MARKERS"

definition subject_of :: "string \<Rightarrow> string" where
  "subject_of t =
     (case find (\<lambda>l. prefix ''subject:'' (lower l)) (take 20 (splitlines t)) of
        None \<Rightarrow> []
      | Some l \<Rightarrow> strip (drop 1 (dropWhile (\<lambda>c. c \<noteq> CHR '':'') l)))"

section \<open>The body\<close>

text \<open>The loop over the lines: the movements and the number of near misses.\<close>

primrec read_lines :: "string option \<Rightarrow> string list \<Rightarrow> row list \<times> nat" where
  "read_lines default_date [] = ([], 0)"
| "read_lines default_date (l # ls) =
     (let (rows, misses) = read_lines default_date ls; candidate = strip l in
      if candidate = [] \<or> is_header_line candidate then (rows, misses)
      else (case movement_of candidate default_date of
              Some r \<Rightarrow> (r # rows, misses)
            | None \<Rightarrow> (rows, if looks_like_a_movement candidate then Suc misses else misses)))"

definition email_parse :: "string \<Rightarrow> parsed_table result" where
  "email_parse raw =
     (let t = decode_or_latin1 raw in
      if strip t = [] then Inl (ParseError ''email body is empty'')
      else
        let subject = subject_of t;
            default_date = (case first_date subject of Some d \<Rightarrow> Some d | None \<Rightarrow> first_date t);
            (rows, misses) = read_lines default_date (splitlines t)
        in if rows = [] then Inl (ParseError ''no cash movements could be extracted from the body'')
           else make_table EMAIL_HEADERS rows
             [(''subject'', take 200 subject), (''movements_found'', nat_str (length rows)),
              (''near_misses'', nat_str misses)]
             (if 0 < misses then [nat_str misses @ '' line(s) resembled a movement but could not be extracted'']
              else []))"

definition email_sniff :: "string \<Rightarrow> string \<Rightarrow> rat" where
  "email_sniff head name =
     (let t = utf8_ignore head; stripped = lstrip t in
      if stripped = [] \<or> hd stripped \<in> {CHR ''<'', CHR ''{'', CHR ''[''} then 0
      else if 2 \<le> length (filter (\<lambda>mk. contains mk (lower (take 4000 t))) EMAIL_MARKERS) then fl (93 / 100)
      else
        let lines = take 20 (filter (\<lambda>l. strip l \<noteq> []) (splitlines t));
            delimited = length (filter (\<lambda>l. 3 \<le> count_list l (CHR '','') \<or> 3 \<le> count_list l (CHR ''|'')) lines);
            money = length (filter (\<lambda>l. re_search CURRENCY_CODE l \<noteq> None
                                      \<or> list_ex (\<lambda>c. c \<in> set l) (dict_keys SYMBOL_CURRENCY)) lines)
        in if length lines < 2 \<or> length lines < 2 * delimited then 0
           else if 2 \<le> money \<and> list_ex (\<lambda>e. suffix e (lower name)) [''.txt'', ''.eml'', ''.msg''] then fl (6 / 10)
           else 0)"

section \<open>Groups are parts of the text\<close>

definition groups_from :: "string \<Rightarrow> pos \<Rightarrow> bool" where
  "groups_from t = (\<lambda>(b, a, g). suffix a t \<and> (\<forall>(n, w) \<in> set g. sublist w t))"

lemma run_look:
  "s' \<in> set (run (NotBehind P) s) \<Longrightarrow> s' = s" "s' \<in> set (run (NotAhead P) s) \<Longrightarrow> s' = s"
  "s' \<in> set (run WordB s) \<Longrightarrow> s' = s"
  by (cases s; auto split: list.splits if_splits)+

lemma rep_groups:
  assumes "\<And>s s'. groups_from t s \<Longrightarrow> s' \<in> set (f s) \<Longrightarrow> groups_from t s'"
  shows "groups_from t s \<Longrightarrow> s' \<in> set (rep f lo n s) \<Longrightarrow> groups_from t s'"
proof (induction n arbitrary: lo s)
  case 0
  then show ?case by (simp split: if_splits)
next
  case (Suc n)
  from Suc.prems(2) consider "s' = s" | s1 where "s1 \<in> set (f s)" "s' \<in> set (rep f (lo - 1) n s1)"
    by (auto split: if_splits)
  then show ?case
  proof cases
    case 1
    with Suc.prems(1) show ?thesis by simp
  next
    case 2
    from Suc.IH [OF assms [OF Suc.prems(1) 2(1)] 2(2)] show ?thesis .
  qed
qed

lemma run_groups: "groups_from t s \<Longrightarrow> s' \<in> set (run r s) \<Longrightarrow> groups_from t s'"
proof (induction r arbitrary: s s')
  case (Chr P)
  obtain b a g where s: "s = (b, a, g)" by (cases s)
  with Chr.prems(2) obtain c cs where "a = c # cs" "s' = (c # b, cs, g)" by (auto split: list.splits if_splits)
  with Chr.prems(1) s show ?case by (auto simp: groups_from_def dest: suffix_ConsD)
next
  case (Seq r q)
  from Seq.prems(2) obtain s1 where "s1 \<in> set (run r s)" "s' \<in> set (run q s1)" by auto
  with Seq.IH Seq.prems(1) show ?case by blast
next
  case (Alt r q)
  from Alt.prems(2) have "s' \<in> set (run r s) \<or> s' \<in> set (run q s)" by simp
  with Alt.IH Alt.prems(1) show ?case by blast
next
  case (Rep lo hi r)
  show ?case by (rule rep_groups [OF Rep.IH Rep.prems(1)]) (use Rep.prems(2) in simp_all)
next
  case (Many lo r)
  show ?case by (rule rep_groups [OF Many.IH Many.prems(1)]) (use Many.prems(2) in simp_all)
next
  case (Grp n r)
  obtain b a g where s: "s = (b, a, g)" by (cases s)
  with Grp.prems(2) obtain b' a' g' where q: "(b', a', g') \<in> set (run r s)"
    and s': "s' = (b', a', (n, take (length a - length a') a) # g')" by auto
  have "groups_from t (b', a', g')" using Grp.IH Grp.prems(1) q by blast
  moreover have "suffix a t" using Grp.prems(1) by (simp add: groups_from_def s)
  then have "sublist (take (length a - length a') a) t"
    by (meson sublist_order.order.trans sublist_take suffix_imp_sublist)
  ultimately show ?case by (simp add: groups_from_def s')
next
  case (NotBehind P)
  then have "s' = s" by (blast dest: run_look)
  with NotBehind show ?case by simp
next
  case (NotAhead P)
  then have "s' = s" by (blast dest: run_look)
  with NotAhead show ?case by simp
next
  case WordB
  then have "s' = s" by (blast dest: run_look)
  with WordB show ?case by simp
qed simp

lemma match_at_groups:
  assumes "match_at r b a = Some m" and "suffix a t"
  shows "suffix (m_rest m) t \<and> (\<forall>(n, w) \<in> set (m_groups m). sublist w t)"
proof -
  from assms(1) obtain b' a' g ps where "run r (b, a, []) = (b', a', g) # ps" "m_rest m = a'" "m_groups m = g"
    by (auto simp: match_at_def split: list.splits)
  with run_groups [of t "(b, a, [])" "(b', a', g)" r] assms(2) show ?thesis by (simp add: groups_from_def)
qed

lemma search_groups:
  assumes "search_from r b a = Some m" and "suffix a t"
  shows "\<forall>(n, w) \<in> set (m_groups m). sublist w t"
  using assms
proof (induction a arbitrary: b)
  case Nil
  then show ?case using match_at_groups [of r b "[]" m t] by simp
next
  case (Cons c a)
  show ?case
  proof (cases "match_at r b (c # a)")
    case None
    with Cons show ?thesis by (auto dest: suffix_ConsD)
  next
    case (Some m')
    with Cons.prems match_at_groups [OF Some] show ?thesis by simp
  qed
qed

lemma findall_groups:
  assumes "m \<in> set (find_from r b a)" and "suffix a t"
  shows "\<forall>(n, w) \<in> set (m_groups m). sublist w t"
  using assms
proof (induction r b a rule: find_from.induct)
  case (2 r b c cs)
  show ?case
  proof (cases "match_at r b (c # cs)")
    case None
    with 2 show ?thesis by (auto dest: suffix_ConsD)
  next
    case (Some m')
    note rest = match_at_groups [OF Some "2.prems"(2)]
    show ?thesis
    proof (cases "length (m_rest m') < length (c # cs)")
      case True
      with "2.prems"(1) Some consider "m = m'" | "m \<in> set (find_from r (rev (m_text m') @ b) (m_rest m'))" by auto
      then show ?thesis
        using rest "2.IH"(2) [OF Some True] by cases auto
    next
      case False
      with "2.prems" Some "2.IH"(3) [OF Some False] show ?thesis by (auto dest: suffix_ConsD)
    qed
  qed
qed simp

lemma group_of_sublist: "(\<forall>(n, w) \<in> set (m_groups m). sublist w t) \<Longrightarrow> sublist (group_of n m) t"
  by (auto simp: group_of_def split: option.split dest!: map_of_SomeD)

section \<open>What a pattern consumes\<close>

text \<open>All characters of a pattern are in a class, and it takes a least number of them.\<close>

primrec over :: "(char \<Rightarrow> bool) \<Rightarrow> re \<Rightarrow> bool" where
  "over P Eps \<longleftrightarrow> True"
| "over P (Chr Q) \<longleftrightarrow> (\<forall>c. Q c \<longrightarrow> P c)"
| "over P (Seq r q) \<longleftrightarrow> over P r \<and> over P q"
| "over P (Alt r q) \<longleftrightarrow> over P r \<and> over P q"
| "over P (Rep lo hi r) \<longleftrightarrow> over P r"
| "over P (Many lo r) \<longleftrightarrow> over P r"
| "over P (Grp n r) \<longleftrightarrow> over P r"
| "over P (NotBehind Q) \<longleftrightarrow> True"
| "over P (NotAhead Q) \<longleftrightarrow> True"
| "over P WordB \<longleftrightarrow> True"

primrec least :: "re \<Rightarrow> nat" where
  "least Eps = 0"
| "least (Chr Q) = 1"
| "least (Seq r q) = least r + least q"
| "least (Alt r q) = min (least r) (least q)"
| "least (Rep lo hi r) = lo * least r"
| "least (Many lo r) = lo * least r"
| "least (Grp n r) = least r"
| "least (NotBehind Q) = 0"
| "least (NotAhead Q) = 0"
| "least WordB = 0"

definition consumes :: "(char \<Rightarrow> bool) \<Rightarrow> nat \<Rightarrow> pos \<Rightarrow> pos \<Rightarrow> bool" where
  "consumes P k s s' \<longleftrightarrow> (\<exists>u. fst (snd s) = u @ fst (snd s') \<and> (\<forall>c \<in> set u. P c) \<and> k \<le> length u)"

lemma consumes_refl [simp]: "consumes P 0 s s"
  by (simp add: consumes_def)

lemma consumes_trans: "consumes P j s s1 \<Longrightarrow> consumes P k s1 s2 \<Longrightarrow> consumes P (j + k) s s2"
  unfolding consumes_def by (elim exE conjE) (rule_tac x = "u @ ua" in exI, auto)

lemma consumes_weaken: "consumes P k s s' \<Longrightarrow> j \<le> k \<Longrightarrow> consumes P j s s'"
  unfolding consumes_def by (meson order.trans)

lemma rep_consumes:
  assumes "\<And>s s'. s' \<in> set (f s) \<Longrightarrow> consumes P k s s'"
  shows "s' \<in> set (rep f lo n s) \<Longrightarrow> consumes P (lo * k) s s'"
proof (induction n arbitrary: lo s)
  case 0
  then show ?case by (simp split: if_splits)
next
  case (Suc n)
  from Suc.prems consider "s' = s" "lo = 0" | s1 where "s1 \<in> set (f s)" "s' \<in> set (rep f (lo - 1) n s1)"
    by (auto split: if_splits)
  then show ?case
  proof cases
    case 1
    then show ?thesis by simp
  next
    case 2
    from consumes_trans [OF assms [OF 2(1)] Suc.IH [OF 2(2)]] have "consumes P (k + (lo - 1) * k) s s'" .
    then show ?thesis by (rule consumes_weaken) (cases lo, simp_all)
  qed
qed

lemma run_consumes: "over P r \<Longrightarrow> s' \<in> set (run r s) \<Longrightarrow> consumes P (least r) s s'"
proof (induction r arbitrary: s s')
  case (Chr Q)
  obtain b a g where s: "s = (b, a, g)" by (cases s)
  with Chr.prems(2) obtain c cs where "a = c # cs" "s' = (c # b, cs, g)" "Q c"
    by (auto split: list.splits if_splits)
  with Chr.prems(1) s show ?case by (auto simp: consumes_def intro!: exI [of _ "[c]"])
next
  case (Seq r q)
  then obtain s1 where s1: "s1 \<in> set (run r s)" "s' \<in> set (run q s1)" by auto
  have "consumes P (least r) s s1" "consumes P (least q) s1 s'"
    using Seq.IH(1) [OF _ s1(1)] Seq.IH(2) [OF _ s1(2)] Seq.prems(1) by simp_all
  then show ?case by (simp add: consumes_trans)
next
  case (Alt r q)
  from Alt.prems(2) have "s' \<in> set (run r s) \<or> s' \<in> set (run q s)" by simp
  then have "consumes P (least r) s s' \<or> consumes P (least q) s s'" using Alt.IH Alt.prems(1) by fastforce
  then show ?case by (auto intro: consumes_weaken)
next
  case (Rep lo hi r)
  then show ?case using rep_consumes [of "run r" P "least r"] by simp
next
  case (Many lo r)
  then show ?case using rep_consumes [of "run r" P "least r"] by simp
next
  case (Grp n r)
  then obtain b' a' g' where q: "(b', a', g') \<in> set (run r s)" and "fst (snd s') = a'" by auto
  with Grp.IH [OF _ q] Grp.prems(1) show ?case by (simp add: consumes_def)
next
  case (NotBehind Q)
  then have "s' = s" by (blast dest: run_look)
  then show ?case by simp
next
  case (NotAhead Q)
  then have "s' = s" by (blast dest: run_look)
  then show ?case by simp
next
  case WordB
  then have "s' = s" by (blast dest: run_look)
  then show ?case by simp
qed simp

lemma group_consumes:
  assumes "s' \<in> set (run (Grp n r) s)" and "over P r"
  shows "\<exists>w g. snd (snd s') = (n, w) # g \<and> (\<forall>c \<in> set w. P c) \<and> least r \<le> length w"
proof -
  obtain b a g where s: "s = (b, a, g)" by (cases s)
  with assms(1) obtain b' a' g' where q: "(b', a', g') \<in> set (run r s)"
    and s': "s' = (b', a', (n, take (length a - length a') a) # g')" by auto
  from run_consumes [OF assms(2) q] s obtain u where "a = u @ a'" "\<forall>c \<in> set u. P c" "least r \<le> length u"
    by (auto simp: consumes_def)
  then show ?thesis by (simp add: s')
qed

section \<open>Movements\<close>

definition number_char :: "char \<Rightarrow> bool" where
  "number_char c \<longleftrightarrow> is_digit c \<or> c = CHR '','' \<or> c = CHR ''.''"

text \<open>A number is written on the line: digits, separators and points, of which the separators go.\<close>

definition amount_in :: "string \<Rightarrow> string \<Rightarrow> bool" where
  "amount_in line n \<longleftrightarrow> (\<exists>w. sublist w line \<and> w \<noteq> [] \<and> list_all number_char w \<and> n = no_commas w)"

lemma run_Seq_iff: "s' \<in> set (run (Seq r q) s) \<longleftrightarrow> (\<exists>s1 \<in> set (run r s). s' \<in> set (run q s1))"
  by simp

lemma amount_group:
  assumes "(b', a', g) \<in> set (run AMOUNT s)"
  shows "\<exists>w. map_of g ''number'' = Some w \<and> w \<noteq> [] \<and> list_all number_char w"
proof -
  obtain r q where eq: "AMOUNT = Seq r (Seq q (Seq (Grp ''number'' NUMBER) (NotAhead is_digit)))"
    by (simp add: AMOUNT_def)
  from assms obtain s2 s3 where s3: "s3 \<in> set (run (Grp ''number'' NUMBER) s2)"
    "(b', a', g) \<in> set (run (NotAhead is_digit) s3)"
    unfolding eq run_Seq_iff by blast
  from run_look(2) [OF s3(2)] have "s3 = (b', a', g)" by simp
  moreover have "over number_char NUMBER" "least NUMBER = 1"
    by (simp_all add: NUMBER_def number_char_def D_def Lit_def decimals_def opt_re_def)
  ultimately show ?thesis
    using group_consumes [OF s3(1), of number_char] by (auto simp: list_all_iff)
qed

lemma match_at_run:
  assumes "match_at r b a = Some m"
  shows "\<exists>b a b' a'. (b', a', m_groups m) \<in> set (run r (b, a, []))"
proof -
  from assms obtain b' a' g ps where "run r (b, a, []) = (b', a', g) # ps" "m_groups m = g"
    by (auto simp: match_at_def split: list.splits)
  then have "(b', a', m_groups m) \<in> set (run r (b, a, []))" by simp
  then show ?thesis by blast
qed

lemma findall_match:
  assumes "m \<in> set (find_from r b a)"
  shows "\<exists>b a b' a'. (b', a', m_groups m) \<in> set (run r (b, a, []))"
  using assms
proof (induction r b a rule: find_from.induct)
  case (2 r b c cs)
  show ?case
  proof (cases "match_at r b (c # cs)")
    case None
    with 2 show ?thesis by auto
  next
    case (Some m')
    with 2 match_at_run [OF Some] show ?thesis by (auto split: if_splits)
  qed
qed simp

lemma amount_match:
  assumes "m \<in> set (re_findall AMOUNT line)"
  shows "amount_in line (no_commas (group_of ''number'' m))"
proof -
  from findall_match [of m AMOUNT "[]" line] assms amount_group obtain w where
    w: "map_of (m_groups m) ''number'' = Some w" "w \<noteq> []" "list_all number_char w"
    unfolding re_findall_def by blast
  have "sublist (group_of ''number'' m) line"
    using findall_groups [of m AMOUNT "[]" line line] assms group_of_sublist by (simp add: re_findall_def)
  with w show ?thesis by (auto simp: amount_in_def group_of_def)
qed

lemma amount_of_in:
  assumes "amount_of line = Some n"
  shows "amount_in line n"
proof -
  have loop: "\<forall>m \<in> set ms. amount_in line (no_commas (group_of ''number'' m)) \<Longrightarrow>
      (\<forall>n. fst best = Some n \<longrightarrow> amount_in line n) \<Longrightarrow>
      (\<forall>n. fst (fold better_amount ms best) = Some n \<longrightarrow> amount_in line n)" for ms best
  proof (induction ms arbitrary: best)
    case (Cons m ms)
    have "\<forall>n. fst (better_amount m best) = Some n \<longrightarrow> amount_in line n"
      using Cons.prems by (auto simp: better_amount_def Let_def)
    with Cons show ?case by simp
  qed simp
  have "\<forall>n. fst (fold better_amount (re_findall AMOUNT line) (None, - 1)) = Some n \<longrightarrow> amount_in line n"
    by (rule loop) (simp_all add: amount_match)
  with assms show ?thesis by (simp add: amount_of_def)
qed

lemma symbol_currency_in: "symbol_currency scs line = Some c \<Longrightarrow> c \<in> set (map snd scs)"
  by (induction scs) (auto split: if_splits)

lemma run_Word: "s' \<in> set (run (Word w) s) \<Longrightarrow> fst (snd s) = w @ fst (snd s')"
proof (induction w arbitrary: s rule: Word.induct)
  case (2 c)
  then show ?case by (cases s) (auto simp: Lit_def split: list.splits if_splits)
next
  case (3 c d cs)
  from 3(2) obtain s1 where s1: "s1 \<in> set (run (Lit c) s)" "s' \<in> set (run (Word (d # cs)) s1)" by auto
  from s1(1) have "fst (snd s) = c # fst (snd s1)" by (cases s) (auto simp: Lit_def split: list.splits if_splits)
  with 3(1) [OF s1(2)] show ?case by simp
qed simp

lemma run_Alts: "s' \<in> set (run (Alts rs) s) \<Longrightarrow> \<exists>r \<in> set rs. s' \<in> set (run r s)"
proof (induction rs rule: Alts.induct)
  case 1
  then show ?case by (cases s) (auto split: list.splits)
next
  case (3 r q rs)
  then have "s' \<in> set (run r s) \<or> s' \<in> set (run (Alts (q # rs)) s)" by simp
  with 3(1) show ?case by auto
qed simp

lemma search_match:
  assumes "search_from r b a = Some m"
  shows "\<exists>b a b' a'. (b', a', m_groups m) \<in> set (run r (b, a, []))"
  using assms
  by (induction r b a rule: search_from.induct) (auto simp: match_at_run split: option.splits)

lemma currency_of_in:
  assumes "currency_of line = Some c"
  shows "c \<in> set CURRENCIES"
proof (cases "re_search CURRENCY_CODE line")
  case None
  with assms have "symbol_currency SYMBOL_CURRENCY line = Some c" by (simp add: currency_of_def)
  from symbol_currency_in [OF this] show ?thesis by (auto simp: SYMBOL_CURRENCY_def CURRENCIES_def)
next
  case (Some m)
  with search_match [of CURRENCY_CODE "[]" line m] obtain b a b' a' where
    run: "(b', a', m_groups m) \<in> set (run CURRENCY_CODE (b, a, []))" by (auto simp: re_search_def)
  have eq: "CURRENCY_CODE = Seq WordB (Seq (Grp ''1'' (Alts (map Word CURRENCIES))) WordB)"
    by (simp add: CURRENCY_CODE_def)
  from run obtain s1 s2 where s: "s1 \<in> set (run WordB (b, a, []))"
      "s2 \<in> set (run (Grp ''1'' (Alts (map Word CURRENCIES))) s1)" "(b', a', m_groups m) \<in> set (run WordB s2)"
    unfolding eq run_Seq_iff by blast
  from s(2) run_look(3) [OF s(1)] run_look(3) [OF s(3)] obtain b1 a1 g1 where
    q: "(b1, a1, g1) \<in> set (run (Alts (map Word CURRENCIES)) (b, a, []))"
      "m_groups m = (''1'', take (length a - length a1) a) # g1"
    by auto
  from run_Alts [OF q(1)] obtain w where "w \<in> set CURRENCIES" "(b1, a1, g1) \<in> set (run (Word w) (b, a, []))" by auto
  with run_Word have "take (length a - length a1) a \<in> set CURRENCIES" by fastforce
  with assms Some q(2) show ?thesis by (simp add: currency_of_def group_of_def)
qed

lemma line_confidence_enough: "\<not> line_confidence account dated directed < MIN_LINE_CONFIDENCE"
proof -
  have half: "fl (1 / 2) = 1 / 2" by code_simp
  have up: "1 / 2 \<le> fl (c + fl x)" if "1 / 2 \<le> c" "0 \<le> x" for c x
  proof -
    have "fl (1 / 2) \<le> fl (c + fl x)" by (rule fl_mono) (use that fl_nonneg [of x] in linarith)
    then show ?thesis by (simp add: half)
  qed
  show ?thesis
    unfolding line_confidence_def MIN_LINE_CONFIDENCE_def Let_def not_less
    by (cases account; cases dated; cases directed; simp only: if_True if_False; (intro up)?; simp)
qed

lemma movement_of_eq:
  assumes "currency_of line = Some c" and "amount_of line = Some n"
  shows "\<exists>acc vd conf. movement_of line dd = Some
    [(''Account ID'', acc), (''Net Amount'', if direction_of line \<noteq> ''DEBIT'' then n else ''-'' @ n), (''Currency'', c),
     (''Value Date'', vd), (''Direction'', direction_of line), (''Extraction Confidence'', conf),
     (''Source Line'', take 300 line)]"
  unfolding movement_of_def assms option.case prod.case Let_def using line_confidence_enough by auto

lemma movement_of_Some:
  assumes "movement_of line dd = Some r"
  shows "cell r ''Source Line'' = take 300 line \<and> cell r ''Currency'' \<in> set CURRENCIES
    \<and> (\<exists>n. amount_in line n \<and> cell r ''Net Amount'' = (if cell r ''Direction'' = ''DEBIT'' then CHR ''-'' # n else n))
    \<and> dict_keys r = EMAIL_HEADERS"
proof -
  from assms obtain c n where cn: "currency_of line = Some c" "amount_of line = Some n"
    by (cases "currency_of line"; cases "amount_of line") (simp_all add: movement_of_def)
  from movement_of_eq [OF cn, of dd] assms obtain acc vd conf where
    "r = [(''Account ID'', acc), (''Net Amount'', if direction_of line \<noteq> ''DEBIT'' then n else ''-'' @ n), (''Currency'', c),
     (''Value Date'', vd), (''Direction'', direction_of line), (''Extraction Confidence'', conf),
     (''Source Line'', take 300 line)]" by auto
  with currency_of_in [OF cn(1)] amount_of_in [OF cn(2)] show ?thesis
    by (auto simp: dict_get_or_def EMAIL_HEADERS_def)
qed

lemma movement_of_exists:
  assumes "currency_of line \<noteq> None" and "amount_of line \<noteq> None"
  shows "movement_of line dd \<noteq> None"
  using assms movement_of_eq [of line _ _ dd] by auto

lemma read_lines_rows:
  "set (fst (read_lines dd ls)) =
     {r. \<exists>l \<in> set ls. strip l \<noteq> [] \<and> \<not> is_header_line (strip l) \<and> movement_of (strip l) dd = Some r}"
  by (induction ls) (auto simp: Let_def split: prod.splits option.splits)

lemma email_parse_Inr:
  assumes "email_parse raw = Inr t"
  shows "t_headers t = EMAIL_HEADERS" and "\<exists>dd. t_rows t = fst (read_lines dd (splitlines (decode_or_latin1 raw)))"
proof -
  let ?t = "decode_or_latin1 raw"
  let ?dd = "case first_date (subject_of ?t) of Some d \<Rightarrow> Some d | None \<Rightarrow> first_date ?t"
  have "t_headers t = EMAIL_HEADERS \<and> t_rows t = fst (read_lines ?dd (splitlines ?t))"
    using assms by (auto simp: email_parse_def Let_def make_table_Inr split: if_splits prod.splits)
  then show "t_headers t = EMAIL_HEADERS" and "\<exists>dd. t_rows t = fst (read_lines dd (splitlines ?t))" by blast+
qed

lemma email_parse_square:
  assumes "email_parse raw = Inr t" and "r \<in> set (t_rows t)"
  shows "distinct (dict_keys r) \<and> set (dict_keys r) = set (t_headers t)"
proof -
  obtain dd where "r \<in> set (fst (read_lines dd (splitlines (decode_or_latin1 raw))))"
    using email_parse_Inr(2) [OF assms(1)] assms(2) by auto
  then obtain l where "movement_of l dd = Some r" by (auto simp: read_lines_rows)
  then have "dict_keys r = EMAIL_HEADERS" using movement_of_Some by blast
  moreover have "distinct EMAIL_HEADERS" by (simp add: EMAIL_HEADERS_def)
  ultimately show ?thesis by (simp add: email_parse_Inr(1) [OF assms(1)])
qed

section \<open>Property\<close>


definition advice :: string where
  "advice = ''Paid USD 9.50''"

definition advice_table :: parsed_table where
  "advice_table = \<lparr>t_headers = EMAIL_HEADERS,
     t_rows =
       [[(''Account ID'', []), (''Net Amount'', ''-9.50''), (''Currency'', ''USD''), (''Value Date'', []),
         (''Direction'', ''DEBIT''), (''Extraction Confidence'', ''0.60''), (''Source Line'', ''Paid USD 9.50'')]],
     t_evidence = [(''subject'', []), (''movements_found'', ''1''), (''near_misses'', ''0'')],
     t_warnings = []\<rparr>"

lemma advice_parses: "email_parse advice = Inr advice_table"
  by code_simp


end
