(* ===== verification/Attribution.thy ===== *)
theory Attribution
  imports ValueDate Canonical
begin

text \<open>
  Which client a file belongs to: \<open>python/src/inspector/attribution.py\<close>. Evidence strings are
  kept, since they end up in the audit record.
\<close>

definition ACCOUNT_CANDIDATE :: re where
  "ACCOUNT_CANDIDATE =
     (let w = (\<lambda>c. is_digit c \<or> CHR ''A'' \<le> c \<and> c \<le> CHR ''Z'' \<or> CHR ''a'' \<le> c \<and> c \<le> CHR ''z'');
          dash = Chr (\<lambda>c. c = CHR ''-'' \<or> c = CHR ''_'')
      in Seqs [WordB, Rep 2 6 (Chr w), dash, Rep 3 6 (Chr w),
               Rep 0 1 (Seq dash (Rep 2 6 (Chr w))), WordB])"

definition CONF_ACCOUNT_MATCH :: rat where "CONF_ACCOUNT_MATCH = fl (95 / 100)"
definition CONF_FILENAME_MATCH :: rat where "CONF_FILENAME_MATCH = fl (80 / 100)"
definition CONF_BOTH_AGREE :: rat where "CONF_BOTH_AGREE = fl (99 / 100)"
definition CONF_CONFLICT :: rat where "CONF_CONFLICT = fl (45 / 100)"
definition CONF_NONE :: rat where "CONF_NONE = 0"

definition ACCOUNT_COLUMN_HINTS :: "string list" where
  "ACCOUNT_COLUMN_HINTS = [''accountid'', ''account'', ''acctno'', ''acctnum'', ''accountnumber'',
     ''acctid'', ''accountno'', ''clientaccount'', ''custodyaccount'', ''safekeepingaccount'',
     ''portfolioid'', ''book'', ''bookid'', ''subaccount'', ''clearingaccount'', ''acct'']"

record attribution =
  att_client_id :: "string option"
  att_confidence :: rat
  att_account_ids :: "string list"
  att_domain :: string
  att_source_hint :: string
  att_filename_date_text :: string
  att_evidence :: "string list"
  att_conflict :: bool

definition att_resolved :: "attribution \<Rightarrow> bool" where
  "att_resolved a \<longleftrightarrow> att_client_id a \<noteq> None"

text \<open>The truth value of an optional string: \<open>None\<close> and the empty string are false.\<close>

definition truthy :: "string option \<Rightarrow> bool" where
  "truthy s \<longleftrightarrow> s \<noteq> None \<and> s \<noteq> Some []"

definition str_or :: "string \<Rightarrow> string \<Rightarrow> string" where
  "str_or s t = (if s = [] then t else s)"

section \<open>Account identifiers\<close>

text \<open>One candidate: recorded when it is known and has not been seen; \<open>found\<close> and \<open>seen\<close> hold the
  same identifiers, so one list stands for both.\<close>

definition note_id :: "(string, string) dict \<Rightarrow> string \<Rightarrow> string list \<Rightarrow> string list" where
  "note_id known v found =
     (if dict_get known v \<noteq> None \<and> v \<notin> set found then found @ [v] else found)"

definition scan_value ::
    "(string, string) dict \<Rightarrow> bool \<Rightarrow> string \<Rightarrow> string list \<Rightarrow> string list" where
  "scan_value known pattern_scan value found =
     (if value = [] then found
      else if dict_get known value \<noteq> None \<and> value \<notin> set found then found @ [value]
      else if pattern_scan
        then fold (note_id known) (map m_text (re_findall ACCOUNT_CANDIDATE value)) found
      else found)"

definition account_columns :: "string list \<Rightarrow> string list" where
  "account_columns headers = filter (\<lambda>h. norm h \<in> set ACCOUNT_COLUMN_HINTS) headers"

definition find_account_ids ::
    "string list \<Rightarrow> row list \<Rightarrow> (string, string) dict \<Rightarrow> string list" where
  "find_account_ids headers rows known =
     (let cols = account_columns headers;
          scan_columns = (if cols \<noteq> [] then cols else headers)
      in fold (\<lambda>r found. fold (\<lambda>h. scan_value known (cols = []) (strip (cell r h))) scan_columns found)
           (take 500 rows) [])"

section \<open>Attributing\<close>

primrec first_hint :: "filename_hint list \<Rightarrow> string \<Rightarrow> (string \<times> string \<times> string) option" where
  "first_hint [] fn = None"
| "first_hint (h # hs) fn =
     (case FilenameHint_match h fn of
        Some (d, date_text) \<Rightarrow> Some (str_or d ''UNKNOWN'', source_hint h, date_text)
      | None \<Rightarrow> first_hint hs fn)"

primrec match_filename_among ::
    "client list \<Rightarrow> string \<Rightarrow> client option \<times> string \<times> string \<times> string" where
  "match_filename_among [] fn = (None, [], [], [])"
| "match_filename_among (cl # cls) fn =
     (case first_hint (filename_hints cl) fn of
        Some hit \<Rightarrow> (Some cl, hit)
      | None \<Rightarrow> match_filename_among cls fn)"

definition match_filename :: "string \<Rightarrow> registry \<Rightarrow> client option \<times> string \<times> string \<times> string" where
  "match_filename fn r = match_filename_among (clients r) fn"

definition build ::
    "string \<Rightarrow> rat \<Rightarrow> string list \<Rightarrow> string \<Rightarrow> string \<Rightarrow> string \<Rightarrow> string list \<Rightarrow> registry \<Rightarrow> bool \<Rightarrow> attribution" where
  "build cid conf ids domain src date_text evidence r conflict =
     (let (domain', evidence') =
            (if domain = [] \<or> domain = ''UNKNOWN'' then
               (case reg_client r cid of
                  Some cl \<Rightarrow> (case expectations cl of
                      [e] \<Rightarrow> (exp_domain e, evidence @
                               [''client has a single expectation; domain taken as '' @ exp_domain e])
                    | _ \<Rightarrow> (domain, evidence))
                | None \<Rightarrow> (domain, evidence))
             else (domain, evidence))
      in \<lparr>att_client_id = Some cid, att_confidence = conf, att_account_ids = ids,
          att_domain = str_or domain' ''UNKNOWN'', att_source_hint = src,
          att_filename_date_text = date_text, att_evidence = evidence', att_conflict = conflict\<rparr>)"

definition account_clients :: "(string, string) dict \<Rightarrow> string list \<Rightarrow> string list" where
  "account_clients known ids = map (\<lambda>a. the (dict_get known a)) ids"

definition attribute :: "string \<Rightarrow> string list \<Rightarrow> row list \<Rightarrow> registry \<Rightarrow> attribution" where
  "attribute fn headers rows r =
     (let (fclient, domain, src, date_text) = match_filename fn r;
          ev0 = (case fclient of
              Some cl \<Rightarrow> [''filename matches '' @ client_id cl @ '' pattern''] | None \<Rightarrow> []);
          known = all_account_ids r;
          ids = find_account_ids headers rows known;
          owners = account_clients known ids;
          distinct_owners = uniq owners;
          aclient = most_common owners;
          ev1 = (case aclient of
              Some a \<Rightarrow> ev0 @ [nat_str (length ids) @ '' known account identifier(s) resolving to '' @ a]
            | None \<Rightarrow> ev0)
      in if 1 < length distinct_owners then
           \<lparr>att_client_id = None, att_confidence = CONF_CONFLICT, att_account_ids = ids,
            att_domain = str_or domain ''UNKNOWN'', att_source_hint = src,
            att_filename_date_text = date_text,
            att_evidence = ev1 @ [''contents reference '' @ nat_str (length distinct_owners)
              @ '' different clients: '' @ join '', '' (sort distinct_owners)],
            att_conflict = True\<rparr>
         else
           let fcid = map_option client_id fclient in
           if truthy aclient \<and> truthy fcid then
             (if aclient = fcid then
                build (the aclient) CONF_BOTH_AGREE ids domain src date_text
                  (ev1 @ [''filename and contents agree'']) r False
              else
                build (the aclient) CONF_CONFLICT ids domain src date_text
                  (ev1 @ [''filename says '' @ the fcid @ '' but account identifiers say '' @ the aclient])
                  r True)
           else if truthy aclient then
             build (the aclient) CONF_ACCOUNT_MATCH ids domain src date_text ev1 r False
           else if truthy fcid then
             build (the fcid) CONF_FILENAME_MATCH ids domain src date_text ev1 r False
           else
             \<lparr>att_client_id = None, att_confidence = CONF_NONE, att_account_ids = [],
              att_domain = ''UNKNOWN'', att_source_hint = [], att_filename_date_text = [],
              att_evidence = ev1 @
                [''no filename pattern matched and no known account identifiers were found''],
              att_conflict = False\<rparr>)"

section \<open>Facts\<close>

lemma note_id_known: "set (note_id known v found) \<subseteq> set found \<union> {x. dict_get known x \<noteq> None}"
  by (auto simp: note_id_def)

lemma fold_note_id_known:
  "set (fold (note_id known) vs found) \<subseteq> set found \<union> {x. dict_get known x \<noteq> None}"
  by (induction vs arbitrary: found) (use note_id_known in fastforce)+

lemma fold_note_id_distinct: "distinct found \<Longrightarrow> distinct (fold (note_id known) vs found)"
  by (induction vs arbitrary: found) (auto simp: note_id_def)

definition ids_ok :: "(string, string) dict \<Rightarrow> string list \<Rightarrow> bool" where
  "ids_ok known found \<longleftrightarrow> distinct found \<and> (\<forall>x \<in> set found. dict_get known x \<noteq> None)"

lemma scan_value_ok: "ids_ok known found \<Longrightarrow> ids_ok known (scan_value known b v found)"
  unfolding ids_ok_def scan_value_def
  using fold_note_id_known [of known "map m_text (re_findall ACCOUNT_CANDIDATE v)" found]
    fold_note_id_distinct [of found known] by auto

lemma find_account_ids_ok: "ids_ok known (find_account_ids headers rows known)"
proof -
  have cols: "ids_ok known found \<Longrightarrow>
      ids_ok known (fold (\<lambda>h. scan_value known b (strip (cell r h))) cs found)" for b r cs found
    by (induction cs arbitrary: found) (auto intro: scan_value_ok)
  have rows: "ids_ok known found \<Longrightarrow>
      ids_ok known (fold (\<lambda>r found. fold (\<lambda>h. scan_value known b (strip (cell r h))) cs found) rs found)"
    for b cs rs found
    by (induction rs arbitrary: found) (auto intro: cols)
  show ?thesis unfolding find_account_ids_def Let_def
    by (rule rows) (simp add: ids_ok_def)
qed

lemma build_sel [simp]:
  "att_client_id (build cid conf ids d s t e r x) = Some cid"
  "att_confidence (build cid conf ids d s t e r x) = conf"
  "att_account_ids (build cid conf ids d s t e r x) = ids"
  "att_conflict (build cid conf ids d s t e r x) = x"
  "att_source_hint (build cid conf ids d s t e r x) = s"
  by (simp_all add: build_def split_beta)

lemma match_filename_among_client:
  "match_filename_among cls fn = (Some cl, rest) \<Longrightarrow> cl \<in> set cls"
  by (induction cls) (auto split: option.splits)

lemma match_filename_client:
  "match_filename fn r = (Some cl, rest) \<Longrightarrow> cl \<in> set (clients r)"
  unfolding match_filename_def by (rule match_filename_among_client)

lemma all_account_ids_client:
  "dict_get (all_account_ids r) a = Some c \<Longrightarrow> \<exists>cl \<in> set (clients r). client_id cl = c"
  unfolding all_account_ids_def by (drule dict_of_get_Some) auto

lemma single_owner:
  assumes "\<not> 1 < length (uniq xs)" and "x \<in> set xs"
  shows "most_common xs = Some x" and "y \<in> set xs \<Longrightarrow> y = x"
proof -
  have ne: "uniq xs \<noteq> []" using assms(2) by (metis set_uniq empty_iff empty_set)
  with assms(1) obtain z where z: "uniq xs = [z]"
    by (cases "uniq xs") auto
  have all: "\<forall>y \<in> set xs. y = z" using set_uniq [of xs] unfolding z by auto
  show "y = x" if "y \<in> set xs"
  proof -
    have "y = z" using all that by (rule bspec)
    moreover have "x = z" using all assms(2) by (rule bspec)
    ultimately show ?thesis by simp
  qed
  show "most_common xs = Some x"
  proof (rule most_common_const)
    show "xs \<noteq> []" using assms(2) by auto
    have "x = z" using all assms(2) by (rule bspec)
    with all show "\<forall>y \<in> set xs. y = x" by simp
  qed
qed

section \<open>Properties\<close>

lemma conf_grades:
  "distinct [CONF_BOTH_AGREE, CONF_ACCOUNT_MATCH, CONF_FILENAME_MATCH, CONF_CONFLICT, CONF_NONE]"
  by code_simp

lemma conf_grade_neq [simp]:
  "CONF_BOTH_AGREE \<noteq> CONF_CONFLICT" "CONF_ACCOUNT_MATCH \<noteq> CONF_CONFLICT"
  "CONF_FILENAME_MATCH \<noteq> CONF_CONFLICT" "CONF_NONE \<noteq> CONF_CONFLICT"
  "CONF_CONFLICT \<noteq> CONF_BOTH_AGREE" "CONF_ACCOUNT_MATCH \<noteq> CONF_BOTH_AGREE"
  "CONF_FILENAME_MATCH \<noteq> CONF_BOTH_AGREE" "CONF_NONE \<noteq> CONF_BOTH_AGREE"
  using conf_grades by auto

definition owners_of :: "string list \<Rightarrow> row list \<Rightarrow> registry \<Rightarrow> string list" where
  "owners_of headers rows r =
     account_clients (all_account_ids r) (find_account_ids headers rows (all_account_ids r))"

lemma truthyD: "truthy s \<Longrightarrow> Some (the s) = s"
  by (auto simp: truthy_def)

text \<open>What \<open>attribute\<close> decides, without the evidence it records.\<close>

lemma attribute_cases:
  fixes r fn headers rows
  defines "a \<equiv> attribute fn headers rows r"
    and "ids \<equiv> find_account_ids headers rows (all_account_ids r)"
    and "ac \<equiv> most_common (owners_of headers rows r)"
    and "fc \<equiv> map_option client_id (fst (match_filename fn r))"
  shows "(att_client_id a, att_confidence a, att_account_ids a, att_conflict a) =
    (if 1 < length (uniq (owners_of headers rows r)) then (None, CONF_CONFLICT, ids, True)
     else if truthy ac \<and> truthy fc then
       (if ac = fc then (ac, CONF_BOTH_AGREE, ids, False) else (ac, CONF_CONFLICT, ids, True))
     else if truthy ac then (ac, CONF_ACCOUNT_MATCH, ids, False)
     else if truthy fc then (fc, CONF_FILENAME_MATCH, ids, False)
     else (None, CONF_NONE, [], False))"
proof -
  obtain fcl dm src dt where m: "match_filename fn r = (fcl, dm, src, dt)"
    by (cases "match_filename fn r")
  show ?thesis
    unfolding a_def ids_def ac_def fc_def attribute_def Let_def m split_conv fst_conv
      owners_of_def [symmetric]
    by (cases "1 < length (uniq (owners_of headers rows r))";
        cases "truthy (most_common (owners_of headers rows r))";
        cases "truthy (map_option client_id fcl)") (simp_all add: truthyD)
qed

lemma owners_same:
  assumes "\<not> 1 < length (uniq (owners_of headers rows r))"
    and "x \<in> set (find_account_ids headers rows (all_account_ids r))"
  shows "dict_get (all_account_ids r) x = most_common (owners_of headers rows r)"
    and "most_common (owners_of headers rows r) \<noteq> None"
proof -
  obtain c where c: "dict_get (all_account_ids r) x = Some c"
    using find_account_ids_ok [of "all_account_ids r" headers rows] assms(2) by (auto simp: ids_ok_def)
  then have "c \<in> set (owners_of headers rows r)"
    using assms(2) by (force simp: owners_of_def account_clients_def)
  then have "most_common (owners_of headers rows r) = Some c" by (rule single_owner(1) [OF assms(1)])
  with c show "dict_get (all_account_ids r) x = most_common (owners_of headers rows r)"
    and "most_common (owners_of headers rows r) \<noteq> None" by simp_all
qed

lemma owner_is_client:
  assumes "c \<in> set (owners_of headers rows r)"
  shows "c \<in> client_id ` set (clients r)"
proof -
  obtain x where x: "x \<in> set (find_account_ids headers rows (all_account_ids r))"
    "c = the (dict_get (all_account_ids r) x)"
    using assms by (auto simp: owners_of_def account_clients_def)
  then have "dict_get (all_account_ids r) x = Some c"
    using find_account_ids_ok [of "all_account_ids r" headers rows] by (auto simp: ids_ok_def)
  then show ?thesis using all_account_ids_client by blast
qed

lemma attribute_conflict:
  "att_conflict (attribute fn headers rows r) \<longleftrightarrow>
     att_confidence (attribute fn headers rows r) = CONF_CONFLICT"
  using attribute_cases [of fn headers rows r] by (auto split: if_splits)

lemma attribution_facts:
  fixes r fn headers rows
  defines "a \<equiv> attribute fn headers rows r"
  assumes "[] \<notin> client_id ` set (clients r)"
  shows "ids_ok (all_account_ids r) (att_account_ids a)
    \<and> (\<forall>c. att_client_id a = Some c \<longrightarrow>
          c \<in> client_id ` set (clients r)
          \<and> (\<forall>x \<in> set (att_account_ids a). dict_get (all_account_ids r) x = Some c))
    \<and> (att_confidence a = CONF_BOTH_AGREE \<longrightarrow>
          att_account_ids a \<noteq> [] \<and>
          (\<exists>cl. fst (match_filename fn r) = Some cl \<and> att_client_id a = Some (client_id cl)))
    \<and> (att_conflict a \<longleftrightarrow> att_confidence a = CONF_CONFLICT)
    \<and> att_confidence a \<in> {CONF_BOTH_AGREE, CONF_ACCOUNT_MATCH, CONF_FILENAME_MATCH, CONF_CONFLICT, CONF_NONE}"
proof -
  let ?ids = "find_account_ids headers rows (all_account_ids r)"
  let ?ow = "owners_of headers rows r"
  let ?ac = "most_common ?ow"
  let ?fc = "map_option client_id (fst (match_filename fn r))"
  have ac: "c \<in> client_id ` set (clients r) \<and> ?ids \<noteq> []" if "?ac = Some c" for c
    using most_common_Some(1) [OF that] owner_is_client
    by (auto simp: owners_of_def account_clients_def)
  have fc: "c \<in> client_id ` set (clients r)" if "?fc = Some c" for c
    using that by (cases "match_filename fn r") (auto dest!: match_filename_client)
  have tr: "truthy ?ac \<longleftrightarrow> ?ac \<noteq> None" "truthy ?fc \<longleftrightarrow> ?fc \<noteq> None"
    using ac fc assms(2) unfolding truthy_def by blast+
  have none: "?ids = []" if "?ac = None"
    using that by (simp add: owners_of_def account_clients_def)
  note cases = attribute_cases [of fn headers rows r, folded a_def]
  have known: "ids_ok (all_account_ids r) ?ids" by (rule find_account_ids_ok)
  show ?thesis
  proof (cases "1 < length (uniq ?ow)")
    case True
    with cases known show ?thesis by simp
  next
    case False
    note own = owners_same(1) [OF False] and own' = owners_same(2) [OF False]
    show ?thesis
    proof (cases ?ac)
      case None
      then have "?ids = []" by (rule none)
      with cases False None fc known show ?thesis
        unfolding tr by (cases ?fc) (simp_all add: ids_ok_def)
    next
      case (Some c)
      then have "\<forall>x \<in> set ?ids. dict_get (all_account_ids r) x = Some c" using own by simp
      with cases False Some ac known show ?thesis
        unfolding tr by (cases ?fc) (auto split: if_splits)
    qed
  qed
qed


definition sample_registry :: registry where
  "sample_registry = \<lparr>reg_clients = [(''MERIDIAN'', sample_client)], reg_calendars = [(''W'', weekend_calendar)]\<rparr>"


end
