(* ===== verification/Confidence.thy ===== *)
theory Confidence
  imports Attribution ValueDate Tier1
begin

text \<open>
  One confidence and one disposition: \<open>python/src/inspector/confidence.py\<close>. The environment is a
  function from names to texts (\<open>os.environ.get(name, "")\<close>). \<open>compose\<close> returns a result, because
  \<open>Domain(domain)\<close> raises \<open>ValueError\<close> for a text that names no domain.
\<close>

section \<open>Thresholds\<close>

datatype disposition = DISPATCHED | QUARANTINED | REJECTED

definition W_CLIENT :: rat where "W_CLIENT = fl (35 / 100)"
definition W_VALUE_DATE :: rat where "W_VALUE_DATE = fl (35 / 100)"
definition W_MAPPING :: rat where "W_MAPPING = fl (30 / 100)"

text \<open>
  \<open>float(text)\<close> for a finite number; an underscore may stand between two digits. \<open>None\<close> stands
  for a text that is no number and for infinities and NaNs, which fail every range check.
\<close>

fun underscores_ok :: "char \<Rightarrow> string \<Rightarrow> bool" where
  "underscores_ok p [] = (p \<noteq> CHR ''_'')"
| "underscores_ok p (ch # s) =
     ((ch = CHR ''_'' \<longrightarrow> is_digit p) \<and> (p = CHR ''_'' \<longrightarrow> is_digit ch) \<and> underscores_ok ch s)"

definition float_of :: "string \<Rightarrow> rat option" where
  "float_of txt =
     (let s = strip txt; (neg, body) = parse_sign (filter (\<lambda>ch. ch \<noteq> CHR ''_'') s)
      in if underscores_ok (CHR '' '') s
         then map_option (\<lambda>d. fl (dec_val d)) (parse_finite neg body) else None)"

definition threshold :: "(string \<Rightarrow> string) \<Rightarrow> string \<Rightarrow> rat \<Rightarrow> rat" where
  "threshold env name dflt =
     (case float_of (env name) of
        None \<Rightarrow> dflt
      | Some v \<Rightarrow> if 0 \<le> v \<and> v \<le> 1 then v else dflt)"

definition dispatch_threshold :: "(string \<Rightarrow> string) \<Rightarrow> rat" where
  "dispatch_threshold env = threshold env ''HM_CONF_DISPATCH'' (fl (85 / 100))"

definition quarantine_threshold :: "(string \<Rightarrow> string) \<Rightarrow> rat" where
  "quarantine_threshold env = threshold env ''HM_CONF_QUARANTINE'' (fl (60 / 100))"

section \<open>Coverage\<close>

record score =
  overall :: rat
  sc_client :: rat
  sc_value_date :: rat
  sc_mapping_coverage :: rat
  disposition :: disposition
  reasons :: "string list"
  unmapped_required :: "string list"

definition resolved_pairs :: "mapping list \<Rightarrow> (string \<times> mapping) list" where
  "resolved_pairs ms = List.map_filter
     (\<lambda>m. case canonical_field m of
        Some f \<Rightarrow> if f = [] then None else Some (f, m) | None \<Rightarrow> None) ms"

definition resolved_map :: "mapping list \<Rightarrow> (string, mapping) dict" where
  "resolved_map ms = dict_of (resolved_pairs ms)"

text \<open>The loop over the sorted required fields: total weight, earned weight, missing fields. The
  total is a sum of small whole numbers and so exact.\<close>

primrec cover ::
    "(string, mapping) dict \<Rightarrow> string list \<Rightarrow> rat \<times> rat \<times> string list \<Rightarrow> rat \<times> rat \<times> string list" where
  "cover by_name [] acc = acc"
| "cover by_name (f # fs) acc =
     (let (tot, earned, missing) = acc; weight = of_int (field_weight f) in
      case dict_get by_name f of
        None \<Rightarrow> cover by_name fs (tot + weight, earned, missing @ [f])
      | Some m \<Rightarrow> cover by_name fs (tot + weight, fl (earned + fl (weight * m_confidence m)), missing))"

text \<open>The recursion outside the case distinction, for evaluation.\<close>

lemma cover_code [code]:
  "cover by_name [] acc = acc"
  "cover by_name (f # fs) acc =
     cover by_name fs (case dict_get by_name f of
        None \<Rightarrow> (fst acc + of_int (field_weight f), fst (snd acc), snd (snd acc) @ [f])
      | Some m \<Rightarrow> (fst acc + of_int (field_weight f),
          fl (fst (snd acc) + fl (of_int (field_weight f) * m_confidence m)), snd (snd acc)))"
  by (simp_all add: Let_def split: prod.split option.split)

definition mapping_coverage :: "mapping list \<Rightarrow> string \<Rightarrow> (rat \<times> string list) result" where
  "mapping_coverage ms domain =
     (case domain_of domain of
        None \<Rightarrow> Inl ValueError
      | Some d \<Rightarrow>
          if REQUIRED_BY_DOMAIN d = [] then Inr (1, [])
          else
            let (tot, earned, missing) = cover (resolved_map ms) (sort (REQUIRED_BY_DOMAIN d)) (0, 0, [])
            in Inr (py_round 4 (if tot \<noteq> 0 then fl (earned / tot) else 1), missing))"

section \<open>Routing and composing\<close>

definition route ::
    "(string \<Rightarrow> string) \<Rightarrow> rat \<Rightarrow> attribution \<Rightarrow> resolution \<Rightarrow> string list \<Rightarrow> disposition" where
  "route env tot att vd missing =
     (if \<not> att_resolved att \<or> resolved vd = None then
        (if fl (quarantine_threshold env / 2) \<le> tot then QUARANTINED else REJECTED)
      else if missing \<noteq> [] then QUARANTINED
      else if dispatch_threshold env \<le> tot then DISPATCHED
      else if quarantine_threshold env \<le> tot then QUARANTINED
      else REJECTED)"

definition overall_score :: "rat \<Rightarrow> rat \<Rightarrow> rat \<Rightarrow> rat" where
  "overall_score client_conf date_conf coverage =
     py_round 4 (fl (fl (fl (W_CLIENT * client_conf) + fl (W_VALUE_DATE * date_conf))
                     + fl (W_MAPPING * coverage)))"

definition client_reasons :: "attribution \<Rightarrow> string list" where
  "client_reasons att =
     (if \<not> att_resolved att then
        [''client could not be determined: '' @ join ''; '' (att_evidence att)]
      else if att_conflict att then
        [''conflicting evidence for client '' @ the (att_client_id att) @ '': ''
         @ join ''; '' (att_evidence att)]
      else [])"

definition date_reasons :: "resolution \<Rightarrow> rat \<Rightarrow> string list" where
  "date_reasons vd date_conf =
     (if resolved vd = None then [''value date could not be determined'']
      else (if mismatch_flagged vd then [''value-date disagreement: '' @ vd_notes vd] else [])
         @ (if date_conf < fl (7 / 10) then
              [''value date rests on weak evidence ('' @ method_str (vd_method vd)
               @ '', confidence '' @ fixed 2 date_conf @ '')''] else []))"

definition required_of :: "string \<Rightarrow> string list" where
  "required_of domain = (case domain_of domain of None \<Rightarrow> [] | Some d \<Rightarrow> REQUIRED_BY_DOMAIN d)"

definition weak_reasons :: "mapping list \<Rightarrow> string \<Rightarrow> string list" where
  "weak_reasons ms domain = List.map_filter
     (\<lambda>m. case canonical_field m of
        Some f \<Rightarrow>
          if f \<noteq> [] \<and> f \<in> set (required_of domain) \<and> m_confidence m < fl (7 / 10)
          then Some (f @ '' mapped from '' @ repr (source_field m) @ '' on weak evidence: '' @ m_evidence m)
          else None
      | None \<Rightarrow> None) ms"

definition price_reasons :: "mapping list \<Rightarrow> string list" where
  "price_reasons ms =
     map (\<lambda>m. ''price column '' @ repr (source_field m) @ '' left unassigned: '' @ m_evidence m)
       (filter (\<lambda>m. canonical_field m = None \<and> contains ''price'' (lower (m_evidence m))) ms)"

definition compose ::
    "(string \<Rightarrow> string) \<Rightarrow> attribution \<Rightarrow> resolution \<Rightarrow> mapping list \<Rightarrow> string \<Rightarrow> score result" where
  "compose env att vd ms domain =
     res_bind (mapping_coverage ms domain) (\<lambda>(coverage, missing).
       let client_conf = att_confidence att;
           date_conf = (if resolved vd = None then 0 else vd_confidence vd);
           tot = overall_score client_conf date_conf coverage;
           rs = client_reasons att @ date_reasons vd date_conf
              @ map (\<lambda>name. ''required field '' @ repr name @ '' for domain '' @ domain
                  @ '' was not mapped'') missing
              @ weak_reasons ms domain @ price_reasons ms;
           disp = route env tot att vd missing
       in Inr \<lparr>overall = tot, sc_client = client_conf, sc_value_date = date_conf,
            sc_mapping_coverage = coverage, disposition = disp,
            reasons = (if disp = DISPATCHED then filter (prefix ''value-date disagreement'') rs else rs),
            unmapped_required = missing\<rparr>)"

section \<open>Bounds\<close>

definition unit_interval :: "rat \<Rightarrow> bool" where
  "unit_interval x \<longleftrightarrow> 0 \<le> x \<and> x \<le> 1"

lemma weights_pos: "0 \<le> W_CLIENT" "0 \<le> W_VALUE_DATE" "0 \<le> W_MAPPING"
  by (simp_all add: W_CLIENT_def W_VALUE_DATE_def W_MAPPING_def fl_nonneg)

lemma overall_score_mono:
  assumes "c \<le> c'" "d \<le> d'" "m \<le> m'"
  shows "overall_score c d m \<le> overall_score c' d' m'"
  unfolding overall_score_def
  by (intro py_round_mono double.rnd_weighted_mono assms weights_pos)

lemma overall_score_top: "overall_score 1 1 1 = 1"
  by code_simp

lemma overall_score_0: "overall_score 0 0 0 = 0"
  by code_simp

lemma overall_score_bounds:
  "unit_interval c \<Longrightarrow> unit_interval d \<Longrightarrow> unit_interval m \<Longrightarrow> unit_interval (overall_score c d m)"
  using overall_score_mono [of 0 c 0 d 0 m] overall_score_mono [of c 1 d 1 m 1]
  by (simp add: unit_interval_def overall_score_top overall_score_0)

text \<open>Earned weight never exceeds total weight: totals are whole numbers, which rounding keeps.\<close>

lemma field_weight_le: "field_weight f \<le> 3"
  by (auto simp: field_weight_def dict_get_or_def FIELD_WEIGHTS_def DEFAULT_FIELD_WEIGHT_def)

definition confs_ok :: "(string, mapping) dict \<Rightarrow> bool" where
  "confs_ok r \<longleftrightarrow> (\<forall>f m. dict_get r f = Some m \<longrightarrow> unit_interval (m_confidence m))"

lemma cover_bounds:
  assumes "cover r fs (of_int n, earned, miss) = (tot, earned', miss')"
    and "0 \<le> earned" "earned \<le> of_int n" "0 \<le> n" "n + 3 * int (length fs) \<le> 2 ^ 40"
    and "confs_ok r"
  shows "0 \<le> earned' \<and> earned' \<le> tot"
  using assms(1-5)
proof (induction fs arbitrary: n earned miss)
  case (Cons f fs)
  let ?w = "field_weight f"
  have w: "0 < ?w" "?w \<le> 3" by (simp_all add: field_weight_pos field_weight_le)
  have n: "0 \<le> n + ?w" "n + ?w + 3 * int (length fs) \<le> 2 ^ 40" using w Cons.prems(4,5) by simp_all
  have tot: "(of_int n :: rat) + of_int ?w = of_int (n + ?w)" by simp
  show ?case
  proof (cases "dict_get r f")
    case None
    have "earned \<le> of_int (n + ?w)" using Cons.prems(3) w by simp
    moreover have "cover r fs (of_int (n + ?w), earned, miss @ [f]) = (tot, earned', miss')"
      using Cons.prems(1) None by (simp add: Let_def tot del: of_int_add)
    ultimately show ?thesis using Cons.IH Cons.prems(2) n by blast
  next
    case (Some m)
    then have m: "0 \<le> m_confidence m" "m_confidence m \<le> 1"
      using assms(6) by (auto simp: confs_ok_def unit_interval_def)
    let ?e = "fl (earned + fl (of_int ?w * m_confidence m))"
    have "of_int ?w * m_confidence m \<le> of_int ?w" using w m by (simp add: mult_left_le)
    then have "fl (of_int ?w * m_confidence m) \<le> of_int ?w"
      using fl_mono fl_of_int [of ?w] w by fastforce
    then have "earned + fl (of_int ?w * m_confidence m) \<le> of_int (n + ?w)" using Cons.prems(3) by simp
    then have "?e \<le> of_int (n + ?w)"
      using fl_mono fl_of_int [of "n + ?w"] n by fastforce
    moreover have "0 \<le> ?e" using m w Cons.prems(2) by (intro fl_nonneg add_nonneg_nonneg) simp_all
    moreover have "cover r fs (of_int (n + ?w), ?e, miss) = (tot, earned', miss')"
      using Cons.prems(1) Some by (simp add: Let_def tot del: of_int_add)
    ultimately show ?thesis using Cons.IH n by blast
  qed
qed simp

lemma cover_missing:
  "cover r fs (t, e, miss) = (tot, earned, miss') \<Longrightarrow>
     miss' = miss @ filter (\<lambda>f. dict_get r f = None) fs"
  by (induction fs arbitrary: t e miss) (fastforce simp: Let_def split: option.splits)+

lemma in_resolved_pairs:
  "(f, m) \<in> set (resolved_pairs ms) \<longleftrightarrow> m \<in> set ms \<and> canonical_field m = Some f \<and> f \<noteq> []"
  by (auto simp: resolved_pairs_def map_filter_eq_concat split: option.splits if_splits)

lemma resolved_map_ok:
  assumes "\<forall>m \<in> set ms. unit_interval (m_confidence m)"
  shows "confs_ok (resolved_map ms)"
  using assms dict_of_get_Some [of "resolved_pairs ms"]
  by (auto simp: confs_ok_def resolved_map_def in_resolved_pairs)

lemma resolved_map_None:
  assumes "f \<noteq> []"
  shows "dict_get (resolved_map ms) f = None \<longleftrightarrow> f \<notin> set (resolved_fields ms)"
proof -
  have "f \<in> fst ` set (resolved_pairs ms) \<longleftrightarrow> f \<in> set (resolved_fields ms)"
  proof -
    have "f \<in> fst ` set (resolved_pairs ms) \<longleftrightarrow> (\<exists>m. (f, m) \<in> set (resolved_pairs ms))" by force
    then show ?thesis using assms by (auto simp: in_resolved_pairs in_resolved_fields)
  qed
  then show ?thesis by (simp add: resolved_map_def map_of_eq_None_iff dict_of_keys [simplified])
qed

lemma required_length: "length (REQUIRED_BY_DOMAIN d) \<le> 7"
  by (cases d) simp_all

lemma mapping_coverage_bounds:
  assumes "mapping_coverage ms domain = Inr (cov, missing)"
    and "\<forall>m \<in> set ms. unit_interval (m_confidence m)"
  shows "unit_interval cov"
proof -
  obtain d where d: "domain_of domain = Some d"
    using assms(1) by (auto simp: mapping_coverage_def split: option.splits)
  show ?thesis
  proof (cases "REQUIRED_BY_DOMAIN d = []")
    case False
    obtain tot earned miss where cv:
      "cover (resolved_map ms) (sort (REQUIRED_BY_DOMAIN d)) (of_int 0, 0, []) = (tot, earned, miss)"
      by (cases "cover (resolved_map ms) (sort (REQUIRED_BY_DOMAIN d)) (of_int 0, 0, [])")
    have e: "0 \<le> earned \<and> earned \<le> tot"
      using required_length [of d] by (intro cover_bounds [OF cv _ _ _ _ resolved_map_ok [OF assms(2)]]) auto
    then have "unit_interval (py_round 4 (if tot \<noteq> 0 then fl (earned / tot) else 1))"
      by (auto simp: unit_interval_def intro!: py_round_nonneg py_round_le_one fl_nonneg fl_le_one
          simp: divide_le_eq_1)
    then show ?thesis using assms(1) d cv False by (auto simp: mapping_coverage_def)
  qed (use assms(1) d in \<open>auto simp: mapping_coverage_def unit_interval_def\<close>)
qed

lemma mapping_coverage_missing:
  assumes "mapping_coverage ms domain = Inr (cov, missing)"
  shows "set missing = set (required_of domain) - set (resolved_fields ms)"
proof -
  obtain d where d: "domain_of domain = Some d"
    using assms(1) by (auto simp: mapping_coverage_def split: option.splits)
  have ne: "f \<noteq> []" if "f \<in> set (REQUIRED_BY_DOMAIN d)" for f
    using that by (cases d) auto
  obtain tot earned miss where cv:
    "cover (resolved_map ms) (sort (REQUIRED_BY_DOMAIN d)) (0, 0, []) = (tot, earned, miss)"
    by (cases "cover (resolved_map ms) (sort (REQUIRED_BY_DOMAIN d)) (0, 0, [])")
  from cover_missing [OF cv] have "set miss = set (REQUIRED_BY_DOMAIN d) - set (resolved_fields ms)"
    using resolved_map_None [OF ne, of _ ms] by auto
  then show ?thesis
    using assms cv d by (auto simp: mapping_coverage_def required_of_def split: if_splits)
qed

section \<open>Properties\<close>

lemma compose_Inr:
  assumes "compose env att vd ms domain = Inr s"
  obtains cov missing where "mapping_coverage ms domain = Inr (cov, missing)"
    and "overall s = overall_score (att_confidence att)
           (if resolved vd = None then 0 else vd_confidence vd) cov"
    and "disposition s = route env (overall s) att vd missing"
    and "unmapped_required s = missing" and "sc_mapping_coverage s = cov"
  using assms by (auto simp: compose_def res_bind_Inr_iff Let_def)

lemma dispatched_evidence:
  assumes "compose env att vd ms domain = Inr s" and "disposition s = DISPATCHED"
  shows "att_client_id att \<noteq> None \<and> resolved vd \<noteq> None
    \<and> set (required_of domain) \<subseteq> set (resolved_fields ms)
    \<and> dispatch_threshold env \<le> overall s"
proof -
  obtain cov missing where cov: "mapping_coverage ms domain = Inr (cov, missing)"
    and r: "disposition s = route env (overall s) att vd missing"
    by (rule compose_Inr [OF assms(1)])
  from r assms(2) have "att_resolved att" "resolved vd \<noteq> None" "missing = []" "dispatch_threshold env \<le> overall s"
    by (auto simp: route_def split: if_splits)
  then show ?thesis
    using mapping_coverage_missing [OF cov] by (auto simp: att_resolved_def)
qed

text \<open>C1. Nothing is dispatched on missing evidence: a dispatched arrival has a client and a value
  date, a mapping for every field its domain requires, and a composed confidence at or above the
  dispatch threshold.\<close>

theorem dispatch_requires_evidence:
  assumes "compose env att vd ms domain = Inr s" and "disposition s = DISPATCHED"
  shows "att_client_id att \<noteq> None \<and> resolved vd \<noteq> None
    \<and> set (required_of domain) \<subseteq> set (resolved_fields ms)
    \<and> dispatch_threshold env \<le> overall s"
  by (rule dispatched_evidence [OF assms])

text \<open>C2. The composed confidence and the coverage of required fields are between 0 and 1 whenever the
  component confidences are.\<close>

theorem overall_within_bounds:
  assumes "compose env att vd ms domain = Inr s"
    and "unit_interval (att_confidence att)" and "unit_interval (vd_confidence vd)"
    and "\<forall>m \<in> set ms. unit_interval (m_confidence m)"
  shows "unit_interval (overall s) \<and> unit_interval (sc_mapping_coverage s)"
proof -
  obtain cov missing where cov: "mapping_coverage ms domain = Inr (cov, missing)"
    and o: "overall s = overall_score (att_confidence att)
           (if resolved vd = None then 0 else vd_confidence vd) cov"
    and c: "sc_mapping_coverage s = cov"
    by (rule compose_Inr [OF assms(1)])
  have "unit_interval cov" by (rule mapping_coverage_bounds [OF cov assms(4)])
  moreover have "unit_interval (if resolved vd = None then 0 else vd_confidence vd)"
    using assms(3) by (simp add: unit_interval_def)
  ultimately show ?thesis using assms(2) by (simp add: o c overall_score_bounds)
qed

text \<open>C3. Conflicting client evidence is never dispatched under the default thresholds, however good the
  dates and the columns are: an attribution whose filename and contents disagree, or whose
  contents name two clients, scores below the dispatch threshold.\<close>

lemma default_thresholds:
  "env ''HM_CONF_DISPATCH'' = [] \<Longrightarrow> dispatch_threshold env = fl (85 / 100)"
  "env ''HM_CONF_QUARANTINE'' = [] \<Longrightarrow> quarantine_threshold env = fl (60 / 100)"
  by (simp_all add: dispatch_threshold_def quarantine_threshold_def threshold_def float_of_def
      parse_sign_def parse_finite_def take_digits_def)

lemma conflict_ceiling: "overall_score CONF_CONFLICT 1 1 < fl (85 / 100)"
  by code_simp

theorem conflict_not_dispatched:
  assumes "compose env att vd ms domain = Inr s"
    and "att = attribute fn headers rows r" and "att_conflict att"
    and "unit_interval (vd_confidence vd)" and "\<forall>m \<in> set ms. unit_interval (m_confidence m)"
    and "env ''HM_CONF_DISPATCH'' = []"
  shows "disposition s \<noteq> DISPATCHED"
proof -
  obtain cov missing where cov: "mapping_coverage ms domain = Inr (cov, missing)"
    and o: "overall s = overall_score (att_confidence att)
           (if resolved vd = None then 0 else vd_confidence vd) cov"
    and r: "disposition s = route env (overall s) att vd missing"
    by (rule compose_Inr [OF assms(1)])
  have "att_confidence att = CONF_CONFLICT"
    using attribute_conflict assms(2,3) by blast
  moreover have "unit_interval cov" by (rule mapping_coverage_bounds [OF cov assms(5)])
  ultimately have "overall s \<le> overall_score CONF_CONFLICT 1 1"
    using assms(4) unfolding o by (intro overall_score_mono) (auto simp: unit_interval_def)
  moreover have "dispatch_threshold env = fl (85 / 100)"
    using assms(6) by (rule default_thresholds)
  ultimately show ?thesis
    using conflict_ceiling r by (auto simp: route_def split: if_splits)
qed

text \<open>Better evidence never lowers the disposition: raising the client, the date or the coverage
  score, with the same fields missing, moves an arrival only towards dispatch.\<close>

primrec rank :: "disposition \<Rightarrow> nat" where
  "rank REJECTED = 0"
| "rank QUARANTINED = 1"
| "rank DISPATCHED = 2"

lemma routing_monotone:
  assumes "c \<le> c'" and "d \<le> d'" and "m \<le> m'"
  shows "rank (route env (overall_score c d m) att vd missing)
       \<le> rank (route env (overall_score c' d' m') att vd missing)"
proof -
  have "overall_score c d m \<le> overall_score c' d' m'" by (rule overall_score_mono [OF assms])
  then show ?thesis unfolding route_def by auto
qed

section \<open>Examples\<close>

definition no_env :: "string \<Rightarrow> string" where
  "no_env name = []"

definition sample_attribution :: "rat \<Rightarrow> bool \<Rightarrow> attribution" where
  "sample_attribution conf conflict = \<lparr>att_client_id = Some ''MERIDIAN'', att_confidence = conf,
     att_account_ids = [], att_domain = ''CASH'', att_source_hint = [], att_filename_date_text = [],
     att_evidence = [], att_conflict = conflict\<rparr>"

definition sample_resolution :: "rat \<Rightarrow> resolution" where
  "sample_resolution conf = \<lparr>resolved = Some 739920, vd_method = CONTENT_EXPLICIT, vd_confidence = conf,
     from_filename = None, from_content = [739920], from_arrival = 739921, mismatch_flagged = False,
     vd_calendar_id = ''W'', vd_notes = []\<rparr>"

definition cash_mappings :: "mapping list" where
  "cash_mappings = map (\<lambda>f. assigned f f ALIAS 1 []) [''account_id'', ''net_amount'', ''currency'']"

lemma no_env_thresholds:
  "dispatch_threshold no_env = fl (85 / 100)" "quarantine_threshold no_env = fl (60 / 100)"
  by (simp_all add: default_thresholds no_env_def)

lemma cash_coverage: "mapping_coverage cash_mappings ''CASH'' = Inr (1, [])"
  by code_simp

lemma sample_sel [simp]:
  "att_confidence (sample_attribution c b) = c" "att_resolved (sample_attribution c b)"
  "att_conflict (sample_attribution c b) = b"
  "resolved (sample_resolution d) = Some 739920" "vd_confidence (sample_resolution d) = d"
  "mismatch_flagged (sample_resolution d) = False"
  by (simp_all add: sample_attribution_def sample_resolution_def att_resolved_def)

lemma cash_dispatched:
  "case compose no_env (sample_attribution 1 False) (sample_resolution 1) cash_mappings ''CASH'' of
     Inr s \<Rightarrow> disposition s = DISPATCHED \<and> overall s = 1 | Inl _ \<Rightarrow> False"
proof -
  have "fl (85 / 100) \<le> 1" by (rule fl_le_one) simp
  then show ?thesis
    by (simp add: compose_def cash_coverage overall_score_top route_def no_env_thresholds Let_def)
qed

text \<open>An arrival can be held for review without a reason: a filename-only client, a filename date and a
  domain without required fields compose to 0.825, and no single judgement is weak enough to be named.\<close>

lemma quarantined_without_reason:
  "case compose no_env (sample_attribution CONF_FILENAME_MATCH False)
      (sample_resolution (fl (70 / 100))) [] ''UNKNOWN'' of
     Inr s \<Rightarrow> disposition s = QUARANTINED \<and> reasons s = [] | Inl _ \<Rightarrow> False"
proof -
  have "mapping_coverage [] ''UNKNOWN'' = Inr (1, [])" by code_simp
  moreover have "overall_score CONF_FILENAME_MATCH (fl (70 / 100)) 1 < fl (85 / 100)"
    "fl (60 / 100) \<le> overall_score CONF_FILENAME_MATCH (fl (70 / 100)) 1" by code_simp+
  moreover have "weak_reasons [] ''UNKNOWN'' = []" "price_reasons [] = []" by code_simp+
  moreover have "fl (70 / 100) = fl (7 / 10)" by simp
  ultimately show ?thesis
    by (simp add: compose_def route_def no_env_thresholds Let_def client_reasons_def date_reasons_def)
qed

theorem dispatch_requires_evidence_witness:
  "set (required_of ''CASH'') \<subseteq> set (resolved_fields cash_mappings)"
proof -
  obtain s where "compose no_env (sample_attribution 1 False) (sample_resolution 1) cash_mappings ''CASH'' = Inr s"
    "disposition s = DISPATCHED"
    using cash_dispatched by (auto split: sum.splits)
  from dispatch_requires_evidence [OF this] show ?thesis by blast
qed

theorem overall_within_bounds_witness:
  "\<exists>s. compose no_env (sample_attribution 1 False) (sample_resolution 1) cash_mappings ''CASH'' = Inr s
     \<and> unit_interval (overall s)"
proof -
  obtain s where s: "compose no_env (sample_attribution 1 False) (sample_resolution 1) cash_mappings ''CASH'' = Inr s"
    using cash_dispatched by (auto split: sum.splits)
  have "unit_interval (overall s) \<and> unit_interval (sc_mapping_coverage s)"
    by (rule overall_within_bounds [OF s])
      (simp_all add: sample_attribution_def sample_resolution_def cash_mappings_def unit_interval_def)
  with s show ?thesis by blast
qed

lemma routing_monotone_witness:
  "rank (route no_env (overall_score 0 0 0) (sample_attribution 1 False) (sample_resolution 1) [])
     \<le> rank (route no_env (overall_score 1 1 1) (sample_attribution 1 False) (sample_resolution 1) [])"
  by (rule routing_monotone) simp_all

text \<open>Two clients' accounts in one file.\<close>

definition other_client :: client where
  "other_client = sample_client\<lparr>client_id := ''OTHER'',
     accounts := [\<lparr>acct_id = ''B2'', acct_name = [], venues = []\<rparr>]\<rparr>"

definition two_clients :: registry where
  "two_clients = \<lparr>reg_clients = [(''MERIDIAN'', sample_client), (''OTHER'', other_client)],
     reg_calendars = [(''W'', weekend_calendar)]\<rparr>"

theorem conflict_not_dispatched_witness:
  "\<exists>s. compose no_env
       (attribute ''x.csv'' [''Account''] [[(''Account'', ''A1'')], [(''Account'', ''B2'')]] two_clients)
       (sample_resolution 1) cash_mappings ''CASH'' = Inr s \<and> disposition s \<noteq> DISPATCHED"
proof -
  let ?att = "attribute ''x.csv'' [''Account''] [[(''Account'', ''A1'')], [(''Account'', ''B2'')]] two_clients"
  have conflict: "att_conflict ?att" by code_simp
  have "\<exists>p. mapping_coverage cash_mappings ''CASH'' = Inr p"
    using cash_dispatched
    by (cases "mapping_coverage cash_mappings ''CASH''") (auto simp: compose_def)
  then obtain s where s: "compose no_env ?att (sample_resolution 1) cash_mappings ''CASH'' = Inr s"
    by (auto simp: compose_def Let_def)
  have "disposition s \<noteq> DISPATCHED"
    by (rule conflict_not_dispatched [OF s refl conflict])
      (simp_all add: sample_resolution_def cash_mappings_def unit_interval_def no_env_def)
  with s show ?thesis by blast
qed

end
