(* ===== verification/Values.thy ===== *)
theory Values
  imports PyDecimal
begin

text \<open>
  The values of a canonical record, which the emitter writes and the reconciliation reads: null, a
  text, or a decimal; and \<open>str\<close> of a decimal, Python's scientific string, with the round trip
  through the constructor.
\<close>

datatype cvalue = Null | Text string | Dec decimal

type_synonym record_row = "(string, cvalue) dict"

section \<open>The text of a decimal\<close>

definition exponent_text :: "int \<Rightarrow> string" where
  "exponent_text e = (if e = 0 then [] else ''E'' @ (if e < 0 then ''-'' else ''+'') @ dec_str \<bar>e\<bar>)"

fun decimal_str :: "decimal \<Rightarrow> string" where
  "decimal_str (Num neg c e) =
     (let ds = dec_str c; n = int (length ds); left = e + n;
          place = (if e \<le> 0 \<and> -6 < left then left else 1);
          body = (if place \<le> 0 then ''0.'' @ replicate (nat (- place)) (CHR ''0'') @ ds
                  else if n \<le> place then ds @ replicate (nat (place - n)) (CHR ''0'')
                  else take (nat place) ds @ ''.'' @ drop (nat place) ds)
      in (if neg then ''-'' else []) @ body @ exponent_text (left - place))"
| "decimal_str (Infinity neg) = (if neg then ''-Infinity'' else ''Infinity'')"
| "decimal_str (NaN s) = (if s then ''sNaN'' else ''NaN'')"

fun value_str :: "cvalue \<Rightarrow> string" where
  "value_str Null = ''None''"
| "value_str (Text t) = t"
| "value_str (Dec d) = decimal_str d"

text \<open>\<open>v or ...\<close>: null, the empty text and a zero are false.\<close>

fun value_true :: "cvalue \<Rightarrow> bool" where
  "value_true Null = False"
| "value_true (Text t) = (t \<noteq> [])"
| "value_true (Dec d) = (\<not> (is_num d \<and> dec_val d = 0))"

section \<open>Round trip\<close>

lemma dec_str_nonempty [simp]: "dec_str n \<noteq> []"
  by (subst dec_str.simps) simp

text \<open>A text that ends in neither space nor underscore and has none is read as it is.\<close>

definition plain :: "string \<Rightarrow> bool" where
  "plain s \<longleftrightarrow> (\<forall>c \<in> set s. \<not> is_space c \<and> c \<noteq> CHR ''_'')"

lemma strip_plain: "plain s \<Longrightarrow> strip s = s"
proof -
  assume p: "plain s"
  have "lstrip s = s" using p by (cases s) (auto simp: lstrip_def plain_def)
  moreover have "rstrip s = s"
    using p by (cases "rev s") (auto simp: rstrip_def plain_def rev_swap)
  ultimately show ?thesis by (simp add: strip_def)
qed

lemma digit_plain: "is_digit c \<Longrightarrow> \<not> is_space c \<and> c \<noteq> CHR ''_''"
  by (auto simp: is_digit_def is_space_def Let_def)

definition digits :: "string \<Rightarrow> bool" where
  "digits s \<longleftrightarrow> list_all is_digit s"

lemma digits_simps [simp]: "digits []" "digits (c # s) \<longleftrightarrow> is_digit c \<and> digits s"
  "digits (s @ t) \<longleftrightarrow> digits s \<and> digits t"
  by (simp_all add: digits_def)

lemma digits_dec_str [simp]: "0 \<le> n \<Longrightarrow> digits (dec_str n)"
  by (auto simp: digits_def list_all_iff intro: dec_str_digits)

lemma digits_zeros [simp]: "digits (replicate n (CHR ''0''))"
  by (simp add: digits_def list_all_iff is_digit_def)

lemma digits_take [simp]: "digits s \<Longrightarrow> digits (take n s)" and digits_drop [simp]: "digits s \<Longrightarrow> digits (drop n s)"
  by (auto simp: digits_def list_all_iff dest: in_set_takeD in_set_dropD)

lemma take_digits_append:
  assumes "digits s" and "r = [] \<or> \<not> is_digit (hd r)"
  shows "take_digits (s @ r) = (s, r)"
  using assms by (induction s) (cases r; auto simp: take_digits_def)+

lemma digits_val_zeros: "digits_val (replicate n (CHR ''0'') @ s) = digits_val s"
  by (induction n) (simp_all add: digits_val_def)

lemma to_lower_E [simp]: "to_lower (CHR ''E'') = CHR ''e''"
  by code_simp

lemma exponent_text_read: "parse_exponent (exponent_text e) = Some e"
  by (simp add: parse_exponent_def exponent_text_def parse_sign_def Let_def
      digits_dec_str [unfolded digits_def])

lemma exponent_text_hd: "exponent_text e = [] \<or> hd (exponent_text e) = CHR ''E''"
  by (simp add: exponent_text_def)

lemma not_digit [simp]: "\<not> is_digit (CHR ''E'')" "\<not> is_digit (CHR ''.'')" "is_digit (CHR ''0'')"
  by (simp_all add: is_digit_def)

lemma parse_whole:
  assumes "digits s" "s \<noteq> []"
  shows "parse_finite neg (s @ exponent_text e) = Some (Num neg (digits_val s) e)"
proof -
  have "take_digits (s @ exponent_text e) = (s, exponent_text e)"
    using assms(1) exponent_text_hd [of e] by (intro take_digits_append) auto
  moreover have "(case exponent_text e of [] \<Rightarrow> ([], []) | c # cs \<Rightarrow>
      if c = CHR ''.'' then take_digits cs else ([], exponent_text e)) = ([], exponent_text e)"
    by (simp add: exponent_text_def)
  ultimately show ?thesis using assms(2) exponent_text_read [of e] by (simp add: parse_finite_def)
qed

lemma parse_point:
  assumes "digits s" "s \<noteq> []" "digits t"
  shows "parse_finite neg (s @ ''.'' @ t @ exponent_text e) = Some (Num neg (digits_val (s @ t)) (e - int (length t)))"
proof -
  have "take_digits (s @ ''.'' @ t @ exponent_text e) = (s, ''.'' @ t @ exponent_text e)"
    using assms(1) by (intro take_digits_append) auto
  moreover have "take_digits (t @ exponent_text e) = (t, exponent_text e)"
    using assms(3) exponent_text_hd [of e] by (intro take_digits_append) auto
  ultimately show ?thesis using assms(2) exponent_text_read [of e] by (simp add: parse_finite_def)
qed

definition decimal_body :: "int \<Rightarrow> int \<Rightarrow> string" where
  "decimal_body c e =
     (let ds = dec_str c; n = int (length ds); left = e + n;
          place = (if e \<le> 0 \<and> -6 < left then left else 1)
      in (if place \<le> 0 then ''0.'' @ replicate (nat (- place)) (CHR ''0'') @ ds
          else if n \<le> place then ds @ replicate (nat (place - n)) (CHR ''0'')
          else take (nat place) ds @ ''.'' @ drop (nat place) ds) @ exponent_text (left - place))"

lemma decimal_str_body: "decimal_str (Num neg c e) = (if neg then ''-'' else []) @ decimal_body c e"
  by (simp add: decimal_body_def Let_def)

lemma parse_decimal_body:
  assumes "0 \<le> c"
  shows "parse_finite neg (decimal_body c e) = Some (Num neg c e)"
proof -
  let ?ds = "dec_str c"
  define n where "n = int (length ?ds)"
  define place where "place = (if e \<le> 0 \<and> -6 < e + n then e + n else 1)"
  have n: "1 \<le> n" by (cases ?ds) (simp_all add: n_def)
  have body: "decimal_body c e = (if place \<le> 0 then ''0.'' @ replicate (nat (- place)) (CHR ''0'') @ ?ds
      else if n \<le> place then ?ds @ replicate (nat (place - n)) (CHR ''0'')
      else take (nat place) ?ds @ ''.'' @ drop (nat place) ?ds) @ exponent_text (e + n - place)"
    by (simp add: decimal_body_def Let_def n_def place_def)
  consider "place \<le> 0" | "0 < place" "n \<le> place" | "0 < place" "place < n" by linarith
  then show ?thesis
  proof cases
    case 1
    then have place: "place = e + n" by (simp add: place_def split: if_splits)
    have b: "decimal_body c e = ''0'' @ ''.'' @ (replicate (nat (- place)) (CHR ''0'') @ ?ds) @ exponent_text 0"
      using 1 place by (simp add: body exponent_text_def [of 0])
    have "int (length (replicate (nat (- place)) (CHR ''0'') @ ?ds)) = - e" using 1 place by (simp add: n_def)
    moreover have "digits_val (''0'' @ replicate (nat (- place)) (CHR ''0'') @ ?ds) = c"
      using digits_val_zeros [of "Suc (nat (- place))" ?ds] assms by simp
    ultimately show ?thesis
      unfolding b
      using parse_point [of "''0''" "replicate (nat (- place)) (CHR ''0'') @ ?ds" neg 0] assms
      by (simp del: length_append)
  next
    case 2
    have eq: "place = n" "e + n - place = e"
      using 2 n by (auto simp: place_def split: if_splits)
    then show ?thesis using parse_whole [of ?ds neg e] assms 2 by (simp add: body)
  next
    case 3
    have "int (length (drop (nat place) ?ds)) = n - place" using 3 by (simp add: n_def of_nat_diff)
    moreover have "take (nat place) ?ds \<noteq> []" using 3 by simp
    ultimately show ?thesis
      using parse_point [of "take (nat place) ?ds" "drop (nat place) ?ds" neg "e + n - place"] assms 3
      by (simp add: body)
  qed
qed

lemma plain_append [simp]: "plain (s @ t) \<longleftrightarrow> plain s \<and> plain t" and plain_Nil [simp]: "plain []"
  and plain_Cons [simp]: "plain (c # s) \<longleftrightarrow> \<not> is_space c \<and> c \<noteq> CHR ''_'' \<and> plain s"
  by (auto simp: plain_def)

lemma digits_plain: "digits s \<Longrightarrow> plain s"
  by (auto simp: digits_def plain_def list_all_iff dest: digit_plain)

lemma sign_plain [simp]: "\<not> is_space (CHR ''-'')" "\<not> is_space (CHR ''+'')" "\<not> is_space (CHR ''.'')"
  "\<not> is_space (CHR ''E'')" "\<not> is_space (CHR ''0'')"
  by (simp_all add: is_space_def)

lemma decimal_body_plain: "0 \<le> c \<Longrightarrow> plain (decimal_body c e)"
  by (simp add: decimal_body_def exponent_text_def Let_def digits_plain)

lemma decimal_body_hd: "0 \<le> c \<Longrightarrow> decimal_body c e \<noteq> [] \<and> is_digit (hd (decimal_body c e))"
proof -
  assume c: "0 \<le> c"
  then obtain d ds where ds: "dec_str c = d # ds" "is_digit d"
    using digits_dec_str [of c] by (cases "dec_str c") auto
  show ?thesis by (simp add: decimal_body_def Let_def ds take_Cons')
qed

text \<open>A decimal survives its text.\<close>

lemma decimal_of_str:
  assumes "0 \<le> c"
  shows "decimal_of (decimal_str (Num neg c e)) = Some (Num neg c e)"
proof -
  let ?b = "decimal_body c e"
  let ?s = "(if neg then ''-'' else []) @ ?b"
  have p: "plain ?s" using decimal_body_plain [OF assms] by simp
  have "filter (\<lambda>c. c \<noteq> CHR ''_'') ?s = ?s" using p by (auto simp: plain_def filter_id_conv)
  moreover have "parse_sign ?s = (neg, ?b)"
    using decimal_body_hd [OF assms, of e] by (cases ?b) (auto simp: parse_sign_def is_digit_def)
  ultimately show ?thesis
    unfolding decimal_str_body decimal_of_def strip_plain [OF p]
    by (simp only: Let_def prod.case parse_decimal_body [OF assms] option.case)
qed

end
