(* ===== verification/Emit.thy ===== *)
theory Emit
  imports Tier1 Values
begin

text \<open>
  Canonical records: \<open>python/src/inspector/emit.py\<close>. \<open>build_records\<close> projects the rows of a table
  onto the canonical schema; a record is a dictionary, filled in the order of the code's loop. The
  Parquet file itself is written by Polars: \<open>write_parquet\<close> is modelled up to the frame it hands
  over, its typed schema and its normalised rows, and the result it returns.
\<close>

definition DECIMAL_FIELDS :: "string list" where
  "DECIMAL_FIELDS = [''quantity'', ''trade_price'', ''settlement_price'', ''gross_amount'', ''net_amount'',
     ''market_value'']"

definition DECIMAL_PRECISION :: nat where "DECIMAL_PRECISION = 28"
definition DECIMAL_SCALE :: nat where "DECIMAL_SCALE = 8"

definition SIDE_NORMALISATION :: "(string, string) dict" where
  "SIDE_NORMALISATION =
    [(''b'', ''BUY''), (''buy'', ''BUY''), (''bought'', ''BUY''), (''1'', ''BUY''), (''l'', ''LONG''),
     (''long'', ''LONG''), (''s'', ''SELL''), (''sell'', ''SELL''), (''sold'', ''SELL''), (''2'', ''SELL''),
     (''sh'', ''SHORT''), (''short'', ''SHORT'')]"

definition normalise_side :: "string \<Rightarrow> string option" where
  "normalise_side raw =
     (let txt = lower (strip raw) in
      if txt = [] then None else Some (dict_get_or SIDE_NORMALISATION txt (upper (strip raw))))"

section \<open>Records\<close>

definition text_or_null :: "string option \<Rightarrow> cvalue" where
  "text_or_null t = (case t of None \<Rightarrow> Null | Some s \<Rightarrow> Text s)"

definition decimal_or_null :: "decimal option \<Rightarrow> cvalue" where
  "decimal_or_null d = (case d of None \<Rightarrow> Null | Some v \<Rightarrow> Dec v)"

text \<open>The raw text of a canonical field in a row: its mapped column, when it has one.\<close>

definition raw_cell :: "(string, string) dict \<Rightarrow> row \<Rightarrow> string \<Rightarrow> string" where
  "raw_cell cols r f =
     (case dict_get cols f of
        None \<Rightarrow> []
      | Some source \<Rightarrow> if source = [] then [] else strip (dict_get_or r source []))"

definition field_value :: "string \<Rightarrow> string \<Rightarrow> cvalue result" where
  "field_value f raw =
     (if f \<in> set DECIMAL_FIELDS then res_bind (to_decimal raw) (\<lambda>d. Inr (decimal_or_null d))
      else if f = ''side'' then Inr (text_or_null (normalise_side raw))
      else Inr (if raw = [] then Null else Text raw))"

primrec fill_fields ::
    "(string, string) dict \<Rightarrow> row \<Rightarrow> string list \<Rightarrow> record_row \<Rightarrow> record_row result" where
  "fill_fields cols r [] rec = Inr rec"
| "fill_fields cols r (f # fs) rec =
     (if f \<in> set (dict_keys rec) then fill_fields cols r fs rec
      else res_bind (field_value f (raw_cell cols r f))
        (\<lambda>v. fill_fields cols r fs (dict_set f v rec)))"

record stamp =
  st_arrival_id :: string
  st_client_id :: string
  st_value_date :: string
  st_domain :: string
  st_source_system :: string

definition stamped :: "stamp \<Rightarrow> record_row" where
  "stamped s = [(''arrival_id'', Text (st_arrival_id s)), (''client_id'', Text (st_client_id s)),
     (''value_date'', Text (st_value_date s)), (''domain'', Text (st_domain s)),
     (''source_system'', Text (st_source_system s))]"

text \<open>An account the file does not name gets the registry's name.\<close>

definition name_account :: "(string, string) dict \<Rightarrow> record_row \<Rightarrow> record_row" where
  "name_account names rec =
     (case dict_get_or rec ''account_id'' Null of
        Text acct \<Rightarrow>
          if acct \<noteq> [] \<and> \<not> value_true (dict_get_or rec ''account_name'' Null)
          then dict_set ''account_name'' (text_or_null (dict_get names acct)) rec else rec
      | _ \<Rightarrow> rec)"

definition build_record :: "mapping list \<Rightarrow> stamp \<Rightarrow> (string, string) dict \<Rightarrow> row \<Rightarrow> record_row result" where
  "build_record ms s names r =
     res_bind (fill_fields (by_field ms) r CANONICAL_FIELDS (stamped s))
       (\<lambda>rec. Inr (name_account names rec))"

definition build_records ::
    "parsed_table \<Rightarrow> mapping list \<Rightarrow> stamp \<Rightarrow> (string, string) dict \<Rightarrow> record_row list result" where
  "build_records t ms s names = res_map (build_record ms s names) (t_rows t)"

section \<open>The frame\<close>

datatype column_type = Utf8 | Decimal128 nat nat

definition frame_schema :: "(string, column_type) dict" where
  "frame_schema = map (\<lambda>f. (f, if f \<in> set DECIMAL_FIELDS then Decimal128 DECIMAL_PRECISION DECIMAL_SCALE else Utf8))
     CANONICAL_FIELDS"

fun as_decimal_cell :: "cvalue \<Rightarrow> cvalue result" where
  "as_decimal_cell Null = Inr Null"
| "as_decimal_cell (Dec d) = Inr (Dec d)"
| "as_decimal_cell (Text t) = res_bind (to_decimal t) (\<lambda>d. Inr (decimal_or_null d))"

definition normalise_cell :: "string \<times> cvalue \<Rightarrow> (string \<times> cvalue) result" where
  "normalise_cell = (\<lambda>(k, v).
     if k \<in> set DECIMAL_FIELDS then res_bind (as_decimal_cell v) (\<lambda>w. Inr (k, w))
     else Inr (k, case v of Null \<Rightarrow> Null | _ \<Rightarrow> Text (value_str v)))"

record emit_result =
  er_schema :: "(string, column_type) dict"
  er_rows :: "record_row list"
  er_uri :: string
  er_row_count :: nat

definition write_parquet :: "record_row list \<Rightarrow> string \<Rightarrow> emit_result result" where
  "write_parquet records name =
     res_bind (res_map (res_map normalise_cell) records)
       (\<lambda>frame. Inr \<lparr>er_schema = frame_schema, er_rows = frame, er_uri = ''fs://'' @ name,
                     er_row_count = length frame\<rparr>)"

section \<open>What a record holds\<close>

lemma fill_fields_spec:
  assumes "fill_fields cols r fs rec = Inr rec'"
  shows "set (dict_keys rec') = set (dict_keys rec) \<union> set fs"
    and "distinct (dict_keys rec) \<Longrightarrow> distinct (dict_keys rec')"
    and "k \<in> set (dict_keys rec) \<Longrightarrow> dict_get rec' k = dict_get rec k"
    and "k \<in> set fs \<Longrightarrow> k \<notin> set (dict_keys rec) \<Longrightarrow>
      \<exists>v. field_value k (raw_cell cols r k) = Inr v \<and> dict_get rec' k = Some v"
  using assms
proof (induction fs arbitrary: rec)
  case (Cons f fs)
  {
    case 1
    show ?case
    proof (cases "f \<in> set (dict_keys rec)")
      case True
      with 1 Cons.IH(1) [of rec] show ?thesis by auto
    next
      case False
      with 1 obtain v where "fill_fields cols r fs (dict_set f v rec) = Inr rec'"
        by (auto simp: res_bind_Inr_iff)
      from Cons.IH(1) [OF this] show ?thesis by auto
    qed
  next
    case 2
    show ?case
    proof (cases "f \<in> set (dict_keys rec)")
      case True
      with 2 Cons.IH(2) [of rec] show ?thesis by auto
    next
      case False
      with 2 obtain v where "fill_fields cols r fs (dict_set f v rec) = Inr rec'"
        by (auto simp: res_bind_Inr_iff)
      from Cons.IH(2) [OF _ this] 2 show ?thesis by simp
    qed
  next
    case 3
    show ?case
    proof (cases "f \<in> set (dict_keys rec)")
      case True
      with 3 Cons.IH(3) [of rec] show ?thesis by auto
    next
      case False
      with 3 obtain v where "fill_fields cols r fs (dict_set f v rec) = Inr rec'"
        by (auto simp: res_bind_Inr_iff)
      from Cons.IH(3) [OF _ this] 3 False show ?thesis by auto
    qed
  next
    case 4
    show ?case
    proof (cases "f \<in> set (dict_keys rec)")
      case True
      with 4 Cons.IH(4) show ?thesis by (auto split: if_splits)
    next
      case False
      with 4 obtain v where v: "field_value f (raw_cell cols r f) = Inr v"
        "fill_fields cols r fs (dict_set f v rec) = Inr rec'"
        by (auto simp: res_bind_Inr_iff)
      show ?thesis
      proof (cases "k = f")
        case True
        have "dict_get rec' k = dict_get (dict_set f v rec) k"
          using True by (intro Cons.IH(3) [OF _ v(2)]) simp
        with v True show ?thesis by simp
      next
        case other: False
        with 4 Cons.IH(4) [OF _ _ v(2)] show ?thesis by auto
      qed
    qed
  }
qed simp_all

definition cell_typed :: "string \<Rightarrow> cvalue \<Rightarrow> bool" where
  "cell_typed f v =
     (case v of Null \<Rightarrow> True | Dec _ \<Rightarrow> f \<in> set DECIMAL_FIELDS | Text _ \<Rightarrow> f \<notin> set DECIMAL_FIELDS)"

definition record_typed :: "record_row \<Rightarrow> bool" where
  "record_typed rec \<longleftrightarrow>
     distinct (dict_keys rec) \<and> set (dict_keys rec) = set CANONICAL_FIELDS
     \<and> list_all (\<lambda>(f, v). cell_typed f v) rec"

lemma field_value_typed: "field_value f raw = Inr v \<Longrightarrow> cell_typed f v"
  by (auto simp: field_value_def cell_typed_def text_or_null_def decimal_or_null_def res_bind_Inr_iff
      split: if_splits option.splits)

definition STAMPED_FIELDS :: "string list" where
  "STAMPED_FIELDS = [''arrival_id'', ''client_id'', ''value_date'', ''domain'', ''source_system'']"

lemma stamped_keys: "dict_keys (stamped s) = STAMPED_FIELDS"
  by (simp add: stamped_def STAMPED_FIELDS_def)

lemma stamped_canonical: "set STAMPED_FIELDS \<subseteq> set CANONICAL_FIELDS" "''account_name'' \<in> set CANONICAL_FIELDS"
  "''account_name'' \<notin> set STAMPED_FIELDS" "''account_name'' \<notin> set DECIMAL_FIELDS"
  "\<forall>f \<in> set STAMPED_FIELDS. f \<notin> set DECIMAL_FIELDS"
  by code_simp+

lemma stamped_typed: "dict_get (stamped s) f = Some v \<Longrightarrow> cell_typed f v"
  using stamped_canonical(5)
  by (auto simp: stamped_def STAMPED_FIELDS_def cell_typed_def split: if_splits)

lemma name_account_get:
  "k \<noteq> ''account_name'' \<Longrightarrow> dict_get (name_account names rec) k = dict_get rec k"
  by (auto simp: name_account_def split: cvalue.splits)

lemma name_account_keys:
  "''account_name'' \<in> set (dict_keys rec) \<Longrightarrow> set (dict_keys (name_account names rec)) = set (dict_keys rec)"
  "distinct (dict_keys rec) \<Longrightarrow> distinct (dict_keys (name_account names rec))"
  by (auto simp: name_account_def split: cvalue.splits)

lemma name_account_cases:
  "name_account names rec = rec
   \<or> (\<exists>a. name_account names rec = dict_set ''account_name'' (text_or_null (dict_get names a)) rec)"
  by (auto simp: name_account_def split: cvalue.splits)

lemma name_account_typed:
  assumes "\<And>f v. dict_get rec f = Some v \<Longrightarrow> cell_typed f v" and "dict_get (name_account names rec) f = Some v"
  shows "cell_typed f v"
  using name_account_cases [of names rec]
proof
  assume "\<exists>a. name_account names rec = dict_set ''account_name'' (text_or_null (dict_get names a)) rec"
  then obtain a where "dict_get (dict_set ''account_name'' (text_or_null (dict_get names a)) rec) f = Some v"
    using assms(2) by auto
  moreover have "cell_typed ''account_name'' (text_or_null t)" for t
    using stamped_canonical(4) by (simp add: cell_typed_def text_or_null_def split: option.split)
  ultimately show ?thesis using assms(1) by (cases "f = ''account_name''") auto
qed (use assms in simp)

text \<open>What \<open>build_record\<close> gives for each canonical field.\<close>

lemma build_record_spec:
  assumes "build_record ms s names r = Inr rec"
  shows "record_typed rec"
    and "f \<in> set STAMPED_FIELDS \<Longrightarrow> dict_get rec f = dict_get (stamped s) f"
    and "f \<in> set CANONICAL_FIELDS \<Longrightarrow> f \<notin> set STAMPED_FIELDS \<Longrightarrow> f \<noteq> ''account_name'' \<Longrightarrow>
      \<exists>v. field_value f (raw_cell (by_field ms) r f) = Inr v \<and> dict_get rec f = Some v"
proof -
  obtain rec0 where r0: "fill_fields (by_field ms) r CANONICAL_FIELDS (stamped s) = Inr rec0"
    and rec: "rec = name_account names rec0"
    using assms by (auto simp: build_record_def res_bind_Inr_iff)
  note spec = fill_fields_spec [OF r0]
  have keys0: "set (dict_keys rec0) = set CANONICAL_FIELDS"
    using spec(1) stamped_canonical(1) by (auto simp only: stamped_keys)
  have d0: "distinct (dict_keys rec0)"
    by (rule spec(2)) (simp only: stamped_keys, simp add: STAMPED_FIELDS_def)
  have typed0: "cell_typed f v" if "dict_get rec0 f = Some v" for f v
  proof (cases "f \<in> set STAMPED_FIELDS")
    case True
    then have "dict_get rec0 f = dict_get (stamped s) f" by (intro spec(3)) (simp only: stamped_keys)
    with that show ?thesis using stamped_typed by metis
  next
    case False
    have "f \<in> fst ` set rec0" using that by (metis domI dom_map_of_conv_image_fst)
    then have "f \<in> set CANONICAL_FIELDS" using keys0 by simp
    then obtain w where "field_value f (raw_cell (by_field ms) r f) = Inr w" "dict_get rec0 f = Some w"
      using spec(4) [of f] False by (metis stamped_keys)
    with that field_value_typed show ?thesis by fastforce
  qed
  have d: "distinct (dict_keys rec)" unfolding rec by (rule name_account_keys(2) [OF d0])
  have "cell_typed f v" if "(f, v) \<in> set rec" for f v
    using name_account_typed [OF typed0] map_of_is_SomeI [OF d that] unfolding rec by blast
  then show "record_typed rec"
    using d name_account_keys(1) [of rec0 names] keys0 stamped_canonical(2)
    by (auto simp: record_typed_def list_all_iff rec)
  show "dict_get rec f = dict_get (stamped s) f" if "f \<in> set STAMPED_FIELDS"
  proof -
    have "f \<noteq> ''account_name''" using that stamped_canonical(3) by blast
    moreover have "dict_get rec0 f = dict_get (stamped s) f" using that by (intro spec(3)) (simp only: stamped_keys)
    ultimately show ?thesis unfolding rec by (simp add: name_account_get)
  qed
  show "\<exists>v. field_value f (raw_cell (by_field ms) r f) = Inr v \<and> dict_get rec f = Some v"
    if "f \<in> set CANONICAL_FIELDS" "f \<notin> set STAMPED_FIELDS" "f \<noteq> ''account_name''"
    using spec(4) [OF that(1)] that(2,3) unfolding rec by (simp add: name_account_get stamped_keys [simplified])
qed

lemma res_map_same: "(\<And>x. x \<in> set xs \<Longrightarrow> f x = Inr x) \<Longrightarrow> res_map f xs = Inr xs"
  by (induction xs) auto

lemma normalise_typed: "cell_typed f v \<Longrightarrow> normalise_cell (f, v) = Inr (f, v)"
  by (cases v) (auto simp: normalise_cell_def cell_typed_def)

lemma build_records_rows:
  "build_records t ms s names = Inr recs \<longleftrightarrow>
     list_all2 (\<lambda>r rec. build_record ms s names r = Inr rec) (t_rows t) recs"
  by (simp add: build_records_def res_map_Inr_iff)

lemma built_from_row:
  assumes "build_records t ms s names = Inr recs" and "rec \<in> set recs"
  obtains r where "r \<in> set (t_rows t)" "build_record ms s names r = Inr rec"
proof -
  obtain i where "i < length recs" "rec = recs ! i" using assms(2) by (metis in_set_conv_nth)
  then show ?thesis
    using assms(1) that [of "t_rows t ! i"] by (simp add: build_records_rows list_all2_conv_all_nth)
qed

lemma built_typed: "build_records t ms s names = Inr recs \<Longrightarrow> rec \<in> set recs \<Longrightarrow> record_typed rec"
  by (erule built_from_row) (auto dest: build_record_spec(1))

section \<open>Properties\<close>


text \<open>C32. The fields Harbormaster determines itself are never read from the file: whatever the mappings
  say, each record carries the stamped arrival, client, value date, domain and source.\<close>

theorem stamps_not_from_columns:
  assumes "build_records t ms s names = Inr recs" and "rec \<in> set recs"
  shows "dict_get rec ''value_date'' = Some (Text (st_value_date s))
    \<and> dict_get rec ''client_id'' = Some (Text (st_client_id s))
    \<and> dict_get rec ''arrival_id'' = Some (Text (st_arrival_id s))
    \<and> dict_get rec ''domain'' = Some (Text (st_domain s))
    \<and> dict_get rec ''source_system'' = Some (Text (st_source_system s))"
proof -
  obtain r where b: "build_record ms s names r = Inr rec"
    using assms by (rule built_from_row)
  have g: "dict_get rec f = dict_get (stamped s) f" if "f \<in> set STAMPED_FIELDS" for f
    using build_record_spec(2) [OF b that] .
  show ?thesis
    using g [of "''value_date''"] g [of "''client_id''"] g [of "''arrival_id''"] g [of "''domain''"]
      g [of "''source_system''"] by (simp add: STAMPED_FIELDS_def stamped_def)
qed


text \<open>Writing what was built changes nothing: the frame's rows are the records and the count is the
  number of rows of the table.\<close>

lemma write_keeps_records:
  assumes "build_records t ms s names = Inr recs"
  shows "write_parquet recs name = Inr \<lparr>er_schema = frame_schema, er_rows = recs,
    er_uri = ''fs://'' @ name, er_row_count = length (t_rows t)\<rparr>"
proof -
  have "res_map normalise_cell rec = Inr rec" if "rec \<in> set recs" for rec
    using built_typed [OF assms that] normalise_typed by (intro res_map_same) (auto simp: record_typed_def list_all_iff)
  then have "res_map (res_map normalise_cell) recs = Inr recs" by (rule res_map_same)
  moreover have "length recs = length (t_rows t)"
    using assms by (auto simp: build_records_rows dest: list_all2_lengthD)
  ultimately show ?thesis by (simp add: write_parquet_def)
qed

section \<open>Example\<close>

definition emit_table :: parsed_table where
  "emit_table = \<lparr>t_headers = [''Qty'', ''Px''], t_rows = [[(''Qty'', ''0''), (''Px'', '' '')]],
     t_evidence = [], t_warnings = []\<rparr>"

definition emit_mappings :: "mapping list" where
  "emit_mappings = [\<lparr>source_field = ''Qty'', canonical_field = Some ''quantity'', m_tier = ALIAS, m_confidence = 1,
     m_evidence = []\<rparr>]"

definition emit_stamp :: stamp where
  "emit_stamp = \<lparr>st_arrival_id = ''a1'', st_client_id = ''acme'', st_value_date = ''2026-01-02'',
     st_domain = ''TRADE'', st_source_system = ''bank''\<rparr>"

lemma emit_example:
  "case build_records emit_table emit_mappings emit_stamp [] of
     Inr recs \<Rightarrow> map (\<lambda>rec. (dict_get rec ''quantity'', dict_get rec ''trade_price'')) recs
        = [(Some (Dec (Num False 0 0)), Some Null)]
   | Inl _ \<Rightarrow> False"
  by code_simp

lemma emit_example_runs:
  obtains rec where "build_records emit_table emit_mappings emit_stamp [] = Inr [rec]"
    "dict_get rec ''quantity'' = Some (Dec (Num False 0 0))"
proof (cases "build_records emit_table emit_mappings emit_stamp []")
  case (Inr recs)
  then show ?thesis using emit_example that by (cases recs) auto
qed (use emit_example in simp)


theorem stamps_not_from_columns_witness:
  "\<exists>rec. build_records emit_table emit_mappings emit_stamp [] = Inr [rec]
     \<and> dict_get rec ''value_date'' = Some (Text ''2026-01-02'')"
proof -
  obtain rec where r: "build_records emit_table emit_mappings emit_stamp [] = Inr [rec]" by (rule emit_example_runs)
  then show ?thesis using stamps_not_from_columns [OF r, of rec] by (simp add: emit_stamp_def)
qed


lemma write_keeps_records_witness:
  "\<exists>rec res. build_records emit_table emit_mappings emit_stamp [] = Inr [rec]
     \<and> write_parquet [rec] ''a1.parquet'' = Inr res \<and> er_rows res = [rec] \<and> er_row_count res = 1"
proof -
  obtain rec where r: "build_records emit_table emit_mappings emit_stamp [] = Inr [rec]" by (rule emit_example_runs)
  then show ?thesis using write_keeps_records [OF r, of "''a1.parquet''"] by (simp add: emit_table_def)
qed

end
