(* ===== verification/MessageBus.thy ===== *)
theory MessageBus
  imports Prelude PyText
begin

text \<open>
  The messaging seam, \<open>python/src/inspector/bus.py\<close>: topic names, the slot partition key and
  \<open>MemoryBus\<close>. The 32-bit BLAKE2b digest of a key is the parameter \<open>digest\<close> of the operations
  that choose a partition. The protojson codec (\<open>encode\<close>, \<open>decode\<close>) is protobuf's and is not
  modelled; a payload is an arbitrary value.

  The locale \<open>keyed_log\<close> is the ordering contract the consumers rely on (ADR-005): publishing
  appends to what readers of the same topic and key see, and leaves every other topic and key
  alone. \<open>MemoryBus\<close> is its interpretation.
\<close>

section \<open>Topics and keys\<close>

definition TOPIC_ARRIVALS_RAW :: string where
  "TOPIC_ARRIVALS_RAW = ''hm.arrivals.raw''"
definition TOPIC_ARRIVALS_CLASSIFIED :: string where
  "TOPIC_ARRIVALS_CLASSIFIED = ''hm.arrivals.classified''"
definition TOPIC_ARRIVALS_QUARANTINE :: string where
  "TOPIC_ARRIVALS_QUARANTINE = ''hm.arrivals.quarantined''"
definition TOPIC_REVIEW_DECISIONS :: string where
  "TOPIC_REVIEW_DECISIONS = ''hm.review.decisions''"
definition TOPIC_BERTH_ASSIGNED :: string where
  "TOPIC_BERTH_ASSIGNED = ''hm.berth.assigned''"
definition TOPIC_BERTH_SUPERSEDED :: string where
  "TOPIC_BERTH_SUPERSEDED = ''hm.berth.superseded''"
definition TOPIC_ALERTS_MISSING :: string where
  "TOPIC_ALERTS_MISSING = ''hm.alerts.missing''"
definition TOPIC_AUDIT_DECISIONS :: string where
  "TOPIC_AUDIT_DECISIONS = ''hm.audit.decisions''"

definition ALL_TOPICS :: "string list" where
  "ALL_TOPICS = [TOPIC_ARRIVALS_RAW, TOPIC_ARRIVALS_CLASSIFIED, TOPIC_ARRIVALS_QUARANTINE,
     TOPIC_REVIEW_DECISIONS, TOPIC_BERTH_ASSIGNED, TOPIC_BERTH_SUPERSEDED, TOPIC_ALERTS_MISSING,
     TOPIC_AUDIT_DECISIONS]"

definition slot_key :: "string \<Rightarrow> string \<Rightarrow> string \<Rightarrow> string" where
  "slot_key client_id domain value_date = client_id @ '':'' @ domain @ '':'' @ value_date"

section \<open>MemoryBus\<close>

record 'v message =
  msg_topic :: string
  msg_key :: string
  msg_value :: 'v
  msg_headers :: "(string, string) dict"
  msg_partition :: nat
  msg_offset :: nat

record 'v memory_bus =
  bus_partitions :: nat
  bus_log :: "string \<Rightarrow> nat \<Rightarrow> 'v message list"
  bus_closed :: bool

definition new_bus :: "int \<Rightarrow> 'v memory_bus" where
  "new_bus n = \<lparr>bus_partitions = nat (max 1 n), bus_log = (\<lambda>_ _. []), bus_closed = False\<rparr>"

definition partition_for :: "(string \<Rightarrow> nat) \<Rightarrow> 'v memory_bus \<Rightarrow> string \<Rightarrow> nat" where
  "partition_for digest b k = (if k = [] then 0 else digest k mod bus_partitions b)"

text \<open>One turn of the loop of \<open>publish\<close>: the message is stamped and appended.\<close>

definition append_message ::
  "(string \<Rightarrow> nat) \<Rightarrow> 'v memory_bus \<Rightarrow> 'v message \<Rightarrow> 'v memory_bus" where
  "append_message digest b m =
     (let p = partition_for digest b (msg_key m);
          q = bus_log b (msg_topic m) p;
          m' = m\<lparr>msg_partition := p, msg_offset := length q\<rparr>
      in b\<lparr>bus_log := (bus_log b)(msg_topic m := (bus_log b (msg_topic m))(p := q @ [m']))\<rparr>)"

definition publish ::
  "(string \<Rightarrow> nat) \<Rightarrow> 'v memory_bus \<Rightarrow> 'v message list \<Rightarrow> 'v memory_bus result" where
  "publish digest b ms =
     (if bus_closed b then Inl (RuntimeError ''bus: closed'')
      else Inr (foldl (append_message digest) b ms))"

definition messages :: "'v memory_bus \<Rightarrow> string \<Rightarrow> 'v message list" where
  "messages b t = concat (map (bus_log b t) [0..<bus_partitions b])"

definition drain :: "'v memory_bus \<Rightarrow> string list \<Rightarrow> 'v message list" where
  "drain b topics = concat (map (messages b) topics)"

text \<open>
  \<open>consume\<close> runs the handler on everything logged. The handler's state is passed along; a handler
  that publishes to a topic being drained is outside the model.
\<close>

definition consume ::
  "'v memory_bus \<Rightarrow> string list \<Rightarrow> ('v message \<Rightarrow> 's \<Rightarrow> 's) \<Rightarrow> 's \<Rightarrow> 's" where
  "consume b topics handler s = fold handler (drain b topics) s"

definition close :: "'v memory_bus \<Rightarrow> 'v memory_bus" where
  "close b = b\<lparr>bus_closed := True\<rparr>"

section \<open>The ordering contract\<close>

locale keyed_log =
  fixes put :: "'b \<Rightarrow> 'm \<Rightarrow> 'b"
    and view :: "'b \<Rightarrow> string \<Rightarrow> string \<Rightarrow> 'v list"
    and topic_of :: "'m \<Rightarrow> string"
    and key_of :: "'m \<Rightarrow> string"
    and value_of :: "'m \<Rightarrow> 'v"
    and ok :: "'b \<Rightarrow> bool"
  assumes ok_put: "ok b \<Longrightarrow> ok (put b m)"
    and view_put: "ok b \<Longrightarrow> view (put b m) t k =
      view b t k @ (if topic_of m = t \<and> key_of m = k then [value_of m] else [])"
begin

lemma ok_puts: "ok b \<Longrightarrow> ok (foldl put b ms)"
  by (induction ms arbitrary: b) (simp_all add: ok_put)

lemma view_puts:
  "ok b \<Longrightarrow> view (foldl put b ms) t k =
     view b t k @ map value_of (filter (\<lambda>m. topic_of m = t \<and> key_of m = k) ms)"
  by (induction ms arbitrary: b) (simp_all add: ok_put view_put)

lemma view_independent:
  assumes "ok b" and "\<forall>m \<in> set ms. topic_of m \<noteq> t \<or> key_of m \<noteq> k"
  shows "view (foldl put b ms) t k = view b t k"
proof -
  have "filter (\<lambda>m. topic_of m = t \<and> key_of m = k) ms = []"
    using assms(2) by (auto simp: filter_empty_conv)
  then show ?thesis using view_puts [OF assms(1), of ms t k] by simp
qed

end

section \<open>MemoryBus keeps the contract\<close>

text \<open>
  The invariant of a bus: at least one partition, every logged message stands under its own
  topic, in the partition of its key, and its offset is its position there.
\<close>

definition bus_ok :: "(string \<Rightarrow> nat) \<Rightarrow> 'v memory_bus \<Rightarrow> bool" where
  "bus_ok digest b \<longleftrightarrow> 0 < bus_partitions b \<and>
     (\<forall>t p i. i < length (bus_log b t p) \<longrightarrow>
        msg_topic (bus_log b t p ! i) = t \<and> msg_partition (bus_log b t p ! i) = p \<and> msg_offset (bus_log b t p ! i) = i
        \<and> partition_for digest b (msg_key (bus_log b t p ! i)) = p)"

text \<open>What a consumer of a topic sees of one key, in the order it sees it.\<close>

definition keyed :: "'v memory_bus \<Rightarrow> string \<Rightarrow> string \<Rightarrow> 'v list" where
  "keyed b t k = map msg_value (filter (\<lambda>m. msg_key m = k) (messages b t))"

lemma partitions_append [simp]: "bus_partitions (append_message digest b m) = bus_partitions b"
  by (simp add: append_message_def Let_def)

lemma partition_for_append [simp]:
  "partition_for digest (append_message digest b m) k = partition_for digest b k"
  by (simp add: partition_for_def)

lemma log_append:
  "bus_log (append_message digest b m) t p =
     (if t = msg_topic m \<and> p = partition_for digest b (msg_key m)
      then bus_log b t p @ [m\<lparr>msg_partition := p, msg_offset := length (bus_log b t p)\<rparr>] else bus_log b t p)"
  by (simp add: append_message_def Let_def)

lemma bus_ok_new [simp]: "bus_ok digest (new_bus n)"
  by (simp add: bus_ok_def new_bus_def)

lemma bus_ok_append: "bus_ok digest b \<Longrightarrow> bus_ok digest (append_message digest b m)"
  by (auto simp: bus_ok_def log_append nth_append less_Suc_eq)

lemma partition_for_less: "bus_ok digest b \<Longrightarrow> partition_for digest b k < bus_partitions b"
  by (simp add: bus_ok_def partition_for_def)

lemma filter_other_partition:
  assumes "bus_ok digest b" and "p \<noteq> partition_for digest b k"
  shows "filter (\<lambda>m. msg_key m = k) (bus_log b t p) = []"
proof -
  have "partition_for digest b (msg_key m) = p" if "m \<in> set (bus_log b t p)" for m
    using that assms(1) by (auto simp: bus_ok_def in_set_conv_nth)
  then show ?thesis using assms(2) by (auto simp: filter_empty_conv)
qed

lemma concat_map_single:
  assumes "q < n" and "\<And>p. p < n \<Longrightarrow> p \<noteq> q \<Longrightarrow> f p = []"
  shows "concat (map f [0..<n]) = f q"
  using assms
proof (induction n)
  case (Suc n)
  then show ?case
  proof (cases "q = n")
    case True
    then have "concat (map f [0..<n]) = []" using Suc.prems(2) by simp
    with True show ?thesis by simp
  next
    case False
    with Suc.prems have "q < n" by simp
    with Suc.IH Suc.prems(2) False show ?thesis by simp
  qed
qed simp

lemma keyed_partition:
  assumes "bus_ok digest b"
  shows "keyed b t k = map msg_value (filter (\<lambda>m. msg_key m = k) (bus_log b t (partition_for digest b k)))"
proof -
  have "filter (\<lambda>m. msg_key m = k) (messages b t)
      = concat (map (\<lambda>p. filter (\<lambda>m. msg_key m = k) (bus_log b t p)) [0..<bus_partitions b])"
    by (simp add: messages_def filter_concat comp_def)
  also have "\<dots> = filter (\<lambda>m. msg_key m = k) (bus_log b t (partition_for digest b k))"
    by (rule concat_map_single) (auto simp: partition_for_less [OF assms] filter_other_partition [OF assms])
  finally show ?thesis by (simp add: keyed_def)
qed

lemma keyed_append:
  assumes "bus_ok digest b"
  shows "keyed (append_message digest b m) t k =
     keyed b t k @ (if msg_topic m = t \<and> msg_key m = k then [msg_value m] else [])"
  using keyed_partition [OF assms] keyed_partition [OF bus_ok_append [OF assms]]
  by (auto simp: log_append)

interpretation memory: keyed_log "append_message digest" keyed msg_topic msg_key msg_value "bus_ok digest"
  for digest
  by unfold_locales (simp_all add: bus_ok_append keyed_append)

lemma publish_Inr: "publish digest b ms = Inr b' \<Longrightarrow> b' = foldl (append_message digest) b ms"
  by (simp add: publish_def split: if_splits)

section \<open>Properties\<close>

text \<open>
  C12. Ordering within a reconciliation slot. Whatever is published, and however the keys hash,
  a consumer of a topic sees the messages of one key exactly in the order they were published
  after those logged before, and the log keeps its invariant (every message in the partition of
  its key, its offset its position).
\<close>

theorem publish_keeps_key_order:
  assumes "bus_ok digest b" and "publish digest b ms = Inr b'"
  shows "keyed b' t k =
      keyed b t k @ map msg_value (filter (\<lambda>m. msg_topic m = t \<and> msg_key m = k) ms) \<and> bus_ok digest b'"
  using memory.view_puts [OF assms(1)] memory.ok_puts [OF assms(1)] publish_Inr [OF assms(2)] by simp_all

theorem publish_keeps_key_order_witness:
  "\<exists>b'. publish (\<lambda>k. length k) (new_bus 8)
       [\<lparr>msg_topic = ''t'', msg_key = ''a'', msg_value = 1, msg_headers = [], msg_partition = 0, msg_offset = 0\<rparr>,
        \<lparr>msg_topic = ''t'', msg_key = ''bb'', msg_value = 2, msg_headers = [], msg_partition = 0, msg_offset = 0\<rparr>,
        \<lparr>msg_topic = ''t'', msg_key = ''a'', msg_value = 3, msg_headers = [], msg_partition = 0, msg_offset = 0\<rparr>]
     = Inr b' \<and> keyed b' ''t'' ''a'' = [1 :: int, 3]"
proof -
  let ?ms = "[\<lparr>msg_topic = ''t'', msg_key = ''a'', msg_value = 1, msg_headers = [], msg_partition = 0, msg_offset = 0\<rparr>,
        \<lparr>msg_topic = ''t'', msg_key = ''bb'', msg_value = 2, msg_headers = [], msg_partition = 0, msg_offset = 0\<rparr>,
        \<lparr>msg_topic = ''t'', msg_key = ''a'', msg_value = 3 :: int, msg_headers = [], msg_partition = 0, msg_offset = 0\<rparr>]"
  have ok: "bus_ok (\<lambda>k. length k) (new_bus 8)" by simp
  obtain b' where b': "publish (\<lambda>k. length k) (new_bus 8) ?ms = Inr b'"
    by (simp add: publish_def new_bus_def)
  have "keyed (new_bus 8 :: int memory_bus) ''t'' ''a'' = []"
    by (simp add: keyed_def messages_def new_bus_def filter_empty_conv)
  with publish_keeps_key_order [OF ok b', of "''t''" "''a''"] b' show ?thesis by simp
qed

end
