(* ===== verification/InspectorMain.thy ===== *)
theory InspectorMain
  imports Confidence Resolver Emit MessageBus
begin

text \<open>
  The Inspector: \<open>python/src/inspector/main.py\<close>. A parser is a record of its format, its score and
  its parse function over the bytes of a file; the list of parsers, the digest of the fingerprint,
  the file store, the clock, the environment and the ladder's matchers are arguments. What a call to
  \<open>classify\<close> changes is the cache and the adjudicator's world; what the handler changes besides is the
  bus and the canonical files. The generated message class is the record \<open>arrival_classified\<close>, with
  the enumeration constants as texts.
\<close>

definition SNIFF_BYTES :: nat where
  "SNIFF_BYTES = 64 * 1024"

record parser =
  p_format :: string
  p_sniff :: "string \<Rightarrow> string \<Rightarrow> rat"
  p_parse :: "string \<Rightarrow> parsed_table result"

record classification =
  cl_arrival_id :: string
  cl_source_format :: string
  cl_client_id :: "string option"
  cl_attribution :: attribution
  cl_value_date :: resolution
  cl_domain :: string
  cl_mappings :: "mapping list"
  cl_score :: score
  cl_table :: parsed_table
  cl_fingerprint :: string
  cl_canonical_uri :: string
  cl_row_count :: nat
  cl_sub_batch_index :: nat
  cl_sub_batch_total :: nat
  cl_cross_check :: string

definition template_fingerprint :: "(string \<Rightarrow> string) \<Rightarrow> string option \<Rightarrow> string list \<Rightarrow> string" where
  "template_fingerprint digest cid headers =
     (let owner = (case cid of Some i \<Rightarrow> str_or i ''?'' | None \<Rightarrow> ''?'');
          material = join ''|'' (owner # map normalize_header headers)
      in ''tf_'' @ digest material)"

section \<open>Sniffing\<close>

text \<open>The stable descending sort by score, and its first entry.\<close>

definition sniff :: "parser list \<Rightarrow> string \<Rightarrow> string \<Rightarrow> (parser \<times> rat) result" where
  "sniff parsers bytes name =
     (case sort_key (\<lambda>p. - snd p) (map (\<lambda>p. (p, p_sniff p (take SNIFF_BYTES bytes) name)) parsers) of
        [] \<Rightarrow> Inl IndexError
      | best # _ \<Rightarrow>
          if snd best \<le> 0 then Inl (ParseError (''no parser recognised '' @ repr name)) else Inr best)"

section \<open>Classification\<close>

text \<open>The parts of an inspector that do not change. \<open>in_fresh\<close> is \<open>None\<close> when a cache was passed to it;
  when none was, each call to \<open>classify\<close> makes a resolver with an empty \<open>InMemoryCache\<close> of its own,
  and \<open>in_fresh\<close> is that empty cache.\<close>

record ('v, 'c, 'w) inspector =
  in_registry :: registry
  in_parsers :: "parser list"
  in_adjudicator :: "'w adjudicate option"
  in_cache_get :: "'c cache_get"
  in_cache_put :: "'c cache_put"
  in_fresh :: "'c option"
  in_extract :: extractor
  in_model :: "'v emb_model"
  in_digest :: "string \<Rightarrow> string"
  in_env :: "string \<Rightarrow> string"

definition cross_check_text :: "bool option \<times> string \<Rightarrow> string" where
  "cross_check_text = (\<lambda>(agrees, why).
     if agrees = Some False then ''arithmetic cross-check FAILED: '' @ why else why)"

definition classify_rows ::
    "('v, 'c, 'w) inspector \<Rightarrow> date \<Rightarrow> string \<Rightarrow> calendar \<Rightarrow> string list \<Rightarrow> attribution \<Rightarrow> string \<Rightarrow> mapping list
     \<Rightarrow> (string \<Rightarrow> string) \<Rightarrow> parsed_table \<Rightarrow> (resolution \<times> score) result" where
  "classify_rows insp today name cal hints att dm ms renote t =
     (let vd = resolve (t_headers t) (t_rows t) name today cal hints 1;
          vd = vd\<lparr>vd_notes := renote (vd_notes vd)\<rparr>
      in res_bind (compose (in_env insp) att vd ms dm) (\<lambda>sc. Inr (vd, sc)))"

definition sub_batch_note :: "nat \<Rightarrow> nat \<Rightarrow> string \<Rightarrow> string" where
  "sub_batch_note index n notes =
     ''sub-batch '' @ nat_str (index + 1) @ '' of '' @ nat_str n @ ''; file spans '' @ nat_str n
       @ '' value dates. '' @ notes"

definition make_classification ::
    "string \<Rightarrow> parser \<Rightarrow> attribution \<Rightarrow> string \<Rightarrow> mapping list \<Rightarrow> string \<Rightarrow> string \<Rightarrow> parsed_table \<Rightarrow> nat \<Rightarrow> nat
     \<Rightarrow> resolution \<times> score \<Rightarrow> classification" where
  "make_classification arrival_id p att dm ms fp note t index n vs =
     \<lparr>cl_arrival_id = arrival_id, cl_source_format = p_format p, cl_client_id = att_client_id att,
      cl_attribution = att, cl_value_date = fst vs, cl_domain = dm, cl_mappings = ms, cl_score = snd vs,
      cl_table = t, cl_fingerprint = fp, cl_canonical_uri = [], cl_row_count = row_count t,
      cl_sub_batch_index = index, cl_sub_batch_total = n, cl_cross_check = note\<rparr>"

definition client_of :: "registry \<Rightarrow> string option \<Rightarrow> client option" where
  "client_of reg cid = (if truthy cid then reg_client reg (the cid) else None)"

definition calendar_of :: "registry \<Rightarrow> string option \<Rightarrow> calendar result" where
  "calendar_of reg cid =
     (case (if truthy cid then calendar_for reg (the cid) else reg_calendar reg ''US_EQUITY'') of
        None \<Rightarrow> Inl (ConfigError ''no calendar available for value-date resolution'')
      | Some cal \<Rightarrow> Inr cal)"

definition ladder_cache :: "('v, 'c, 'w) inspector \<Rightarrow> 'c \<Rightarrow> 'c" where
  "ladder_cache insp c = (case in_fresh insp of None \<Rightarrow> c | Some empty_cache \<Rightarrow> empty_cache)"

definition kept_cache :: "('v, 'c, 'w) inspector \<Rightarrow> 'c \<Rightarrow> 'c \<Rightarrow> 'c" where
  "kept_cache insp c c' = (if in_fresh insp = None then c' else c)"

definition hints_for :: "registry \<Rightarrow> string option \<Rightarrow> string list" where
  "hints_for reg cid = (case client_of reg cid of None \<Rightarrow> [] | Some cl \<Rightarrow> value_date_hints cl)"

definition overrides_for :: "registry \<Rightarrow> string option \<Rightarrow> (string, string) dict" where
  "overrides_for reg cid = (case client_of reg cid of None \<Rightarrow> [] | Some cl \<Rightarrow> field_overrides cl)"

definition job_of :: "registry \<Rightarrow> attribution \<Rightarrow> string \<Rightarrow> string \<Rightarrow> job" where
  "job_of reg att dm fp =
     \<lparr>j_client_id = (case att_client_id att of None \<Rightarrow> [] | Some i \<Rightarrow> i),
      j_client_name = (case client_of reg (att_client_id att) of None \<Rightarrow> [] | Some cl \<Rightarrow> client_name cl),
      j_source_hint = att_source_hint att, j_domain = dm, j_fingerprint = fp\<rparr>"

text \<open>The second half of \<open>classify\<close>: one classification for the whole table, or one per group of
  rows, in the order of the dates.\<close>

definition classify_batches ::
    "('v, 'c, 'w) inspector \<Rightarrow> date \<Rightarrow> string \<Rightarrow> string \<Rightarrow> parser \<Rightarrow> attribution \<Rightarrow> calendar \<Rightarrow> string list \<Rightarrow> string
     \<Rightarrow> mapping list \<Rightarrow> string \<Rightarrow> string \<Rightarrow> parsed_table \<Rightarrow> classification list result" where
  "classify_batches insp today arrival_id name p att cal hints dm ms fp note t =
     (let groups = split_by_value_date (t_rows t) (t_headers t) hints;
          n = length groups
      in if groups = [] then
           res_bind (classify_rows insp today name cal hints att dm ms id t) (\<lambda>vs.
             Inr [make_classification arrival_id p att dm ms fp note t 0 1 vs])
         else
           res_map (\<lambda>(index, iso, rs).
               res_bind (make_table (t_headers t) rs (t_evidence t) []) (\<lambda>subset.
               res_bind (classify_rows insp today name cal hints att dm ms (sub_batch_note index n) subset)
                 (\<lambda>vs. Inr (make_classification arrival_id p att dm ms fp note subset index n vs))))
             (zip [0..<n] (sort_key fst groups)))"

definition classify ::
    "('v, 'c, 'w) inspector \<Rightarrow> date \<Rightarrow> string \<Rightarrow> string \<Rightarrow> string \<Rightarrow> 'c \<times> 'w
     \<Rightarrow> (classification list \<times> 'c \<times> 'w) result" where
  "classify insp today arrival_id bytes name = (\<lambda>(c, w).
     res_bind (sniff (in_parsers insp) bytes name) (\<lambda>(p, _).
     res_bind (p_parse p bytes) (\<lambda>t.
       let reg = in_registry insp;
           att = attribute name (t_headers t) (t_rows t) reg
       in res_bind (calendar_of reg (att_client_id att)) (\<lambda>cal.
       let hints = hints_for reg (att_client_id att);
           overrides = overrides_for reg (att_client_id att);
           dm = str_or (att_domain att) ''UNKNOWN'';
           fp = template_fingerprint (in_digest insp) (att_client_id att) (t_headers t)
       in res_bind (resolve_table (in_cache_get insp) (in_cache_put insp) (in_adjudicator insp)
                      (in_extract insp) (in_model insp) overrides (job_of reg att dm fp) t
                      (Unloaded, ladder_cache insp c, w)) (\<lambda>(oc, _, c', w').
          let ms = o_mappings oc in
          res_bind (cross_check_amount t ms) (\<lambda>check.
          res_bind (classify_batches insp today arrival_id name p att cal hints dm ms fp
                      (cross_check_text check) t)
            (\<lambda>cs. Inr (cs, kept_cache insp c c', w'))))))))"

section \<open>Writing\<close>

definition canonical_name :: "classification \<Rightarrow> string" where
  "canonical_name c =
     cl_arrival_id c @ (if 1 < cl_sub_batch_total c then ''_'' @ nat_str (cl_sub_batch_index c) else [])
       @ ''.parquet''"

definition stamp_of :: "classification \<Rightarrow> stamp" where
  "stamp_of c = \<lparr>st_arrival_id = cl_arrival_id c,
     st_client_id = (case cl_client_id c of None \<Rightarrow> [] | Some i \<Rightarrow> i),
     st_value_date = resolved_iso (cl_value_date c), st_domain = cl_domain c,
     st_source_system = att_source_hint (cl_attribution c)\<rparr>"

definition account_names_of :: "registry \<Rightarrow> string option \<Rightarrow> (string, string) dict" where
  "account_names_of reg cid = (case client_of reg cid of
     None \<Rightarrow> [] | Some cl \<Rightarrow> dict_of (map (\<lambda>a. (acct_id a, acct_name a)) (accounts cl)))"

text \<open>The files are the canonical directory: a name and the frame written under it.\<close>

definition write_canonical ::
    "registry \<Rightarrow> classification \<Rightarrow> (string, emit_result) dict
     \<Rightarrow> (classification \<times> (string, emit_result) dict) result" where
  "write_canonical reg c files =
     res_bind (build_records (cl_table c) (cl_mappings c) (stamp_of c)
                 (account_names_of reg (cl_client_id c))) (\<lambda>records.
     res_bind (write_parquet records (canonical_name c)) (\<lambda>res.
       Inr (c\<lparr>cl_canonical_uri := ''fs://canonical/'' @ canonical_name c, cl_row_count := er_row_count res\<rparr>,
            dict_set (canonical_name c) res files)))"

section \<open>The wire message\<close>

primrec tier_enum :: "tier \<Rightarrow> string" where
  "tier_enum ALIAS = ''RESOLUTION_TIER_ALIAS''"
| "tier_enum LOCAL = ''RESOLUTION_TIER_LOCAL''"
| "tier_enum LLM = ''RESOLUTION_TIER_LLM''"
| "tier_enum HUMAN = ''RESOLUTION_TIER_HUMAN''"
| "tier_enum UNRESOLVED = ''RESOLUTION_TIER_UNRESOLVED''"

primrec disposition_enum :: "disposition \<Rightarrow> string" where
  "disposition_enum DISPATCHED = ''ARRIVAL_DISPOSITION_DISPATCHED''"
| "disposition_enum QUARANTINED = ''ARRIVAL_DISPOSITION_QUARANTINED''"
| "disposition_enum REJECTED = ''ARRIVAL_DISPOSITION_REJECTED''"

definition FORMAT_ENUM :: "(string, string) dict" where
  "FORMAT_ENUM = [(''CSV'', ''SOURCE_FORMAT_CSV''), (''EXCEL'', ''SOURCE_FORMAT_EXCEL''),
     (''XML'', ''SOURCE_FORMAT_XML''), (''FIXML'', ''SOURCE_FORMAT_FIXML''),
     (''EMAIL_TEXT'', ''SOURCE_FORMAT_EMAIL_TEXT''), (''JSON'', ''SOURCE_FORMAT_JSON'')]"

definition DOMAIN_ENUM :: "(string, string) dict" where
  "DOMAIN_ENUM = [(''TRADE'', ''PRODUCT_DOMAIN_TRADE''), (''POSITION'', ''PRODUCT_DOMAIN_POSITION''),
     (''CASH'', ''PRODUCT_DOMAIN_CASH''), (''COLLATERAL'', ''PRODUCT_DOMAIN_COLLATERAL''),
     (''UNKNOWN'', ''PRODUCT_DOMAIN_UNSPECIFIED'')]"

record field_mapping_msg =
  fm_source_field :: string
  fm_canonical_field :: string
  fm_tier :: string
  fm_confidence :: rat
  fm_evidence :: string

record value_date_msg =
  vm_resolved :: string
  vm_from_filename :: string
  vm_from_content :: "string list"
  vm_from_arrival :: string
  vm_method :: string
  vm_confidence :: rat
  vm_mismatch_flagged :: bool
  vm_calendar_id :: string
  vm_notes :: string

record arrival_classified =
  ac_arrival_id :: string
  ac_classified_at :: string
  ac_format :: string
  ac_source_hint :: string
  ac_client_id :: string
  ac_client_confidence :: rat
  ac_account_ids :: "string list"
  ac_domain :: string
  ac_recon_side :: string
  ac_value_date :: value_date_msg
  ac_row_count :: nat
  ac_field_mappings :: "field_mapping_msg list"
  ac_canonical_uri :: string
  ac_overall_confidence :: rat
  ac_disposition :: string
  ac_review_reasons :: "string list"
  ac_template_fingerprint :: string
  ac_sub_batch_index :: nat
  ac_sub_batch_total :: nat

definition value_date_msg_of :: "resolution \<Rightarrow> value_date_msg" where
  "value_date_msg_of vd =
     \<lparr>vm_resolved = resolved_iso vd,
      vm_from_filename = (case from_filename vd of None \<Rightarrow> [] | Some d \<Rightarrow> isoformat d),
      vm_from_content = map isoformat (from_content vd), vm_from_arrival = isoformat (from_arrival vd),
      vm_method = method_str (vd_method vd), vm_confidence = vd_confidence vd,
      vm_mismatch_flagged = mismatch_flagged vd, vm_calendar_id = vd_calendar_id vd, vm_notes = vd_notes vd\<rparr>"

definition to_proto :: "string \<Rightarrow> classification \<Rightarrow> arrival_classified" where
  "to_proto now c =
     \<lparr>ac_arrival_id = cl_arrival_id c, ac_classified_at = now,
      ac_format = dict_get_or FORMAT_ENUM (cl_source_format c) ''SOURCE_FORMAT_UNSPECIFIED'',
      ac_source_hint = att_source_hint (cl_attribution c),
      ac_client_id = (case cl_client_id c of None \<Rightarrow> [] | Some i \<Rightarrow> i),
      ac_client_confidence = att_confidence (cl_attribution c),
      ac_account_ids = att_account_ids (cl_attribution c),
      ac_domain = dict_get_or DOMAIN_ENUM (cl_domain c) ''PRODUCT_DOMAIN_UNSPECIFIED'',
      ac_recon_side = ''RECON_SIDE_EXTERNAL_CLIENT'', ac_value_date = value_date_msg_of (cl_value_date c),
      ac_row_count = cl_row_count c,
      ac_field_mappings = map (\<lambda>m. \<lparr>fm_source_field = source_field m,
          fm_canonical_field = (case canonical_field m of None \<Rightarrow> [] | Some f \<Rightarrow> f),
          fm_tier = tier_enum (m_tier m), fm_confidence = m_confidence m, fm_evidence = m_evidence m\<rparr>)
        (cl_mappings c),
      ac_canonical_uri = cl_canonical_uri c, ac_overall_confidence = overall (cl_score c),
      ac_disposition = disposition_enum (disposition (cl_score c)),
      ac_review_reasons = reasons (cl_score c) @ (if cl_cross_check c \<noteq> [] then [cl_cross_check c] else []),
      ac_template_fingerprint = cl_fingerprint c, ac_sub_batch_index = cl_sub_batch_index c,
      ac_sub_batch_total = cl_sub_batch_total c\<rparr>"

definition topic_for :: "disposition \<Rightarrow> string" where
  "topic_for d = (if d = DISPATCHED then TOPIC_ARRIVALS_CLASSIFIED else TOPIC_ARRIVALS_QUARANTINE)"

section \<open>The handler\<close>

record arrival_raw =
  ar_arrival_id :: string
  ar_uri :: string
  ar_original_name :: string

record ('c, 'w) inspector_state =
  is_bus :: "arrival_classified memory_bus"
  is_files :: "(string, emit_result) dict"
  is_cache :: 'c
  is_world :: 'w

definition outgoing :: "string \<Rightarrow> classification \<Rightarrow> arrival_classified message" where
  "outgoing now c =
     \<lparr>msg_topic = topic_for (disposition (cl_score c)),
      msg_key = slot_key (case cl_client_id c of None \<Rightarrow> ''UNKNOWN'' | Some i \<Rightarrow> str_or i ''UNKNOWN'')
        (cl_domain c) (resolved_iso (cl_value_date c)),
      msg_value = to_proto now c, msg_headers = [], msg_partition = 0, msg_offset = 0\<rparr>"

definition handle_one ::
    "registry \<Rightarrow> (string \<Rightarrow> nat) \<Rightarrow> string \<Rightarrow> classification \<Rightarrow> ('c, 'w) inspector_state
     \<Rightarrow> ('c, 'w) inspector_state result" where
  "handle_one reg part now c s =
     res_bind (write_canonical reg c (is_files s)) (\<lambda>(c', files).
     res_bind (publish part (is_bus s) [outgoing now c']) (\<lambda>b.
       Inr (s\<lparr>is_bus := b, is_files := files\<rparr>)))"

primrec handle_all ::
    "registry \<Rightarrow> (string \<Rightarrow> nat) \<Rightarrow> string \<Rightarrow> classification list \<Rightarrow> ('c, 'w) inspector_state
     \<Rightarrow> ('c, 'w) inspector_state result" where
  "handle_all reg part now [] s = Inr s"
| "handle_all reg part now (c # cs) s = res_bind (handle_one reg part now c s) (handle_all reg part now cs)"

text \<open>The handler: a parse error is logged and dropped, every other error leaves it. The state of a
  failed run is not modelled, as the exception stops the consumer.\<close>

definition inspector_handle ::
    "('v, 'c, 'w) inspector \<Rightarrow> (string \<Rightarrow> string option) \<Rightarrow> (string \<Rightarrow> nat) \<Rightarrow> date \<Rightarrow> string \<Rightarrow> arrival_raw
     \<Rightarrow> ('c, 'w) inspector_state \<Rightarrow> ('c, 'w) inspector_state result" where
  "inspector_handle insp store part today now raw s =
     (let path = (if prefix ''fs://'' (ar_uri raw) then drop 5 (ar_uri raw) else ar_uri raw) in
      case (case store path of
              None \<Rightarrow> Inl FileNotFound
            | Some bytes \<Rightarrow>
                res_bind (classify insp today (ar_arrival_id raw) bytes (ar_original_name raw) (is_cache s, is_world s))
                  (\<lambda>(cs, c, w). handle_all (in_registry insp) part now cs (s\<lparr>is_cache := c, is_world := w\<rparr>))) of
        Inl (ParseError _) \<Rightarrow> Inr s
      | r \<Rightarrow> r)"

section \<open>Facts about classification\<close>

lemma sort_key_Nil [simp]: "sort_key f xs = [] \<longleftrightarrow> xs = []"
  by (metis length_0_conv length_sort)

lemma make_classification_sel [simp]:
  "cl_arrival_id (make_classification a p att dm ms fp note t i n vs) = a"
  "cl_client_id (make_classification a p att dm ms fp note t i n vs) = att_client_id att"
  "cl_value_date (make_classification a p att dm ms fp note t i n vs) = fst vs"
  "cl_domain (make_classification a p att dm ms fp note t i n vs) = dm"
  "cl_mappings (make_classification a p att dm ms fp note t i n vs) = ms"
  "cl_score (make_classification a p att dm ms fp note t i n vs) = snd vs"
  "cl_table (make_classification a p att dm ms fp note t i n vs) = t"
  "cl_row_count (make_classification a p att dm ms fp note t i n vs) = length (t_rows t)"
  "cl_sub_batch_index (make_classification a p att dm ms fp note t i n vs) = i"
  "cl_sub_batch_total (make_classification a p att dm ms fp note t i n vs) = n"
  by (simp_all add: make_classification_def row_count_def)

text \<open>What stands behind an arrival that is dispatched.\<close>

definition evidence_of :: "(string \<Rightarrow> string) \<Rightarrow> classification \<Rightarrow> bool" where
  "evidence_of env c \<longleftrightarrow>
     cl_client_id c \<noteq> None \<and> resolved (cl_value_date c) \<noteq> None
     \<and> set (required_of (cl_domain c)) \<subseteq> set (resolved_fields (cl_mappings c))
     \<and> dispatch_threshold env \<le> overall (cl_score c)"

lemma classify_rows_evidence:
  assumes "classify_rows insp today name cal hints att dm ms renote t = Inr vs"
    and "disposition (snd vs) = DISPATCHED"
  shows "evidence_of (in_env insp) (make_classification a p att dm ms fp note t i n vs)"
proof -
  from assms(1) have "compose (in_env insp) att (fst vs) ms dm = Inr (snd vs)"
    by (auto simp: classify_rows_def Let_def res_bind_Inr_iff)
  from dispatched_evidence [OF this assms(2)] show ?thesis by (simp add: evidence_of_def)
qed

text \<open>The two shapes of a classification: the whole table, or one batch per group.\<close>

definition batch ::
    "('v, 'c, 'w) inspector \<Rightarrow> date \<Rightarrow> string \<Rightarrow> calendar \<Rightarrow> string list \<Rightarrow> attribution \<Rightarrow> string \<Rightarrow> mapping list
     \<Rightarrow> string \<Rightarrow> parser \<Rightarrow> string \<Rightarrow> string \<Rightarrow> (string \<Rightarrow> string) \<Rightarrow> nat \<Rightarrow> nat \<Rightarrow> parsed_table \<Rightarrow> classification \<Rightarrow> bool" where
  "batch insp today name cal hints att dm ms a p fp note renote i n t c \<longleftrightarrow>
     (\<exists>vs. classify_rows insp today name cal hints att dm ms renote t = Inr vs
        \<and> c = make_classification a p att dm ms fp note t i n vs)"

lemma batch_facts:
  assumes "batch insp today name cal hints att dm ms a p fp nt renote i n t c"
  shows "cl_arrival_id c = a \<and> cl_sub_batch_index c = i \<and> cl_sub_batch_total c = n
    \<and> t_rows (cl_table c) = t_rows t \<and> cl_row_count c = length (t_rows t)
    \<and> (disposition (cl_score c) = DISPATCHED \<longrightarrow> evidence_of (in_env insp) c)"
  using assms by (auto simp: batch_def intro: classify_rows_evidence)

lemma classify_batches_whole:
  assumes "classify_batches insp today a name p att cal hints dm ms fp nt t = Inr cs"
    and "split_by_value_date (t_rows t) (t_headers t) hints = []"
  obtains x where "cs = [x]" "batch insp today name cal hints att dm ms a p fp nt id 0 1 t x"
  using assms by (auto simp: classify_batches_def batch_def res_bind_Inr_iff)

lemma classify_batches_split:
  assumes "classify_batches insp today a name p att cal hints dm ms fp nt t = Inr cs"
    and "split_by_value_date (t_rows t) (t_headers t) hints = g # gs"
  shows "list_all2 (\<lambda>(i, iso, rs) x. \<exists>sub. t_rows sub = rs
      \<and> batch insp today name cal hints att dm ms a p fp nt (sub_batch_note i (length (g # gs))) i
          (length (g # gs)) sub x)
    (zip [0..<length (g # gs)] (sort_key fst (g # gs))) cs"
  using assms unfolding classify_batches_def
  by (force simp: res_map_Inr_iff res_bind_Inr_iff make_table_Inr batch_def Let_def simp del: sort_key_simps
      elim!: list_all2_mono)

text \<open>What both shapes have in common.\<close>

definition batches_of :: "row list \<Rightarrow> (string, row list) dict \<Rightarrow> row list list" where
  "batches_of rows groups = (if groups = [] then [rows] else map snd (sort_key fst groups))"

lemma classify_batches_rows:
  assumes "classify_batches insp today a name p att cal hints dm ms fp nt t = Inr cs"
  shows "list_all2 (\<lambda>(i, rs) c. cl_arrival_id c = a \<and> cl_sub_batch_index c = i
        \<and> cl_sub_batch_total c = length (batches_of (t_rows t) (split_by_value_date (t_rows t) (t_headers t) hints))
        \<and> t_rows (cl_table c) = rs \<and> cl_row_count c = length rs
        \<and> (disposition (cl_score c) = DISPATCHED \<longrightarrow> evidence_of (in_env insp) c))
     (zip [0..<length (batches_of (t_rows t) (split_by_value_date (t_rows t) (t_headers t) hints))]
          (batches_of (t_rows t) (split_by_value_date (t_rows t) (t_headers t) hints))) cs"
proof (cases "split_by_value_date (t_rows t) (t_headers t) hints")
  case Nil
  from classify_batches_whole [OF assms Nil] obtain x where "cs = [x]"
    and "batch insp today name cal hints att dm ms a p fp nt id 0 1 t x" .
  with batch_facts [OF this(2)] show ?thesis by (simp add: Nil batches_of_def)
next
  case (Cons g gs)
  let ?gs = "g # gs"
  have b: "batches_of (t_rows t) ?gs = map snd (sort_key fst ?gs)" by (simp add: batches_of_def)
  show ?thesis
    unfolding Cons b zip_map2 list_all2_map1 length_map length_sort
    by (rule list_all2_mono [OF classify_batches_split [OF assms Cons]])
      (auto dest!: batch_facts simp del: sort_key_simps)
qed

text \<open>The groups of rows that a table is split into.\<close>

definition groups_in :: "('v, 'c, 'w) inspector \<Rightarrow> string \<Rightarrow> parsed_table \<Rightarrow> (string, row list) dict" where
  "groups_in insp name t = split_by_value_date (t_rows t) (t_headers t)
     (hints_for (in_registry insp)
       (att_client_id (attribute name (t_headers t) (t_rows t) (in_registry insp))))"

lemma classify_parts:
  assumes "classify insp today a bytes name (c, w) = Inr (cs, c', w')"
  obtains p sc t where "sniff (in_parsers insp) bytes name = Inr (p, sc)" and "p_parse p bytes = Inr t"
    and "list_all2 (\<lambda>(i, rs) c. cl_arrival_id c = a \<and> cl_sub_batch_index c = i
        \<and> cl_sub_batch_total c = length (batches_of (t_rows t) (groups_in insp name t))
        \<and> t_rows (cl_table c) = rs \<and> cl_row_count c = length rs
        \<and> (disposition (cl_score c) = DISPATCHED \<longrightarrow> evidence_of (in_env insp) c))
      (zip [0..<length (batches_of (t_rows t) (groups_in insp name t))]
           (batches_of (t_rows t) (groups_in insp name t))) cs"
proof -
  from assms obtain p sc t cal dm ms fp nt where p: "sniff (in_parsers insp) bytes name = Inr (p, sc)"
    and t: "p_parse p bytes = Inr t"
    and b: "classify_batches insp today a name p (attribute name (t_headers t) (t_rows t) (in_registry insp)) cal
      (hints_for (in_registry insp)
        (att_client_id (attribute name (t_headers t) (t_rows t) (in_registry insp)))) dm ms fp nt t = Inr cs"
    unfolding classify_def by (auto simp: res_bind_Inr_iff Let_def)
  from classify_batches_rows [OF b] show ?thesis
    by (intro that [OF p t]) (simp only: groups_in_def)
qed

text \<open>The batches of a file, as equations.\<close>

lemma classify_batches_equations:
  assumes "classify insp today a bytes name (c, w) = Inr (cs, c', w')"
  obtains p sc t where "sniff (in_parsers insp) bytes name = Inr (p, sc)" and "p_parse p bytes = Inr t"
    and "map (\<lambda>c. t_rows (cl_table c)) cs = batches_of (t_rows t) (groups_in insp name t)"
    and "\<And>i. i < length cs \<Longrightarrow> cl_sub_batch_index (cs ! i) = i \<and> cl_sub_batch_total (cs ! i) = length cs
      \<and> cl_arrival_id (cs ! i) = a \<and> cl_row_count (cs ! i) = length (t_rows (cl_table (cs ! i)))
      \<and> (disposition (cl_score (cs ! i)) = DISPATCHED \<longrightarrow> evidence_of (in_env insp) (cs ! i))"
proof -
  obtain p sc t where p: "sniff (in_parsers insp) bytes name = Inr (p, sc)" "p_parse p bytes = Inr t"
    and l: "list_all2 (\<lambda>(i, rs) c. cl_arrival_id c = a \<and> cl_sub_batch_index c = i
        \<and> cl_sub_batch_total c = length (batches_of (t_rows t) (groups_in insp name t))
        \<and> t_rows (cl_table c) = rs \<and> cl_row_count c = length rs
        \<and> (disposition (cl_score c) = DISPATCHED \<longrightarrow> evidence_of (in_env insp) c))
      (zip [0..<length (batches_of (t_rows t) (groups_in insp name t))]
           (batches_of (t_rows t) (groups_in insp name t))) cs"
    by (rule classify_parts [OF assms])
  let ?b = "batches_of (t_rows t) (groups_in insp name t)"
  have len: "length ?b = length cs" using list_all2_lengthD [OF l] by simp
  have nth: "cl_arrival_id (cs ! i) = a \<and> cl_sub_batch_index (cs ! i) = i
      \<and> cl_sub_batch_total (cs ! i) = length cs
      \<and> t_rows (cl_table (cs ! i)) = ?b ! i \<and> cl_row_count (cs ! i) = length (?b ! i)
      \<and> (disposition (cl_score (cs ! i)) = DISPATCHED \<longrightarrow> evidence_of (in_env insp) (cs ! i))"
    if "i < length cs" for i
    using list_all2_nthD2 [OF l that] that len by simp
  show ?thesis
    by (rule that [OF p]) (simp_all add: nth len list_eq_iff_nth_eq)
qed

section \<open>Facts about the handler\<close>

text \<open>The classification as the message announces it.\<close>

definition announced :: "classification \<Rightarrow> classification" where
  "announced c = c\<lparr>cl_canonical_uri := ''fs://canonical/'' @ canonical_name c,
                   cl_row_count := length (t_rows (cl_table c))\<rparr>"

lemma announced_sel [simp]:
  "cl_score (announced c) = cl_score c" "cl_client_id (announced c) = cl_client_id c"
  "cl_domain (announced c) = cl_domain c" "cl_value_date (announced c) = cl_value_date c"
  "cl_mappings (announced c) = cl_mappings c" "cl_table (announced c) = cl_table c"
  "canonical_name (announced c) = canonical_name c"
  "evidence_of env (announced c) = evidence_of env c"
  by (simp_all add: announced_def canonical_name_def evidence_of_def)

lemma write_canonical_Inr:
  assumes "write_canonical reg c files = Inr (c', files')"
  obtains res where "c' = announced c" and "files' = dict_set (canonical_name c) res files"
    and "er_row_count res = length (t_rows (cl_table c))"
proof -
  from assms obtain records res where r: "build_records (cl_table c) (cl_mappings c) (stamp_of c)
      (account_names_of reg (cl_client_id c)) = Inr records"
    and w: "write_parquet records (canonical_name c) = Inr res"
    and c': "c' = c\<lparr>cl_canonical_uri := ''fs://canonical/'' @ canonical_name c, cl_row_count := er_row_count res\<rparr>"
    and f: "files' = dict_set (canonical_name c) res files"
    by (auto simp: write_canonical_def res_bind_Inr_iff)
  have "er_row_count res = length (t_rows (cl_table c))"
    using r w by (auto simp: write_parquet_def build_records_def res_bind_Inr_iff res_map_Inr_iff
        dest!: list_all2_lengthD)
  with c' f show ?thesis by (intro that) (simp_all add: announced_def)
qed

lemma handle_all_Cons:
  assumes "handle_all reg part now (x # cs) s = Inr s'"
  obtains s1 res where "handle_all reg part now cs s1 = Inr s'"
    and "is_bus s1 = append_message part (is_bus s) (outgoing now (announced x))"
    and "is_files s1 = dict_set (canonical_name x) res (is_files s)"
    and "er_row_count res = length (t_rows (cl_table x))"
proof -
  from assms obtain s1 where h1: "handle_one reg part now x s = Inr s1"
    and h: "handle_all reg part now cs s1 = Inr s'"
    by (auto simp: res_bind_Inr_iff)
  from h1 obtain c' files b where w: "write_canonical reg x (is_files s) = Inr (c', files)"
    and b: "publish part (is_bus s) [outgoing now c'] = Inr b"
    and s1: "s1 = s\<lparr>is_bus := b, is_files := files\<rparr>"
    by (auto simp: handle_one_def res_bind_Inr_iff)
  obtain res where "c' = announced x" "files = dict_set (canonical_name x) res (is_files s)"
    "er_row_count res = length (t_rows (cl_table x))"
    by (rule write_canonical_Inr [OF w])
  with publish_Inr [OF b] s1 show ?thesis by (intro that [OF h, of res]) simp_all
qed

lemma handle_all_bus:
  "handle_all reg part now cs s = Inr s' \<Longrightarrow>
     is_bus s' = foldl (append_message part) (is_bus s) (map (\<lambda>c. outgoing now (announced c)) cs)"
proof (induction cs arbitrary: s)
  case (Cons x cs)
  then show ?case by (elim handle_all_Cons) simp
qed simp

lemma handle_all_other_files:
  "handle_all reg part now cs s = Inr s' \<Longrightarrow> n \<notin> canonical_name ` set cs \<Longrightarrow>
     dict_get (is_files s') n = dict_get (is_files s) n"
proof (induction cs arbitrary: s)
  case (Cons x cs)
  from Cons.prems show ?case by (elim handle_all_Cons) (simp add: Cons.IH)
qed simp

lemma handle_all_files:
  "handle_all reg part now cs s = Inr s' \<Longrightarrow> distinct (map canonical_name cs) \<Longrightarrow> c \<in> set cs \<Longrightarrow>
     \<exists>res. dict_get (is_files s') (canonical_name c) = Some res
       \<and> er_row_count res = length (t_rows (cl_table c))"
proof (induction cs arbitrary: s)
  case (Cons x cs)
  from Cons.prems(1) obtain s1 res where h: "handle_all reg part now cs s1 = Inr s'"
    and f: "is_files s1 = dict_set (canonical_name x) res (is_files s)"
    and n: "er_row_count res = length (t_rows (cl_table x))" by (rule handle_all_Cons)
  show ?case
  proof (cases "c = x")
    case True
    with handle_all_other_files [OF h, of "canonical_name x"] Cons.prems(2) f n show ?thesis by simp
  next
    case False
    with Cons.prems h show ?thesis by (intro Cons.IH) simp_all
  qed
qed simp

lemma canonical_names_distinct:
  assumes "\<And>i. i < length cs \<Longrightarrow> cl_sub_batch_index (cs ! i) = i \<and> cl_sub_batch_total (cs ! i) = length cs
      \<and> cl_arrival_id (cs ! i) = a"
  shows "distinct (map canonical_name cs)"
proof -
  have "i = j" if "i < length cs" "j < length cs" "canonical_name (cs ! i) = canonical_name (cs ! j)" for i j
  proof (cases "1 < length cs")
    case True
    with that assms [OF that(1)] assms [OF that(2)] show ?thesis
      by (auto simp: canonical_name_def dest: nat_str_inj)
  qed (use that in simp)
  then show ?thesis by (auto simp: distinct_conv_nth)
qed

text \<open>A successful run of the handler: either the file was rejected, or its classifications were
  published in order, from the state with the cache and the world of the classification.\<close>

lemma inspector_handle_unfold:
  "inspector_handle insp store part today now raw s =
     (case store (if prefix ''fs://'' (ar_uri raw) then drop 5 (ar_uri raw) else ar_uri raw) of
        None \<Rightarrow> Inl FileNotFound
      | Some bytes \<Rightarrow>
          (case res_bind (classify insp today (ar_arrival_id raw) bytes (ar_original_name raw) (is_cache s, is_world s))
                  (\<lambda>(cs, c, w). handle_all (in_registry insp) part now cs (s\<lparr>is_cache := c, is_world := w\<rparr>)) of
             Inl e \<Rightarrow> if (\<exists>m. e = ParseError m) then Inr s else Inl e
           | Inr s' \<Rightarrow> Inr s'))"
  unfolding inspector_handle_def Let_def
  by (cases "store (if prefix ''fs://'' (ar_uri raw) then drop 5 (ar_uri raw) else ar_uri raw)")
    (simp_all split: sum.split py_error.split)

lemma inspector_handle_cases:
  assumes "inspector_handle insp store part today now raw s = Inr s'"
  obtains "s' = s"
  | bytes cs c w where "classify insp today (ar_arrival_id raw) bytes (ar_original_name raw)
        (is_cache s, is_world s) = Inr (cs, c, w)"
      and "handle_all (in_registry insp) part now cs (s\<lparr>is_cache := c, is_world := w\<rparr>) = Inr s'"
  using assms unfolding inspector_handle_unfold
  by (force simp: res_bind_def split: sum.splits option.splits if_splits)

lemma handle_published:
  assumes "inspector_handle insp store part today now raw s = Inr s'"
  obtains cs where
    "is_bus s' = foldl (append_message part) (is_bus s) (map (\<lambda>c. outgoing now (announced c)) cs)"
    and "\<And>c. c \<in> set cs \<Longrightarrow> \<exists>res. dict_get (is_files s') (canonical_name c) = Some res
          \<and> er_row_count res = length (t_rows (cl_table c))"
    and "\<And>c. c \<in> set cs \<Longrightarrow> disposition (cl_score c) = DISPATCHED \<Longrightarrow> evidence_of (in_env insp) c"
  using assms
proof (cases rule: inspector_handle_cases)
  case 1
  then show ?thesis using that [of "[]"] by simp
next
  case (2 bytes cs c w)
  have eqs: "\<And>i. i < length cs \<Longrightarrow>
      cl_sub_batch_index (cs ! i) = i \<and> cl_sub_batch_total (cs ! i) = length cs
      \<and> cl_arrival_id (cs ! i) = ar_arrival_id raw \<and> cl_row_count (cs ! i) = length (t_rows (cl_table (cs ! i)))
      \<and> (disposition (cl_score (cs ! i)) = DISPATCHED \<longrightarrow> evidence_of (in_env insp) (cs ! i))"
    by (rule classify_batches_equations [OF 2(1)]) blast
  have "distinct (map canonical_name cs)"
    by (rule canonical_names_distinct [where a = "ar_arrival_id raw"]) (simp add: eqs)
  with 2(2) show ?thesis
    by (intro that [of cs])
      (auto simp: handle_all_bus handle_all_files in_set_conv_nth eqs simp del: ex_simps)
qed

lemma outgoing_sel [simp]:
  "msg_topic (outgoing now c) = topic_for (disposition (cl_score c))"
  "msg_value (outgoing now c) = to_proto now c"
  by (simp_all add: outgoing_def)

lemma topic_for_classified [simp]: "topic_for d = TOPIC_ARRIVALS_CLASSIFIED \<longleftrightarrow> d = DISPATCHED"
  by (simp add: topic_for_def TOPIC_ARRIVALS_CLASSIFIED_def TOPIC_ARRIVALS_QUARANTINE_def)

lemma published_keyed:
  assumes "bus_ok part b"
  shows "keyed (foldl (append_message part) b (map (\<lambda>c. outgoing now (announced c)) cs)) t k =
     keyed b t k @ map (to_proto now) (map announced (filter (\<lambda>c. topic_for (disposition (cl_score c)) = t
       \<and> msg_key (outgoing now (announced c)) = k) cs))"
  by (simp add: memory.view_puts [OF assms] filter_map comp_def)

section \<open>Facts about sniffing\<close>

lemma sort_key_first:
  assumes "sort_key f xs = x # ys"
  shows "x \<in> set xs \<and> (\<forall>z \<in> set xs. f x \<le> f z)"
proof -
  have "sorted (map f (x # ys))" "set (x # ys) = set xs"
    using sorted_sort_key [of f xs] set_sort [of f xs] by (simp_all add: assms)
  then show ?thesis by auto
qed

lemma sniff_Inr:
  assumes "sniff parsers bytes name = Inr (p, sc)"
  shows "p \<in> set parsers \<and> sc = p_sniff p (take SNIFF_BYTES bytes) name \<and> 0 < sc
    \<and> (\<forall>q \<in> set parsers. p_sniff q (take SNIFF_BYTES bytes) name \<le> sc)"
proof -
  from assms obtain ys where "sort_key (\<lambda>p. - snd p)
      (map (\<lambda>p. (p, p_sniff p (take SNIFF_BYTES bytes) name)) parsers) = (p, sc) # ys" and "0 < sc"
    by (auto simp: sniff_def split: list.splits if_splits)
  with sort_key_first [OF this(1)] show ?thesis by auto
qed

lemma sniff_Inl:
  assumes "sniff parsers bytes name = Inl e" and "parsers \<noteq> []"
  shows "e = ParseError (''no parser recognised '' @ repr name)"
proof (cases "sort_key (\<lambda>p. - snd p) (map (\<lambda>p. (p, p_sniff p (take SNIFF_BYTES bytes) name)) parsers)")
  case Nil
  with assms(2) show ?thesis by simp
next
  case (Cons x ys)
  with assms(1) show ?thesis by (simp add: sniff_def split: if_splits)
qed

lemma sniff_total:
  assumes "q \<in> set parsers" and "0 < p_sniff q (take SNIFF_BYTES bytes) name"
  shows "\<exists>p sc. sniff parsers bytes name = Inr (p, sc)"
proof (cases "sort_key (\<lambda>p. - snd p) (map (\<lambda>p. (p, p_sniff p (take SNIFF_BYTES bytes) name)) parsers)")
  case Nil
  with assms(1) show ?thesis by simp
next
  case (Cons x ys)
  from sort_key_first [OF Cons] assms have "0 < snd x" by fastforce
  with Cons show ?thesis by (cases x) (simp add: sniff_def)
qed

lemma classify_rejects:
  assumes "in_parsers insp \<noteq> []"
    and "\<forall>q \<in> set (in_parsers insp). p_sniff q (take SNIFF_BYTES bytes) name \<le> 0
      \<or> (\<exists>e. p_parse q bytes = Inl (ParseError e))"
  shows "\<exists>e. classify insp today a bytes name (c, w) = Inl (ParseError e)"
proof (cases "sniff (in_parsers insp) bytes name")
  case (Inl e)
  with sniff_Inl [OF Inl assms(1)] show ?thesis by (simp add: classify_def)
next
  case (Inr x)
  obtain p sc where x: "x = (p, sc)" by (cases x)
  from sniff_Inr [OF Inr [unfolded x]] assms(2) have "\<exists>e. p_parse p bytes = Inl (ParseError e)" by force
  with Inr x show ?thesis by (auto simp: classify_def)
qed

section \<open>Properties\<close>

text \<open>C20. Only evidence reaches Berthmaster. Whatever a run of the handler adds to the topic of classified
  arrivals, under any key, are the messages of classifications with a client, a value date, a column
  for every field their domain requires and a confidence at or above the dispatch threshold.\<close>

theorem classified_topic_needs_evidence:
  assumes "inspector_handle insp store part today now raw s = Inr s'" and "bus_ok part (is_bus s)"
  shows "\<exists>cs. keyed (is_bus s') TOPIC_ARRIVALS_CLASSIFIED k
             = keyed (is_bus s) TOPIC_ARRIVALS_CLASSIFIED k @ map (to_proto now) cs
           \<and> (\<forall>c \<in> set cs. evidence_of (in_env insp) c)"
proof (rule handle_published [OF assms(1)], goal_cases)
  case (1 cs)
  let ?cs = "map announced (filter (\<lambda>c. topic_for (disposition (cl_score c)) = TOPIC_ARRIVALS_CLASSIFIED
       \<and> msg_key (outgoing now (announced c)) = k) cs)"
  from 1(3) have "\<forall>c \<in> set ?cs. evidence_of (in_env insp) c" by simp
  then show ?case by (intro exI [of _ ?cs]) (simp only: 1(1) published_keyed [OF assms(2)])
qed

text \<open>C21. What is announced exists: every message a run adds, on any topic, names a canonical file that
  the run has written, with the number of rows the message states.\<close>

theorem announced_files_exist:
  assumes "inspector_handle insp store part today now raw s = Inr s'" and "bus_ok part (is_bus s)"
  shows "\<exists>vs. keyed (is_bus s') t k = keyed (is_bus s) t k @ vs
    \<and> (\<forall>v \<in> set vs. \<exists>n res. ac_canonical_uri v = ''fs://canonical/'' @ n
         \<and> dict_get (is_files s') n = Some res \<and> er_row_count res = ac_row_count v)"
proof (rule handle_published [OF assms(1)], goal_cases)
  case (1 cs)
  let ?vs = "map (to_proto now) (map announced (filter (\<lambda>c. topic_for (disposition (cl_score c)) = t
       \<and> msg_key (outgoing now (announced c)) = k) cs))"
  have "\<forall>v \<in> set ?vs. \<exists>n res. ac_canonical_uri v = ''fs://canonical/'' @ n
         \<and> dict_get (is_files s') n = Some res \<and> er_row_count res = ac_row_count v"
    using 1(2) by (fastforce simp: to_proto_def announced_def)
  then show ?case by (intro exI [of _ ?vs]) (simp add: 1(1) published_keyed [OF assms(2)])
qed

text \<open>C22. One classification per value date: the batches of a file are the table as parsed, or its groups
  of rows in the order of their dates; they are numbered from zero, agree on their number, count
  their own rows and get canonical files of different names.\<close>

theorem batches_cover_groups:
  assumes "classify insp today a bytes name (c, w) = Inr (cs, c', w')"
  shows "cs \<noteq> [] \<and> distinct (map canonical_name cs)
    \<and> (\<exists>p sc t. sniff (in_parsers insp) bytes name = Inr (p, sc) \<and> p_parse p bytes = Inr t
        \<and> map (\<lambda>c. t_rows (cl_table c)) cs = batches_of (t_rows t) (groups_in insp name t))
    \<and> (\<forall>i < length cs. cl_sub_batch_index (cs ! i) = i \<and> cl_sub_batch_total (cs ! i) = length cs
        \<and> cl_row_count (cs ! i) = length (t_rows (cl_table (cs ! i))))"
proof (rule classify_batches_equations [OF assms], goal_cases)
  case (1 p sc t)
  have "cs \<noteq> []"
  proof
    assume "cs = []"
    with 1(3) have "batches_of (t_rows t) (groups_in insp name t) = []" by simp
    then show False by (simp add: batches_of_def split: if_splits)
  qed
  moreover have "distinct (map canonical_name cs)"
    by (rule canonical_names_distinct [where a = a]) (simp add: 1(4))
  ultimately show ?case using 1 by blast
qed


text \<open>C24. The format is chosen by content, and the order of registration does not matter: the chosen
  parser has the highest score, above zero, and any other order of the parsers chooses it too, unless
  another one scores the same.\<close>

theorem sniff_order_irrelevant:
  assumes "sniff parsers bytes name = Inr (p, sc)" and "set parsers' = set parsers"
    and "\<forall>q \<in> set parsers. p_sniff q (take SNIFF_BYTES bytes) name = sc \<longrightarrow> q = p"
  shows "sniff parsers' bytes name = Inr (p, sc) \<and> 0 < sc
    \<and> (\<forall>q \<in> set parsers. p_sniff q (take SNIFF_BYTES bytes) name \<le> sc)"
proof -
  note best = sniff_Inr [OF assms(1)]
  from sniff_total [of p parsers'] best assms(2) obtain p' sc' where
    s: "sniff parsers' bytes name = Inr (p', sc')" by force
  from sniff_Inr [OF s] best assms(2,3) have "sc' = sc \<and> p' = p" by (metis order_antisym)
  with s have "sniff parsers' bytes name = Inr (p, sc)" by simp
  with best show ?thesis by blast
qed

text \<open>Without a cache of its own an inspector learns nothing: whatever a classification adjudicated,
  the next one of the same layout starts from the same empty cache.\<close>

lemma default_cache_forgets:
  assumes "in_fresh insp = Some e" and "classify insp today a bytes name (c, w) = Inr (cs, c', w')"
  shows "c' = c \<and> classify insp today a bytes name (e, w) = Inr (cs, e, w')"
  using assms by (auto simp: classify_def ladder_cache_def kept_cache_def res_bind_Inr_iff Let_def)

section \<open>Example\<close>

text \<open>A cash file with two value dates, under a name that the client's hint recognises.\<close>

definition cash_text :: string where
  "cash_text = ''ACCOUNT,VALUE DATE,NET AMOUNT,CCY''"

definition cash_row :: "string \<Rightarrow> string \<Rightarrow> row" where
  "cash_row day amount = [(''Account'', ''A1''), (''Value Date'', day), (''Net Amount'', amount), (''Currency'', ''USD'')]"

definition cash_table :: parsed_table where
  "cash_table = \<lparr>t_headers = [''Account'', ''Value Date'', ''Net Amount'', ''Currency''],
     t_rows = [cash_row ''2026-10-30'' ''5'', cash_row ''2026-10-29'' ''7''], t_evidence = [], t_warnings = []\<rparr>"

definition cash_parser :: parser where
  "cash_parser = \<lparr>p_format = ''CSV'', p_sniff = (\<lambda>bytes name. if prefix ''ACCOUNT'' bytes then 1 else 0),
     p_parse = (\<lambda>bytes. Inr cash_table)\<rparr>"

definition other_parser :: parser where
  "other_parser = \<lparr>p_format = ''XML'', p_sniff = (\<lambda>bytes name. if prefix ''<'' bytes then 1 else 0),
     p_parse = (\<lambda>bytes. Inl (ParseError ''not XML''))\<rparr>"

definition cash_hint :: filename_hint where
  "cash_hint = \<lparr>pattern = (\<lambda>name. if prefix ''cash'' name then Some (\<lambda>g. None) else None), domain_map = [],
     hint_domain = ''CASH'', source_hint = ''bank''\<rparr>"

definition cash_registry :: registry where
  "cash_registry = \<lparr>reg_clients = [(''MERIDIAN'', sample_client\<lparr>filename_hints := [cash_hint]\<rparr>)],
     reg_calendars = [(''W'', weekend_calendar)]\<rparr>"

definition cash_inspector :: "(unit, postgres_cache, unit) inspector" where
  "cash_inspector = \<lparr>in_registry = cash_registry, in_parsers = [other_parser, cash_parser],
     in_adjudicator = None, in_cache_get = pg_get, in_cache_put = pg_put, in_fresh = Some empty_rows,
     in_extract = exact_extract, in_model = no_model, in_digest = (\<lambda>s. ''d''), in_env = no_env\<rparr>"

definition cash_arrival :: arrival_raw where
  "cash_arrival = \<lparr>ar_arrival_id = ''a1'', ar_uri = ''fs://raw/a1'', ar_original_name = ''cash.csv''\<rparr>"

definition cash_start :: "(postgres_cache, unit) inspector_state" where
  "cash_start = \<lparr>is_bus = new_bus 1, is_files = [], is_cache = empty_rows, is_world = ()\<rparr>"

abbreviation cash_run :: "(postgres_cache, unit) inspector_state result" where
  "cash_run \<equiv> inspector_handle cash_inspector (\<lambda>path. if path = ''raw/a1'' then Some cash_text else None) (\<lambda>k. 0)
     739930 ''now'' cash_arrival cash_start"

text \<open>The stages of the run, each evaluated alone.\<close>

definition cash_attribution :: attribution where
  "cash_attribution = attribute ''cash.csv'' (t_headers cash_table) (t_rows cash_table) cash_registry"

definition cash_columns :: "mapping list" where
  "cash_columns =
     [assigned ''Account'' ''account_id'' ALIAS 1 ''alias:account'',
      unresolved ''Value Date''
        ''no alias match; tier2: no local match above 0.72 (best fuzzy 0.00, semantic matcher unavailable)'',
      assigned ''Net Amount'' ''net_amount'' ALIAS 1 ''alias:netamount'',
      assigned ''Currency'' ''currency'' ALIAS 1 ''alias:currency'']"

definition cash_part :: "string \<Rightarrow> string \<Rightarrow> parsed_table" where
  "cash_part day amount = \<lparr>t_headers = t_headers cash_table, t_rows = [cash_row day amount], t_evidence = [],
     t_warnings = []\<rparr>"

lemma cash_attributed_all:
  "(att_client_id cash_attribution, att_domain cash_attribution, att_source_hint cash_attribution,
    att_confidence cash_attribution) = (Some ''MERIDIAN'', ''CASH'', ''bank'', CONF_BOTH_AGREE)"
  by code_simp

lemma cash_attributed [simp]:
  "att_client_id cash_attribution = Some ''MERIDIAN''" "att_domain cash_attribution = ''CASH''"
  "att_source_hint cash_attribution = ''bank''" "att_confidence cash_attribution = CONF_BOTH_AGREE"
  using cash_attributed_all by simp_all

definition cash_job :: job where
  "cash_job = \<lparr>j_client_id = ''MERIDIAN'', j_client_name = [], j_source_hint = ''bank'', j_domain = ''CASH'',
     j_fingerprint = ''tf_d''\<rparr>"

lemma cash_lookups [simp]:
  "client_of cash_registry (Some ''MERIDIAN'') = Some (sample_client\<lparr>filename_hints := [cash_hint]\<rparr>)"
  "calendar_of cash_registry (Some ''MERIDIAN'') = Inr weekend_calendar"
  "hints_for cash_registry (Some ''MERIDIAN'') = []"
  "overrides_for cash_registry (Some ''MERIDIAN'') = []"
  "account_names_of cash_registry (Some ''MERIDIAN'') = [(''A1'', [])]"
  by (simp_all add: client_of_def calendar_of_def hints_for_def overrides_for_def account_names_of_def
      reg_client_def calendar_for_def reg_calendar_def cash_registry_def truthy_def sample_client_def
      value_date_hints_def dict_of_def)

lemma cash_job: "job_of cash_registry cash_attribution ''CASH'' ''tf_d'' = cash_job"
  by (simp add: job_of_def cash_job_def sample_client_def)

lemma cash_resolved:
  "case resolve_table pg_get pg_put None exact_extract no_model [] cash_job cash_table
     (Unloaded, empty_rows, ()) of
     Inr (oc, st, c, w) \<Rightarrow> o_mappings oc = cash_columns | Inl _ \<Rightarrow> False"
  by code_simp

lemma cash_no_quantity: "dict_get_or (by_field cash_columns) ''quantity'' [] = []"
  by code_simp

lemma cash_checked: "case cross_check_amount cash_table cash_columns of Inr _ \<Rightarrow> True | Inl _ \<Rightarrow> False"
  by (simp add: cross_check_amount_def cash_no_quantity Let_def)

lemma cash_groups:
  "split_by_value_date (t_rows cash_table) (t_headers cash_table) [] =
     [(''2026-10-30'', [cash_row ''2026-10-30'' ''5'']), (''2026-10-29'', [cash_row ''2026-10-29'' ''7''])]"
  by code_simp

lemma cash_dates:
  "(\<lambda>v. (resolved_iso v, fl (9 / 10) \<le> vd_confidence v))
     (resolve (t_headers cash_table) [cash_row ''2026-10-30'' ''5''] ''cash.csv'' 739930 weekend_calendar [] 1)
   = (''2026-10-30'', True)"
  "(\<lambda>v. (resolved_iso v, fl (9 / 10) \<le> vd_confidence v))
     (resolve (t_headers cash_table) [cash_row ''2026-10-29'' ''7''] ''cash.csv'' 739930 weekend_calendar [] 1)
   = (''2026-10-29'', True)"
  by code_simp+

lemma cover_any_evidence:
  "mapping_coverage
     [assigned a ''account_id'' ALIAS 1 ea, unresolved b eb, assigned c ''net_amount'' ALIAS 1 ec,
      assigned d ''currency'' ALIAS 1 ed] ''CASH'' = Inr (1, [])"
  by code_simp

lemma cash_columns_cover: "mapping_coverage cash_columns ''CASH'' = Inr (1, [])"
  unfolding cash_columns_def by (rule cover_any_evidence)

lemma cash_clears: "fl (85 / 100) \<le> overall_score CONF_BOTH_AGREE (fl (9 / 10)) 1"
  by code_simp

lemma cash_emits:
  "case res_bind (build_records (cash_part ''2026-10-30'' ''5'') cash_columns s [(''A1'', [])])
     (\<lambda>rs. write_parquet rs n) of Inr _ \<Rightarrow> True | Inl _ \<Rightarrow> False"
  "case res_bind (build_records (cash_part ''2026-10-29'' ''7'') cash_columns s [(''A1'', [])])
     (\<lambda>rs. write_parquet rs n) of Inr _ \<Rightarrow> True | Inl _ \<Rightarrow> False"
  by code_simp+

lemma cash_row_classified:
  assumes "resolved_iso (resolve (t_headers cash_table) (t_rows t) ''cash.csv'' 739930 weekend_calendar [] 1) = day"
    and "fl (9 / 10) \<le> vd_confidence
      (resolve (t_headers cash_table) (t_rows t) ''cash.csv'' 739930 weekend_calendar [] 1)"
    and "day \<noteq> []" and "t_headers t = t_headers cash_table"
  shows "\<exists>vs. classify_rows cash_inspector 739930 ''cash.csv'' weekend_calendar [] cash_attribution ''CASH''
      cash_columns renote t = Inr vs \<and> disposition (snd vs) = DISPATCHED \<and> resolved_iso (fst vs) = day"
proof -
  let ?v = "resolve (t_headers cash_table) (t_rows t) ''cash.csv'' 739930 weekend_calendar [] 1"
  let ?w = "?v\<lparr>vd_notes := renote (vd_notes ?v)\<rparr>"
  from assms(1,3) have r: "resolved ?v \<noteq> None" by (auto simp: resolved_iso_def split: option.splits)
  have "overall_score CONF_BOTH_AGREE (fl (9 / 10)) 1 \<le> overall_score CONF_BOTH_AGREE (vd_confidence ?v) 1"
    using assms(2) by (intro overall_score_mono) simp_all
  with cash_clears have "fl (85 / 100) \<le> overall_score CONF_BOTH_AGREE (vd_confidence ?v) 1" by linarith
  with r have "\<exists>sc. compose no_env cash_attribution ?w cash_columns ''CASH'' = Inr sc \<and> disposition sc = DISPATCHED"
    by (simp add: compose_def cash_columns_cover route_def no_env_thresholds att_resolved_def Let_def)
  with assms show ?thesis
    by (auto simp: classify_rows_def cash_inspector_def Let_def resolved_iso_def)
qed

abbreviation cash_class :: "nat \<Rightarrow> string \<Rightarrow> string \<Rightarrow> string \<Rightarrow> resolution \<times> score \<Rightarrow> classification" where
  "cash_class i day amount nt vs \<equiv> make_classification ''a1'' cash_parser cash_attribution ''CASH'' cash_columns ''tf_d'' nt
     (cash_part day amount) i 2 vs"

lemma cash_sniffed: "sniff [other_parser, cash_parser] cash_text ''cash.csv'' = Inr (cash_parser, 1)"
  by (simp add: sniff_def other_parser_def cash_parser_def cash_text_def SNIFF_BYTES_def)

lemma cash_part_sel [simp]:
  "t_rows (cash_part day amount) = [cash_row day amount]" "t_headers (cash_part day amount) = t_headers cash_table"
  by (simp_all add: cash_part_def)

lemma cash_batches:
  "\<exists>v w. classify_batches cash_inspector 739930 ''a1'' ''cash.csv'' cash_parser cash_attribution weekend_calendar []
      ''CASH'' cash_columns ''tf_d'' nt cash_table
     = Inr [cash_class 0 ''2026-10-29'' ''7'' nt v, cash_class 1 ''2026-10-30'' ''5'' nt w]
   \<and> disposition (snd v) = DISPATCHED \<and> resolved_iso (fst v) = ''2026-10-29''
   \<and> disposition (snd w) = DISPATCHED \<and> resolved_iso (fst w) = ''2026-10-30''"
proof -
  obtain v where v: "classify_rows cash_inspector 739930 ''cash.csv'' weekend_calendar [] cash_attribution ''CASH''
      cash_columns (sub_batch_note 0 2) (cash_part ''2026-10-29'' ''7'') = Inr v"
    "disposition (snd v) = DISPATCHED" "resolved_iso (fst v) = ''2026-10-29''"
    using cash_row_classified [of "cash_part ''2026-10-29'' ''7''"] cash_dates(2) by fastforce
  obtain w where w: "classify_rows cash_inspector 739930 ''cash.csv'' weekend_calendar [] cash_attribution ''CASH''
      cash_columns (sub_batch_note 1 2) (cash_part ''2026-10-30'' ''5'') = Inr w"
    "disposition (snd w) = DISPATCHED" "resolved_iso (fst w) = ''2026-10-30''"
    using cash_row_classified [of "cash_part ''2026-10-30'' ''5''"] cash_dates(1) by fastforce
  have m: "make_table (t_headers cash_table) [cash_row day amount] (t_evidence cash_table) [] = Inr (cash_part day amount)"
    for day amount by (simp add: make_table_Inr cash_part_def cash_table_def)
  have "sort_key fst [(''2026-10-30'', [cash_row ''2026-10-30'' ''5'']), (''2026-10-29'', [cash_row ''2026-10-29'' ''7''])]
      = [(''2026-10-29'', [cash_row ''2026-10-29'' ''7'']), (''2026-10-30'', [cash_row ''2026-10-30'' ''5''])]"
    by code_simp
  with v w show ?thesis
    by (intro exI [of _ v] exI [of _ w]) (simp add: classify_batches_def cash_groups m upt_rec numeral_2_eq_2)
qed

lemma cash_classified:
  obtains v w nt where "classify cash_inspector 739930 ''a1'' cash_text ''cash.csv'' (empty_rows, ())
      = Inr ([cash_class 0 ''2026-10-29'' ''7'' nt v, cash_class 1 ''2026-10-30'' ''5'' nt w], empty_rows, ())"
    and "disposition (snd v) = DISPATCHED" "resolved_iso (fst v) = ''2026-10-29''"
    and "disposition (snd w) = DISPATCHED" "resolved_iso (fst w) = ''2026-10-30''"
proof -
  obtain oc st c where l: "resolve_table pg_get pg_put None exact_extract no_model [] cash_job cash_table
      (Unloaded, empty_rows, ()) = Inr (oc, st, c, ())" "o_mappings oc = cash_columns"
    using cash_resolved by (auto split: sum.splits)
  obtain check where x: "cross_check_amount cash_table cash_columns = Inr check"
    using cash_checked by (auto split: sum.splits)
  have f: "template_fingerprint (\<lambda>s. ''d'') (Some ''MERIDIAN'') hs = ''tf_d''" for hs
    by (simp add: template_fingerprint_def)
  have sel: "in_parsers cash_inspector = [other_parser, cash_parser]" "in_registry cash_inspector = cash_registry"
    "in_digest cash_inspector = (\<lambda>s. ''d'')" "in_cache_get cash_inspector = pg_get"
    "in_cache_put cash_inspector = pg_put" "in_adjudicator cash_inspector = None"
    "in_extract cash_inspector = exact_extract" "in_model cash_inspector = no_model"
    "ladder_cache cash_inspector c = empty_rows" "kept_cache cash_inspector c c' = c" for c c'
    by (simp_all add: cash_inspector_def ladder_cache_def kept_cache_def)
  obtain v w where b: "classify_batches cash_inspector 739930 ''a1'' ''cash.csv'' cash_parser cash_attribution
      weekend_calendar [] ''CASH'' cash_columns ''tf_d'' (cross_check_text check) cash_table
     = Inr [cash_class 0 ''2026-10-29'' ''7'' (cross_check_text check) v,
            cash_class 1 ''2026-10-30'' ''5'' (cross_check_text check) w]"
    and vw: "disposition (snd v) = DISPATCHED" "resolved_iso (fst v) = ''2026-10-29''"
      "disposition (snd w) = DISPATCHED" "resolved_iso (fst w) = ''2026-10-30''"
    using cash_batches by blast
  have p: "p_parse cash_parser cash_text = Inr cash_table" by (simp add: cash_parser_def)
  have "classify cash_inspector 739930 ''a1'' cash_text ''cash.csv'' (empty_rows, ())
      = Inr ([cash_class 0 ''2026-10-29'' ''7'' (cross_check_text check) v,
              cash_class 1 ''2026-10-30'' ''5'' (cross_check_text check) w], empty_rows, ())"
    by (simp add: classify_def sel cash_sniffed p cash_attribution_def [symmetric] str_or_def f cash_job l x b Let_def
        del: cash_attribution_def)
  from that [OF this vw] show ?thesis .
qed

lemma cash_start_bus: "bus_ok (\<lambda>k. 0) (is_bus cash_start)" "keyed (is_bus cash_start) t k = []"
  by (simp_all add: cash_start_def keyed_def messages_def) (simp add: new_bus_def)

lemma cash_handled: "\<exists>s. cash_run = Inr s"
proof -
  obtain v w nt where c: "classify cash_inspector 739930 ''a1'' cash_text ''cash.csv'' (empty_rows, ())
      = Inr ([cash_class 0 ''2026-10-29'' ''7'' nt v, cash_class 1 ''2026-10-30'' ''5'' nt w], empty_rows, ())"
    by (rule cash_classified)
  have w: "\<exists>c' f'. write_canonical cash_registry (cash_class i day amount nt vs) fs = Inr (c', f')"
    if "(day, amount) = (''2026-10-29'', ''7'') \<or> (day, amount) = (''2026-10-30'', ''5'')" for i day amount vs fs
    using that cash_emits [of "stamp_of (cash_class i day amount nt vs)" "canonical_name (cash_class i day amount nt vs)"]
    by (auto simp: write_canonical_def res_bind_def split: sum.splits)
  have one: "\<exists>s'. handle_one cash_registry (\<lambda>k. 0) ''now'' (cash_class i day amount nt vs) s = Inr s'
      \<and> bus_closed (is_bus s') = bus_closed (is_bus s)"
    if d: "(day, amount) = (''2026-10-29'', ''7'') \<or> (day, amount) = (''2026-10-30'', ''5'')"
      and "\<not> bus_closed (is_bus s)" for i day amount vs and s :: "(postgres_cache, unit) inspector_state"
  proof -
    obtain c' f' where "write_canonical cash_registry (cash_class i day amount nt vs) (is_files s) = Inr (c', f')"
      using w [OF d] by blast
    with that(2) show ?thesis
      by (simp add: handle_one_def publish_def append_message_def Let_def)
  qed
  have "in_registry cash_inspector = cash_registry" by (simp add: cash_inspector_def)
  moreover have "\<exists>s. handle_all cash_registry (\<lambda>k. 0) ''now''
      [cash_class 0 ''2026-10-29'' ''7'' nt v, cash_class 1 ''2026-10-30'' ''5'' nt w] cash_start = Inr s"
    using one [of "''2026-10-29''" "''7''" cash_start 0 v] one [of "''2026-10-30''" "''5''" _ 1 w]
    by (force simp: cash_start_def new_bus_def)
  then obtain s where "handle_all cash_registry (\<lambda>k. 0) ''now''
      [cash_class 0 ''2026-10-29'' ''7'' nt v, cash_class 1 ''2026-10-30'' ''5'' nt w] cash_start = Inr s" by blast
  moreover have u: "cash_start\<lparr>is_cache := empty_rows, is_world := ()\<rparr> = cash_start" "is_cache cash_start = empty_rows"
    by (simp_all add: cash_start_def)
  ultimately show ?thesis
    by (simp add: inspector_handle_unfold cash_arrival_def c u(2) del: handle_all.simps)
      (simp only: u(1), simp)
qed

theorem batches_cover_groups_witness:
  "\<exists>cs c w. classify cash_inspector 739930 ''a1'' cash_text ''cash.csv'' (empty_rows, ()) = Inr (cs, c, w)
     \<and> distinct (map canonical_name cs) \<and> length cs = 2"
proof -
  obtain v w nt where c: "classify cash_inspector 739930 ''a1'' cash_text ''cash.csv'' (empty_rows, ())
      = Inr ([cash_class 0 ''2026-10-29'' ''7'' nt v, cash_class 1 ''2026-10-30'' ''5'' nt w], empty_rows, ())"
    by (rule cash_classified)
  from batches_cover_groups [OF c] c show ?thesis by (intro exI conjI) (assumption, simp_all)
qed

theorem classified_topic_needs_evidence_witness:
  "\<exists>s cs. cash_run = Inr s
     \<and> keyed (is_bus s) TOPIC_ARRIVALS_CLASSIFIED ''MERIDIAN:CASH:2026-10-29'' = map (to_proto ''now'') cs
     \<and> (\<forall>c \<in> set cs. evidence_of no_env c)"
proof -
  obtain s where s: "cash_run = Inr s" using cash_handled by blast
  from cash_start_bus classified_topic_needs_evidence [OF s cash_start_bus(1), of "''MERIDIAN:CASH:2026-10-29''"] s show ?thesis
    by (auto simp: cash_inspector_def)
qed

theorem announced_files_exist_witness:
  "\<exists>s. cash_run = Inr s
     \<and> (\<forall>v \<in> set (keyed (is_bus s) TOPIC_ARRIVALS_CLASSIFIED ''MERIDIAN:CASH:2026-10-29'').
          \<exists>n res. dict_get (is_files s) n = Some res \<and> er_row_count res = ac_row_count v)"
proof -
  obtain s where s: "cash_run = Inr s" using cash_handled by blast
  from cash_start_bus announced_files_exist [OF s cash_start_bus(1), of TOPIC_ARRIVALS_CLASSIFIED "''MERIDIAN:CASH:2026-10-29''"] s show ?thesis
    by fastforce
qed


theorem sniff_order_irrelevant_witness:
  "sniff [cash_parser, other_parser] cash_text ''cash.csv'' = Inr (cash_parser, 1)"
  using sniff_order_irrelevant [OF cash_sniffed, of "[cash_parser, other_parser]"]
  by (auto simp: other_parser_def cash_text_def SNIFF_BYTES_def)

lemma default_cache_forgets_witness:
  "\<exists>cs. classify cash_inspector 739930 ''a1'' cash_text ''cash.csv'' (empty_rows, ()) = Inr (cs, empty_rows, ())
     \<and> length cs = 2"
proof -
  obtain v w nt where c: "classify cash_inspector 739930 ''a1'' cash_text ''cash.csv'' (empty_rows, ())
      = Inr ([cash_class 0 ''2026-10-29'' ''7'' nt v, cash_class 1 ''2026-10-30'' ''5'' nt w], empty_rows, ())"
    by (rule cash_classified)
  have "in_fresh cash_inspector = Some empty_rows" by (simp add: cash_inspector_def)
  from default_cache_forgets [OF this c] show ?thesis by simp
qed

end
