(* ===== verification/DefaultParsers.thy ===== *)
theory DefaultParsers
  imports DelimitedParser ExcelParser XmlParser FixmlParser JsonParser EmailParser InspectorMain
begin

text \<open>
  The parsers the Inspector registers (\<open>DEFAULT_PARSERS\<close> in \<open>main.py\<close>), each with its format, its score
  on the first bytes and its reading of the payload, and the contract of \<open>parsers/base.py\<close> they share:
  a score in \<open>[0, 1]\<close> and a table whose rows have exactly the columns of its header.
\<close>

definition default_parsers ::
    "(nat list \<Rightarrow> nat list) \<Rightarrow> (string \<Rightarrow> workbook option) \<Rightarrow> etree \<Rightarrow> parser list" where
  "default_parsers set_order load_workbook etree =
     [\<lparr>p_format = ''CSV'', p_sniff = delimited_sniff set_order, p_parse = delimited_parse set_order\<rparr>,
      \<lparr>p_format = ''EXCEL'', p_sniff = excel_sniff, p_parse = excel_parse load_workbook\<rparr>,
      \<lparr>p_format = ''XML'', p_sniff = (\<lambda>head. xml_sniff (utf8_ignore head)), p_parse = xml_parse etree\<rparr>,
      \<lparr>p_format = ''FIXML'', p_sniff = (\<lambda>head. fixml_sniff (utf8_ignore head)), p_parse = fixml_parse etree\<rparr>,
      \<lparr>p_format = ''JSON'', p_sniff = (\<lambda>head. json_sniff (utf8_ignore head)),
        p_parse = (\<lambda>raw. json_parse (utf8_strict raw))\<rparr>,
      \<lparr>p_format = ''EMAIL_TEXT'', p_sniff = email_sniff, p_parse = email_parse\<rparr>]"

section \<open>The contract of a parser\<close>

locale table_parser =
  fixes score :: "string \<Rightarrow> string \<Rightarrow> rat" and read :: "string \<Rightarrow> parsed_table result"
  assumes score_bounds: "0 \<le> score head name \<and> score head name \<le> 1"
    and read_headers: "read raw = Inr t \<Longrightarrow> distinct (t_headers t)"
    and read_square: "read raw = Inr t \<Longrightarrow> r \<in> set (t_rows t) \<Longrightarrow>
      distinct (dict_keys r) \<and> set (dict_keys r) = set (t_headers t)"
begin

lemma cell_present:
  assumes "read raw = Inr t" and "r \<in> set (t_rows t)" and "h \<in> set (t_headers t)"
  shows "dict_get r h = Some (cell r h)"
proof -
  have "h \<in> set (dict_keys r)" using read_square [OF assms(1,2)] assms(3) by blast
  then obtain v where "dict_get r h = Some v" by (metis map_of_eq_None_iff not_None_eq set_map)
  then show ?thesis by (simp add: dict_get_or_def)
qed

lemma no_other_cell:
  assumes "read raw = Inr t" and "r \<in> set (t_rows t)" and "h \<notin> set (t_headers t)"
  shows "dict_get r h = None"
  using read_square [OF assms(1,2)] assms(3) by (metis map_of_eq_None_iff set_map)

lemma contract:
  "0 \<le> score head name \<and> score head name \<le> 1
   \<and> (read raw = Inr t \<longrightarrow> distinct (t_headers t)
       \<and> (\<forall>r \<in> set (t_rows t). \<forall>h. dict_get r h = (if h \<in> set (t_headers t) then Some (cell r h) else None)))"
  using score_bounds read_headers cell_present no_other_cell by auto

end

text \<open>Scores.\<close>

lemma fl_unit: "0 \<le> x \<Longrightarrow> x \<le> 1 \<Longrightarrow> 0 \<le> fl x \<and> fl x \<le> 1"
  using fl_nonneg fl_le_one by blast

lemma agreement_nonneg: "0 \<le> snd (best_delimiter so lines)"
proof -
  have "0 \<le> snd (snd b) \<Longrightarrow> 0 \<le> snd (snd (fold (vote so lines) ds b))" for ds b
  proof (induction ds arbitrary: b)
    case (Cons d ds)
    have "0 \<le> snd (snd (vote so lines d b))"
      using Cons.prems by (simp add: vote_def count_agreement_def Let_def fl_nonneg)
    with Cons.IH show ?case by simp
  qed simp
  from this [of "(None, 0, 0)" CANDIDATE_DELIMITERS] show ?thesis
    by (auto simp: best_delimiter_def split: prod.split)
qed

lemma delimited_sniff_bounds: "0 \<le> delimited_sniff so head name \<and> delimited_sniff so head name \<le> 1"
proof -
  have cap: "0 \<le> min s (fl (97 / 100)) \<and> min s (fl (97 / 100)) \<le> 1" if "0 \<le> s" for s
    using that fl_unit [of "97 / 100"] by (auto simp: min_def)
  have up: "0 \<le> fl (x + y)" if "0 \<le> x" "0 \<le> y" for x y :: rat
    using that by (intro fl_nonneg) simp
  have "0 \<le> fl (fl (35 / 100) + fl (a / 2))" if "0 \<le> a" for a
    using that by (intro up fl_nonneg) simp_all
  moreover have "0 \<le> fl (fl (fl (35 / 100) + fl (a / 2)) + fl (1 / 10))" if "0 \<le> a" for a
    using that by (intro up fl_nonneg) simp_all
  ultimately show ?thesis
    using agreement_nonneg [of so] cap
    by (auto simp: delimited_sniff_def Let_def split: option.split prod.split) (metis snd_conv)+
qed

interpretation csv: table_parser "delimited_sniff so" "delimited_parse so" for so
proof
  show "0 \<le> delimited_sniff so head name \<and> delimited_sniff so head name \<le> 1" for head name
    by (rule delimited_sniff_bounds)
  show "distinct (t_headers t)" if "delimited_parse so raw = Inr t" for raw t
  proof -
    from that obtain d records where "table_of d (prefix BOM raw) (nonblank_rows records) = Inr t"
      by (rule delimited_parse_Inr)
    from table_of_Inr(1,2) [OF this refl] show ?thesis by simp
  qed
qed (rule delimited_parse_square)

interpretation excel: table_parser excel_sniff "excel_parse lw" for lw
proof
  show "0 \<le> excel_sniff head name \<and> excel_sniff head name \<le> 1" for head name
    using fl_unit by (simp add: excel_sniff_def)
  show "distinct (t_headers t)" if "excel_parse lw raw = Inr t" for raw t
    using that by (rule excel_parse_Inr) (metis sheet_table_Inr(1,2))
qed (rule excel_parse_square)

interpretation xml: table_parser "\<lambda>head. xml_sniff (utf8_ignore head)" "xml_parse et" for et
proof
  show "0 \<le> xml_sniff (utf8_ignore head) name \<and> xml_sniff (utf8_ignore head) name \<le> 1" for head name
    using fl_unit by (simp add: xml_sniff_def Let_def)
  show "distinct (t_headers t)" if "xml_parse et raw = Inr t" for raw t
    using that by (auto simp: xml_parse_def Let_def make_table_Inr split: option.splits if_splits prod.splits)
qed (rule xml_parse_square)

interpretation fixml: table_parser "\<lambda>head. fixml_sniff (utf8_ignore head)" "fixml_parse et" for et
proof
  show "0 \<le> fixml_sniff (utf8_ignore head) name \<and> fixml_sniff (utf8_ignore head) name \<le> 1" for head name
    using fl_unit by (simp add: fixml_sniff_def Let_def)
  show "distinct (t_headers t)" if "fixml_parse et raw = Inr t" for raw t
    using that by (auto simp: fixml_parse_def Let_def make_table_Inr split: option.splits if_splits)
qed (rule fixml_parse_square)

interpretation json: table_parser "\<lambda>head. json_sniff (utf8_ignore head)" "\<lambda>raw. json_parse (utf8_strict raw)"
proof
  show "0 \<le> json_sniff (utf8_ignore head) name \<and> json_sniff (utf8_ignore head) name \<le> 1" for head name
    using fl_unit by (simp add: json_sniff_def Let_def)
  show "distinct (t_headers t)" if "json_parse (utf8_strict raw) = Inr t" for raw t
    using that by (rule json_parse_Inr) simp
qed (use json_rows_square in blast)

interpretation email: table_parser email_sniff email_parse
proof
  show "0 \<le> email_sniff head name \<and> email_sniff head name \<le> 1" for head name
    using fl_unit by (simp add: email_sniff_def Let_def)
  show "distinct (t_headers t)" if "email_parse raw = Inr t" for raw t
    by (simp add: email_parse_Inr(1) [OF that] EMAIL_HEADERS_def)
qed (rule email_parse_square)

section \<open>Properties\<close>

text \<open>C26. Every registered parser scores in \<open>[0, 1]\<close>, and what it reads is a table: no header twice, and each
  row has a cell for each header and for nothing else.\<close>

theorem parsers_keep_contract:
  assumes "p \<in> set (default_parsers so lw et)"
  shows "0 \<le> p_sniff p head name \<and> p_sniff p head name \<le> 1
    \<and> (p_parse p raw = Inr t \<longrightarrow> distinct (t_headers t)
       \<and> (\<forall>r \<in> set (t_rows t). \<forall>h. dict_get r h = (if h \<in> set (t_headers t) then Some (cell r h) else None)))"
  using assms csv.contract excel.contract xml.contract fixml.contract json.contract email.contract
  unfolding default_parsers_def by auto

theorem parsers_keep_contract_witness:
  "distinct (t_headers sample_extract_table)
   \<and> list_all (\<lambda>r. dict_get r ''Px'' = Some (cell r ''Px'')) (t_rows sample_extract_table)"
proof -
  have p: "default_parsers uniq (\<lambda>_. None) (\<lambda>_. None) ! 0 \<in> set (default_parsers uniq (\<lambda>_. None) (\<lambda>_. None))"
    by (simp add: default_parsers_def)
  have "p_parse (default_parsers uniq (\<lambda>_. None) (\<lambda>_. None) ! 0) sample_extract = Inr sample_extract_table"
    by (simp add: default_parsers_def sample_extract_parses)
  with parsers_keep_contract [OF p, of _ _ sample_extract sample_extract_table]
  show ?thesis by (auto simp: list_all_iff) (simp add: sample_extract_table_def)+
qed

text \<open>What decides about JSON, XML and FIXML: the text the head decodes to, from its first character on.\<close>

definition head_text :: "string \<Rightarrow> string" where
  "head_text bytes = lstrip (utf8_ignore (take SNIFF_BYTES bytes))"

lemma markup_scores:
  assumes "lstrip (utf8_ignore head) = c # s" and "c \<in> {CHR ''<'', CHR ''{'', CHR ''[''}"
  shows "delimited_sniff so head name = 0" and "excel_sniff head name = 0" and "email_sniff head name = 0"
proof -
  show "delimited_sniff so head name = 0"
  proof (cases "utf8_strict head")
    case None
    then show ?thesis by (simp add: delimited_sniff_def)
  next
    case (Some t)
    with assms show ?thesis by (auto simp: delimited_sniff_def Let_def utf8_ignore_strict)
  qed
  have "\<not> prefix XLSX_MAGIC head"
  proof
    assume "prefix XLSX_MAGIC head"
    then obtain w where "head = CHR ''P'' # CHR ''K'' # w" by (auto simp: XLSX_MAGIC_def prefix_def)
    moreover have "chr 239 \<noteq> CHR ''P''" "chr 80 = CHR ''P''" by code_simp+
    ultimately have "lstrip (utf8_ignore head) = CHR ''P'' # tl (utf8_ignore head)"
      by (simp add: utf8_ignore_def drop_bom_def BOM_def utf8_tail_def utf8_need_def utf8_value_def text_char_def
          List.map_filter_simps lstrip_def is_space_def)
    with assms show False by auto
  qed
  then show "excel_sniff head name = 0" by (simp add: excel_sniff_def)
  show "email_sniff head name = 0" using assms by (auto simp: email_sniff_def Let_def)
qed

lemma contains_mono: "contains t s \<Longrightarrow> contains t (s @ u)"
  unfolding contains_iff by (metis sublist_append_rightI sublist_order.order.trans)

lemma fixml_head_longer:
  assumes "contains m (upper (take 2000 body))"
  shows "contains m (upper (take 4000 body))"
proof -
  have "take 4000 body = take 2000 body @ take 2000 (drop 2000 body)"
    using take_add [of 2000 2000 body] by simp
  then have "upper (take 4000 body) = upper (take 2000 body) @ upper (take 2000 (drop 2000 body))"
    by (simp add: upper_def)
  with assms contains_mono show ?thesis by simp
qed

lemma fl_pos_literals:
  "0 < fl (85 / 100)" "0 < fl (92 / 100)" "0 < fl (3 / 10)" "fl (3 / 10) < fl (98 / 100)" "0 < fl (95 / 100)"
  by code_simp+



section \<open>Where content does not decide\<close>

text \<open>The name decides about a FIX report without its envelope.\<close>

definition bare_report :: string where
  "bare_report = ''<Position/>''"

lemma bare_report_head: "take SNIFF_BYTES bare_report = bare_report"
  by (simp add: bare_report_def SNIFF_BYTES_def)

lemma bare_report_scores:
  "lstrip (utf8_ignore bare_report) = CHR ''<'' # ''Position/>''"
  "xml_sniff (utf8_ignore bare_report) ''a.xml'' = fl (92 / 100)" "xml_sniff (utf8_ignore bare_report) ''a.txt'' = fl (85 / 100)"
  "fixml_sniff (utf8_ignore bare_report) n = fl (9 / 10)" "json_sniff (utf8_ignore bare_report) n = 0"
  "fl (85 / 100) < fl (9 / 10)" "fl (9 / 10) < fl (92 / 100)" "0 < fl (9 / 10)"
  by code_simp+

lemma bare_report_by_name:
  "\<exists>p sc. sniff (default_parsers so lw et) bare_report ''a.xml'' = Inr (p, sc) \<and> p_format p = ''XML''"
  "\<exists>p sc. sniff (default_parsers so lw et) bare_report ''a.txt'' = Inr (p, sc) \<and> p_format p = ''FIXML''"
proof -
  let ?ps = "default_parsers so lw et"
  note zero = markup_scores [OF bare_report_scores(1)]
  have some: "\<exists>p sc. sniff ?ps bare_report n = Inr (p, sc)" for n
    using sniff_total [of "?ps ! 3" ?ps bare_report n] bare_report_scores(4,8)
    by (auto simp: default_parsers_def bare_report_head)
  from some [of "''a.xml''"] obtain p sc where x: "sniff ?ps bare_report ''a.xml'' = Inr (p, sc)" by blast
  from sniff_Inr [OF x] zero bare_report_scores have "p_format p = ''XML''"
    by (auto simp: default_parsers_def bare_report_head)
  with x show "\<exists>p sc. sniff ?ps bare_report ''a.xml'' = Inr (p, sc) \<and> p_format p = ''XML''" by blast
  from some [of "''a.txt''"] obtain p sc where t: "sniff ?ps bare_report ''a.txt'' = Inr (p, sc)" by blast
  from sniff_Inr [OF t] zero bare_report_scores have "p_format p = ''FIXML''"
    by (auto simp: default_parsers_def bare_report_head)
  with t show "\<exists>p sc. sniff ?ps bare_report ''a.txt'' = Inr (p, sc) \<and> p_format p = ''FIXML''" by blast
qed

text \<open>An extract in Latin-1, which the delimited parser reads, is recognised by no parser.\<close>

definition latin1_extract :: string where
  "latin1_extract = ''Id,Name'' @ [NL] @ ''T1,Caf'' @ [chr 233] @ [NL]"

lemma latin1_scores:
  "take SNIFF_BYTES latin1_extract = latin1_extract" "utf8_strict latin1_extract = None"
  "excel_sniff latin1_extract ''a.csv'' = 0" "xml_sniff (utf8_ignore latin1_extract) ''a.csv'' = 0"
  "fixml_sniff (utf8_ignore latin1_extract) ''a.csv'' = 0" "json_sniff (utf8_ignore latin1_extract) ''a.csv'' = 0"
  "email_sniff latin1_extract ''a.csv'' = 0"
  by (simp add: latin1_extract_def SNIFF_BYTES_def) code_simp+

lemma latin1_extract_unrecognised:
  "sniff (default_parsers so lw et) latin1_extract ''a.csv'' = Inl (ParseError (''no parser recognised '' @ repr ''a.csv''))"
  "\<exists>t. delimited_parse uniq latin1_extract = Inr t"
proof -
  let ?ps = "default_parsers so lw et"
  have zero: "p_sniff q (take SNIFF_BYTES latin1_extract) ''a.csv'' = 0" if "q \<in> set ?ps" for q
    using that latin1_scores by (auto simp: default_parsers_def delimited_sniff_def)
  show "sniff ?ps latin1_extract ''a.csv'' = Inl (ParseError (''no parser recognised '' @ repr ''a.csv''))"
  proof (cases "sniff ?ps latin1_extract ''a.csv''")
    case (Inr x)
    obtain p sc where "x = (p, sc)" by (cases x)
    with sniff_Inr [of ?ps latin1_extract "''a.csv''" p sc] Inr zero show ?thesis by auto
  next
    case (Inl e)
    with sniff_Inl [OF Inl] show ?thesis by (simp add: default_parsers_def)
  qed
  have "\<not> (case delimited_parse uniq latin1_extract of Inl e \<Rightarrow> True | Inr t \<Rightarrow> False)" by code_simp
  then show "\<exists>t. delimited_parse uniq latin1_extract = Inr t" by (cases "delimited_parse uniq latin1_extract") auto
qed

end
