(* ===== verification/ReconStub.thy ===== *)
theory ReconStub
  imports MessageBus Values PyJson
begin

text \<open>
  The reconciliation engine: \<open>python/src/reconstub/main.py\<close>. \<open>reconcile\<close> joins two lists of
  canonical rows and lists the breaks; it may raise, since the decimal arithmetic of the comparison
  does. The handler's state is the set of voided assignments and the report files. Reading Parquet is
  a parameter (a path to its rows, if it exists), and so is the clock.
\<close>

definition JOIN_KEYS :: "string list" where
  "JOIN_KEYS = [''account_id'', ''instrument_id'', ''trade_id'']"

definition COMPARED_FIELDS :: "string list" where
  "COMPARED_FIELDS = [''quantity'', ''trade_price'', ''settlement_price'', ''gross_amount'', ''net_amount'',
     ''market_value'', ''currency'']"

text \<open>\<open>Decimal("0.01")\<close>.\<close>

definition TOLERANCE :: decimal where
  "TOLERANCE = Num False 1 (-2)"

datatype break_kind = MISSING_SIDE_1 | MISSING_SIDE_2 | VALUE_MISMATCH

record recon_break =
  br_kind :: break_kind
  br_key :: string
  br_field :: string
  br_side_1 :: string
  br_side_2 :: string

definition row_value :: "record_row \<Rightarrow> string \<Rightarrow> cvalue" where
  "row_value r f = dict_get_or r f Null"

definition join_key :: "record_row \<Rightarrow> string" where
  "join_key r = join ''|'' (map (\<lambda>k. let v = row_value r k in if value_true v then value_str v else []) JOIN_KEYS)"

definition as_decimal :: "cvalue \<Rightarrow> decimal option" where
  "as_decimal v = (if v = Null \<or> v = Text [] then None else decimal_of (value_str v))"

text \<open>\<open>"" if v is None else str(v)\<close>.\<close>

definition shown :: "cvalue \<Rightarrow> string" where
  "shown v = (if v = Null then [] else value_str v)"

definition missing :: "break_kind \<Rightarrow> string \<Rightarrow> recon_break" where
  "missing kind k = \<lparr>br_kind = kind, br_key = k, br_field = [], br_side_1 = [], br_side_2 = []\<rparr>"

definition mismatch :: "string \<Rightarrow> string \<Rightarrow> string \<Rightarrow> string \<Rightarrow> recon_break" where
  "mismatch k f a b = \<lparr>br_kind = VALUE_MISMATCH, br_key = k, br_field = f, br_side_1 = a, br_side_2 = b\<rparr>"

section \<open>Comparing\<close>

text \<open>\<open>abs(da - db) > TOLERANCE\<close>.\<close>

definition apart :: "decimal \<Rightarrow> decimal \<Rightarrow> bool result" where
  "apart da db =
     res_bind (dec_sub da db) (\<lambda>d. res_bind (dec_abs d) (\<lambda>m.
       res_bind (dec_le m TOLERANCE) (\<lambda>le. Inr (\<not> le))))"

definition compare_field :: "string \<Rightarrow> record_row \<Rightarrow> record_row \<Rightarrow> string \<Rightarrow> recon_break option result" where
  "compare_field k a b f =
     (let av = row_value a f; bv = row_value b f in
      if av = Null \<and> bv = Null then Inr None
      else case (as_decimal av, as_decimal bv) of
          (Some da, Some db) \<Rightarrow>
            res_bind (apart da db)
              (\<lambda>far. Inr (if far then Some (mismatch k f (value_str av) (value_str bv)) else None))
        | _ \<Rightarrow> Inr (if shown av \<noteq> shown bv then Some (mismatch k f (shown av) (shown bv)) else None))"

definition compare_rows :: "string \<Rightarrow> record_row \<Rightarrow> record_row \<Rightarrow> recon_break list result" where
  "compare_rows k a b =
     res_bind (res_map (compare_field k a b) COMPARED_FIELDS) (\<lambda>bs. Inr (List.map_filter id bs))"

definition by_key :: "record_row list \<Rightarrow> (string, record_row) dict" where
  "by_key rs = dict_of (map (\<lambda>r. (join_key r, r)) rs)"

definition only_in :: "(string, record_row) dict \<Rightarrow> (string, record_row) dict \<Rightarrow> string list" where
  "only_in l r = sort (filter (\<lambda>k. k \<notin> set (dict_keys r)) (dict_keys l))"

definition in_both :: "(string, record_row) dict \<Rightarrow> (string, record_row) dict \<Rightarrow> string list" where
  "in_both l r = sort (filter (\<lambda>k. k \<in> set (dict_keys r)) (dict_keys l))"

definition compare_at :: "(string, record_row) dict \<Rightarrow> (string, record_row) dict \<Rightarrow> string \<Rightarrow> recon_break list result" where
  "compare_at l r k = compare_rows k (dict_get_or l k []) (dict_get_or r k [])"

definition reconcile :: "record_row list \<Rightarrow> record_row list \<Rightarrow> recon_break list result" where
  "reconcile side_1 side_2 =
     (let l = by_key side_1; r = by_key side_2 in
      res_bind (res_map (compare_at l r) (in_both l r)) (\<lambda>bs.
        Inr (map (missing MISSING_SIDE_2) (only_in l r) @ map (missing MISSING_SIDE_1) (only_in r l)
             @ concat bs)))"

section \<open>Assignments\<close>

record report =
  rp_assignment_id :: json
  rp_client_id :: json
  rp_domain :: json
  rp_value_date :: json
  rp_side_1_rows :: nat
  rp_side_2_rows :: nat
  rp_matched :: nat
  rp_breaks :: "recon_break list"
  rp_superseded :: json

primrec kind_text :: "break_kind \<Rightarrow> string" where
  "kind_text MISSING_SIDE_1 = ''MISSING_SIDE_1''"
| "kind_text MISSING_SIDE_2 = ''MISSING_SIDE_2''"
| "kind_text VALUE_MISMATCH = ''VALUE_MISMATCH''"

definition report_dict :: "string \<Rightarrow> report \<Rightarrow> json" where
  "report_dict now rp = JObj
     [(''assignment_id'', rp_assignment_id rp), (''client_id'', rp_client_id rp), (''domain'', rp_domain rp),
      (''value_date'', rp_value_date rp), (''generated_at'', JStr now),
      (''side_1_rows'', JInt (int (rp_side_1_rows rp))), (''side_2_rows'', JInt (int (rp_side_2_rows rp))),
      (''matched'', JInt (int (rp_matched rp))), (''break_count'', JInt (int (length (rp_breaks rp)))),
      (''supersedes'', rp_superseded rp),
      (''breaks'', JArr (map (\<lambda>b. JObj
         [(''kind'', JStr (kind_text (br_kind b))), (''key'', JStr (br_key b)), (''field'', JStr (br_field b)),
          (''side_1'', JStr (br_side_1 b)), (''side_2'', JStr (br_side_2 b))]) (take 500 (rp_breaks rp))))]"

text \<open>\<open>message[key]\<close> and \<open>message.get(key, "")\<close> on a decoded value.\<close>

fun item :: "json \<Rightarrow> string \<Rightarrow> json result" where
  "item (JObj kvs) k = (case dict_get kvs k of None \<Rightarrow> Inl KeyError | Some v \<Rightarrow> Inr v)"
| "item _ k = Inl TypeError"

fun item_or_empty :: "json \<Rightarrow> string \<Rightarrow> json result" where
  "item_or_empty (JObj kvs) k = Inr (dict_get_or kvs k (JStr []))"
| "item_or_empty _ k = Inl AttributeError"

type_synonym parquet = "string \<Rightarrow> record_row list option"

fun load_canonical :: "parquet \<Rightarrow> json \<Rightarrow> record_row list result" where
  "load_canonical parquet (JStr uri) =
     (if \<not> prefix ''fs://'' uri then Inl ValueError
      else case parquet (drop 5 uri) of None \<Rightarrow> Inl FileNotFound | Some rs \<Rightarrow> Inr rs)"
| "load_canonical parquet _ = Inl AttributeError"

definition report_file :: "report \<Rightarrow> string" where
  "report_file rp =
     json_str (rp_client_id rp) @ ''_'' @ json_str (rp_domain rp) @ ''_'' @ json_str (rp_value_date rp) @ ''.json''"

definition matched_keys :: "record_row list \<Rightarrow> record_row list \<Rightarrow> nat" where
  "matched_keys side_1 side_2 =
     length (filter (\<lambda>k. k \<in> set (map join_key side_2)) (uniq (map join_key side_1)))"

definition run_assignment :: "parquet \<Rightarrow> json \<Rightarrow> report result" where
  "run_assignment parquet message =
     res_bind (item message ''side1'') (\<lambda>m1. res_bind (item m1 ''canonicalUri'') (\<lambda>u1.
     res_bind (load_canonical parquet u1) (\<lambda>side_1.
     res_bind (item message ''side2'') (\<lambda>m2. res_bind (item m2 ''canonicalUri'') (\<lambda>u2.
     res_bind (load_canonical parquet u2) (\<lambda>side_2.
     res_bind (item message ''assignmentId'') (\<lambda>aid. res_bind (item message ''clientId'') (\<lambda>cid.
     res_bind (item_or_empty message ''domain'') (\<lambda>dom. res_bind (item message ''valueDate'') (\<lambda>vdate.
     res_bind (item_or_empty message ''supersedes'') (\<lambda>sup.
     res_bind (reconcile side_1 side_2) (\<lambda>breaks.
       Inr \<lparr>rp_assignment_id = aid, rp_client_id = cid, rp_domain = dom, rp_value_date = vdate,
            rp_side_1_rows = length side_1, rp_side_2_rows = length side_2,
            rp_matched = matched_keys side_1 side_2, rp_breaks = breaks, rp_superseded = sup\<rparr>))))))))))))"

section \<open>The consumer\<close>

record recon_state =
  rs_voided :: "json list"
  rs_files :: "(string, json) dict"

definition no_reports :: recon_state where
  "no_reports = \<lparr>rs_voided = [], rs_files = []\<rparr>"

text \<open>A list or a dictionary cannot be a member of a set.\<close>

definition hashable :: "json \<Rightarrow> json result" where
  "hashable v = (if is_arr v \<or> is_obj v then Inl TypeError else Inr v)"

definition handle_assigned :: "parquet \<Rightarrow> string \<Rightarrow> json \<Rightarrow> recon_state \<Rightarrow> recon_state result" where
  "handle_assigned parquet now payload st =
     res_bind (item payload ''assignmentId'') (\<lambda>i. res_bind (hashable i) (\<lambda>aid.
       if aid \<in> set (rs_voided st) then Inr st
       else res_bind (run_assignment parquet payload) (\<lambda>rp.
         Inr (st\<lparr>rs_files := dict_set (report_file rp) (report_dict now rp) (rs_files st)\<rparr>))))"

definition handle :: "parquet \<Rightarrow> string \<Rightarrow> string message \<Rightarrow> recon_state \<Rightarrow> recon_state result" where
  "handle parquet now m st =
     (case json_loads (msg_value m) of
        None \<Rightarrow> Inl ValueError
      | Some payload \<Rightarrow>
          if msg_topic m = TOPIC_BERTH_SUPERSEDED then
            res_bind (item payload ''assignmentId'') (\<lambda>i. res_bind (hashable i) (\<lambda>aid.
              Inr (st\<lparr>rs_voided := List.insert aid (rs_voided st)\<rparr>)))
          else handle_assigned parquet now payload st)"

text \<open>\<open>main\<close>: the two topics, in this order, from an empty state.\<close>

definition recon_consume :: "parquet \<Rightarrow> string \<Rightarrow> string memory_bus \<Rightarrow> recon_state result" where
  "recon_consume parquet now b =
     consume b [TOPIC_BERTH_ASSIGNED, TOPIC_BERTH_SUPERSEDED]
       (\<lambda>m s. res_bind s (handle parquet now m)) (Inr no_reports)"

section \<open>Comparing two values\<close>

lemma num_digits_0: "num_digits 0 = 1"
  by (simp add: num_digits_def dec_str.simps)

lemma ctx_fix_0: "ctx_fix s 0 e = Inr (Num s 0 e)"
  by (simp add: ctx_fix_def num_digits_0 prec_def)

lemma apart_same: "apart d d = (if is_num d then Inr False else Inl InvalidOperation)"
proof (cases d)
  case (Num s c e)
  have "dec_sub d d = Inr (Num False 0 e)"
    by (simp add: dec_sub_def Num nan_or_def Let_def ctx_fix_0)
  then show ?thesis
    by (simp add: apart_def Num ctx_fix_0 dec_le_def TOLERANCE_def)
      (simp add: pow10_def)
qed (auto simp: apart_def dec_sub_def nan_or_def dec_le_def)

lemma ctx_fix_any_sign:
  assumes "\<And>d f. g (Num s d f) = g (Num t d f)"
  shows "res_bind (ctx_fix s c e) g = res_bind (ctx_fix t c e) g"
  using assms unfolding ctx_fix_def Let_def by (simp split: prod.split)

lemma abs_ctx_fix: "res_bind (ctx_fix s c e) dec_abs = res_bind (ctx_fix t c e) dec_abs"
  by (rule ctx_fix_any_sign) simp

lemma sub_abs_sym: "res_bind (dec_sub a b) dec_abs = res_bind (dec_sub b a) dec_abs"
proof -
  have sym: "res_bind (sub_core a b) dec_abs = res_bind (sub_core b a) dec_abs"
  proof (cases a)
    case a: (Num s c e)
    show ?thesis
    proof (cases b)
      case b: (Num t d f)
      let ?x = "signed s c * 10 ^ nat (e - min e f) - signed t d * 10 ^ nat (f - min e f)"
      have "sub_core a b = ctx_fix (?x < 0) \<bar>?x\<bar> (min e f)"
        "sub_core b a = ctx_fix (- ?x < 0) \<bar>?x\<bar> (min e f)"
        by (simp_all add: a b Let_def min.commute abs_minus_commute)
      then show ?thesis using abs_ctx_fix by metis
    qed (simp_all add: a)
  next
    case (Infinity s)
    then show ?thesis by (cases b) auto
  qed (cases b; simp)
  show ?thesis
    using sym by (auto simp: dec_sub_def nan_or_def)
qed

lemma res_bind_assoc: "res_bind (res_bind r f) g = res_bind r (\<lambda>x. res_bind (f x) g)"
  by (cases r) simp_all

lemma apart_abs: "apart a b = res_bind (res_bind (dec_sub a b) dec_abs)
    (\<lambda>m. res_bind (dec_le m TOLERANCE) (\<lambda>le. Inr (\<not> le)))"
  by (simp add: apart_def res_bind_assoc)

lemma apart_sym: "apart a b = apart b a"
  unfolding apart_abs using sub_abs_sym [of a b] by simp

text \<open>At the scale of the canonical files the comparison is exact.\<close>

lemma signed_val: "dec_val (Num s c e) = of_int (signed s c) * pow10 e"
  by (simp add: signed_def)

lemma dec_str_less: "0 \<le> n \<Longrightarrow> n < 10 ^ k \<Longrightarrow> length (dec_str n) \<le> max 1 k"
proof (induction n arbitrary: k rule: dec_str.induct)
  case (1 n)
  show ?case
  proof (cases "n < 10")
    case True
    then show ?thesis by (subst dec_str.simps) simp
  next
    case False
    with 1 obtain j where k: "k = Suc j" by (cases k) auto
    have "n div 10 < 10 ^ j" using 1 by (simp add: k)
    then have "length (dec_str (n div 10)) \<le> max 1 j" using 1 False by simp
    moreover have "1 \<le> j" using False 1 by (cases j) (auto simp: k)
    ultimately show ?thesis using False by (subst dec_str.simps) (simp add: k)
  qed
qed

lemma ctx_fix_exact:
  assumes "0 \<le> c" "c < 10 ^ 28" "e + 28 \<le> 999999"
  shows "ctx_fix s c e = Inr (Num s c e)"
proof -
  have "num_digits c \<le> 28" using dec_str_less [OF assms(1,2)] by (simp add: num_digits_def)
  then show ?thesis using assms(3) by (intro ctx_fix_small) (simp_all add: prec_def)
qed

lemma apart_exact:
  assumes "0 \<le> c" "c < 10 ^ 27" "0 \<le> d" "d < 10 ^ 27"
  shows "apart (Num s c (-8)) (Num t d (-8))
    = Inr (1 / 100 < \<bar>dec_val (Num s c (-8)) - dec_val (Num t d (-8))\<bar>)"
proof -
  define x where "x = signed s c - signed t d"
  have x: "\<bar>x\<bar> < 10 ^ 28" using assms by (auto simp: x_def signed_def)
  have sub: "dec_sub (Num s c (-8)) (Num t d (-8)) = Inr (Num (x < 0) \<bar>x\<bar> (-8))"
    using ctx_fix_exact [of "\<bar>x\<bar>" "-8"] x by (simp add: dec_sub_def nan_or_def Let_def x_def)
  have ab: "dec_abs (Num (x < 0) \<bar>x\<bar> (-8)) = Inr (Num False \<bar>x\<bar> (-8))"
    using ctx_fix_exact [of "\<bar>x\<bar>" "-8"] x by simp
  have "dec_val (Num s c (-8)) - dec_val (Num t d (-8)) = of_int x * pow10 (-8)"
    by (simp add: signed_val x_def algebra_simps del: dec_val.simps)
  then have "\<bar>dec_val (Num s c (-8)) - dec_val (Num t d (-8))\<bar> = of_int \<bar>x\<bar> * pow10 (-8)"
    by (simp add: abs_mult abs_of_pos del: dec_val.simps)
  moreover have "apart (Num s c (-8)) (Num t d (-8)) = Inr (\<not> of_int \<bar>x\<bar> * pow10 (-8) \<le> 1 / 100)"
    unfolding apart_def sub res_bind_simps ab
    by (simp add: dec_le_def TOLERANCE_def) (simp add: pow10_def)
  ultimately show ?thesis by (simp add: not_le del: dec_val.simps)
qed

section \<open>The join\<close>

lemma by_key_keys: "set (dict_keys (by_key rs)) = join_key ` set rs" "distinct (dict_keys (by_key rs))"
  unfolding by_key_def using dict_of_keys [of "map (\<lambda>r. (join_key r, r)) rs"] by (simp_all add: image_image)

lemma only_in_set: "set (only_in l r) = set (dict_keys l) - set (dict_keys r)"
  by (auto simp: only_in_def)

lemma in_both_set: "set (in_both l r) = set (dict_keys l) \<inter> set (dict_keys r)"
  by (auto simp: in_both_def)

lemma only_in_sorted: "distinct (dict_keys l) \<Longrightarrow> sorted (only_in l r) \<and> distinct (only_in l r)"
  by (simp add: only_in_def)

lemma in_both_comm:
  assumes "distinct (dict_keys l)" "distinct (dict_keys r)"
  shows "in_both l r = in_both r l"
  using assms by (intro sorted_distinct_set_unique) (auto simp: in_both_def)

lemma compare_field_kind: "compare_field k a b f = Inr (Some x) \<Longrightarrow> br_kind x = VALUE_MISMATCH \<and> br_key x = k"
  by (auto simp: compare_field_def mismatch_def Let_def res_bind_Inr_iff split: if_splits option.splits)

lemma in_map_filter_id: "x \<in> set (List.map_filter id xs) \<longleftrightarrow> Some x \<in> set xs"
  by (induction xs) (auto simp: List.map_filter_simps split: option.splits)

lemma res_map_at:
  assumes "res_map f xs = Inr ys" and "x \<in> set xs"
  obtains y where "y \<in> set ys" "f x = Inr y"
proof -
  obtain i where "i < length xs" "x = xs ! i" using assms(2) by (metis in_set_conv_nth)
  then show ?thesis
    using assms(1) that [of "ys ! i"] by (simp add: res_map_Inr_iff list_all2_conv_all_nth)
qed

lemma compare_rows_kind:
  assumes "compare_rows k a b = Inr bs" and "x \<in> set bs"
  shows "br_kind x = VALUE_MISMATCH \<and> br_key x = k"
proof -
  obtain os where "res_map (compare_field k a b) COMPARED_FIELDS = Inr os" "bs = List.map_filter id os"
    using assms(1) by (auto simp: compare_rows_def res_bind_Inr_iff)
  then obtain f where "compare_field k a b f = Inr (Some x)"
    using assms(2) unfolding in_map_filter_id by (metis in_map_filter_id res_map_mem)
  then show ?thesis by (rule compare_field_kind)
qed

lemma reconcile_parts:
  assumes "reconcile s1 s2 = Inr bs"
  obtains cs where "res_map (compare_at (by_key s1) (by_key s2)) (in_both (by_key s1) (by_key s2)) = Inr cs"
    "bs = map (missing MISSING_SIDE_2) (only_in (by_key s1) (by_key s2))
        @ map (missing MISSING_SIDE_1) (only_in (by_key s2) (by_key s1)) @ concat cs"
    "\<forall>x \<in> set (concat cs). br_kind x = VALUE_MISMATCH"
proof -
  obtain cs where cs: "res_map (compare_at (by_key s1) (by_key s2)) (in_both (by_key s1) (by_key s2)) = Inr cs"
    "bs = map (missing MISSING_SIDE_2) (only_in (by_key s1) (by_key s2))
        @ map (missing MISSING_SIDE_1) (only_in (by_key s2) (by_key s1)) @ concat cs"
    using assms by (auto simp: reconcile_def Let_def res_bind_Inr_iff)
  have "br_kind x = VALUE_MISMATCH" if x: "x \<in> set (concat cs)" for x
  proof -
    obtain c where c: "c \<in> set cs" "x \<in> set c" using x unfolding set_concat by blast
    obtain k where "compare_at (by_key s1) (by_key s2) k = Inr c" using res_map_mem [OF cs(1) c(1)] by blast
    then show ?thesis using compare_rows_kind c(2) unfolding compare_at_def by blast
  qed
  with cs show ?thesis by (intro that) auto
qed

definition of_kind :: "break_kind \<Rightarrow> recon_break list \<Rightarrow> recon_break list" where
  "of_kind kind bs = filter (\<lambda>b. br_kind b = kind) bs"

lemma of_kind_missing: "of_kind kind (map (missing kind') ks) = (if kind = kind' then map (missing kind') ks else [])"
  by (induction ks) (auto simp: of_kind_def missing_def)

lemma of_kind_append [simp]: "of_kind kind (xs @ ys) = of_kind kind xs @ of_kind kind ys"
  by (simp add: of_kind_def)

lemma of_kind_const: "\<forall>x \<in> set bs. br_kind x = kind' \<Longrightarrow> of_kind kind bs = (if kind = kind' then bs else [])"
  by (induction bs) (auto simp: of_kind_def)

lemma reconcile_of_kind:
  assumes "reconcile s1 s2 = Inr bs"
  shows "of_kind MISSING_SIDE_2 bs = map (missing MISSING_SIDE_2) (only_in (by_key s1) (by_key s2))"
    and "of_kind MISSING_SIDE_1 bs = map (missing MISSING_SIDE_1) (only_in (by_key s2) (by_key s1))"
proof -
  obtain cs where "bs = map (missing MISSING_SIDE_2) (only_in (by_key s1) (by_key s2))
      @ map (missing MISSING_SIDE_1) (only_in (by_key s2) (by_key s1)) @ concat cs"
    "\<forall>x \<in> set (concat cs). br_kind x = VALUE_MISMATCH"
    by (rule reconcile_parts [OF assms])
  then show "of_kind MISSING_SIDE_2 bs = map (missing MISSING_SIDE_2) (only_in (by_key s1) (by_key s2))"
    "of_kind MISSING_SIDE_1 bs = map (missing MISSING_SIDE_1) (only_in (by_key s2) (by_key s1))"
    using of_kind_const [of "concat cs" VALUE_MISMATCH] by (simp_all add: of_kind_missing)
qed

section \<open>Swapping the sides\<close>

primrec flip_kind :: "break_kind \<Rightarrow> break_kind" where
  "flip_kind MISSING_SIDE_1 = MISSING_SIDE_2"
| "flip_kind MISSING_SIDE_2 = MISSING_SIDE_1"
| "flip_kind VALUE_MISMATCH = VALUE_MISMATCH"

definition flip :: "recon_break \<Rightarrow> recon_break" where
  "flip b = b\<lparr>br_kind := flip_kind (br_kind b), br_side_1 := br_side_2 b, br_side_2 := br_side_1 b\<rparr>"

lemma flip_missing [simp]:
  "flip (missing MISSING_SIDE_1 k) = missing MISSING_SIDE_2 k"
  "flip (missing MISSING_SIDE_2 k) = missing MISSING_SIDE_1 k"
  by (simp_all add: flip_def missing_def)

lemma flip_mismatch [simp]: "flip (mismatch k f a b) = mismatch k f b a"
  by (simp add: flip_def mismatch_def)

definition res_fmap :: "('a \<Rightarrow> 'b) \<Rightarrow> 'a result \<Rightarrow> 'b result" where
  "res_fmap f r = res_bind r (\<lambda>x. Inr (f x))"

lemma res_map_fmap: "res_map (\<lambda>x. res_fmap g (f x)) xs = res_fmap (map g) (res_map f xs)"
proof (induction xs)
  case (Cons x xs)
  then show ?case by (cases "f x"; cases "res_map f xs") (simp_all add: res_fmap_def)
qed (simp add: res_fmap_def)

lemma compare_field_flip: "compare_field k b a f = res_fmap (map_option flip) (compare_field k a b f)"
proof -
  have "res_bind (apart y x) (\<lambda>far. Inr (if far then Some (mismatch k f v u) else None))
      = res_fmap (map_option flip) (res_bind (apart x y) (\<lambda>far. Inr (if far then Some (mismatch k f u v) else None)))"
    for x y u v
    unfolding apart_sym [of y x] by (cases "apart x y") (simp_all add: res_fmap_def)
  note number = this
  show ?thesis
  proof (cases "as_decimal (row_value a f) = None \<or> as_decimal (row_value b f) = None
      \<or> (row_value a f = Null \<and> row_value b f = Null)")
    case True
    then show ?thesis
      by (cases "as_decimal (row_value a f)"; cases "as_decimal (row_value b f)")
        (simp_all add: compare_field_def Let_def res_fmap_def)
  next
    case False
    then obtain x y where "as_decimal (row_value a f) = Some x" "as_decimal (row_value b f) = Some y" by auto
    with False show ?thesis unfolding compare_field_def by (auto simp: Let_def number [of y x])
  qed
qed

lemma map_filter_flip: "List.map_filter id (map (map_option flip) os) = map flip (List.map_filter id os)"
  by (induction os) (auto simp: List.map_filter_simps split: option.splits)

lemma compare_rows_flip: "compare_rows k b a = res_fmap (map flip) (compare_rows k a b)"
proof -
  have "compare_field k b a = (\<lambda>f. res_fmap (map_option flip) (compare_field k a b f))"
    using compare_field_flip by blast
  then have "res_map (compare_field k b a) COMPARED_FIELDS
      = res_fmap (map (map_option flip)) (res_map (compare_field k a b) COMPARED_FIELDS)"
    by (simp only: res_map_fmap)
  then show ?thesis
    by (cases "res_map (compare_field k a b) COMPARED_FIELDS")
      (simp_all add: compare_rows_def res_fmap_def map_filter_flip)
qed

lemma compare_all_flip:
  "res_map (compare_at (by_key s2) (by_key s1)) (in_both (by_key s2) (by_key s1))
   = res_fmap (map (map flip)) (res_map (compare_at (by_key s1) (by_key s2)) (in_both (by_key s1) (by_key s2)))"
proof -
  have "compare_at (by_key s2) (by_key s1) = (\<lambda>k. res_fmap (map flip) (compare_at (by_key s1) (by_key s2) k))"
    unfolding compare_at_def by (intro ext compare_rows_flip)
  moreover have "in_both (by_key s2) (by_key s1) = in_both (by_key s1) (by_key s2)"
    using in_both_comm by_key_keys(2) by blast
  ultimately show ?thesis by (simp only: res_map_fmap)
qed

section \<open>Comparing a side with itself\<close>

lemma res_map_uniform:
  "(\<And>x. x \<in> set xs \<Longrightarrow> f x = (if P x then Inr (g x) else Inl e)) \<Longrightarrow>
   res_map f xs = (if \<forall>x \<in> set xs. P x then Inr (map g xs) else Inl e)"
  by (induction xs) auto

text \<open>No compared value spells an infinity or a NaN.\<close>

definition comparable :: "record_row \<Rightarrow> bool" where
  "comparable r \<longleftrightarrow> (\<forall>f \<in> set COMPARED_FIELDS. case as_decimal (row_value r f) of None \<Rightarrow> True | Some d \<Rightarrow> is_num d)"

lemma compare_field_same:
  "compare_field k a a f = (if (case as_decimal (row_value a f) of None \<Rightarrow> True | Some d \<Rightarrow> is_num d)
     then Inr None else Inl InvalidOperation)"
  by (simp add: compare_field_def Let_def as_decimal_def apart_same split: option.split)

lemma compare_rows_same: "compare_rows k a a = (if comparable a then Inr [] else Inl InvalidOperation)"
proof -
  have "List.map_filter id (map (\<lambda>_. None) xs) = ([] :: recon_break list)" for xs :: "string list"
    by (induction xs) (simp_all add: List.map_filter_simps)
  moreover have "res_map (compare_field k a a) COMPARED_FIELDS =
      (if comparable a then Inr (map (\<lambda>_. None) COMPARED_FIELDS) else Inl InvalidOperation)"
    unfolding comparable_def by (rule res_map_uniform) (rule compare_field_same)
  ultimately show ?thesis by (simp add: compare_rows_def)
qed

lemma concat_map_Nil: "concat (map (\<lambda>_. []) xs) = []"
  by (induction xs) simp_all

lemma only_in_self: "only_in l l = []" and in_both_self: "set (in_both l l) = set (dict_keys l)"
  by (auto simp: only_in_def in_both_def filter_empty_conv)

lemma dict_rows:
  assumes "distinct (dict_keys l)"
  shows "(\<forall>k \<in> set (dict_keys l). P (dict_get_or l k d)) \<longleftrightarrow> (\<forall>r \<in> set (map snd l). P r)"
proof -
  have "dict_get_or l k d = r" if "(k, r) \<in> set l" for k r
    using map_of_is_SomeI [OF assms that] by (simp add: dict_get_or_def)
  then show ?thesis by force
qed

section \<open>The consumer as a state machine\<close>

inductive recon_run :: "parquet \<Rightarrow> string \<Rightarrow> recon_state \<Rightarrow> string message list \<Rightarrow> recon_state \<Rightarrow> bool"
  for parquet :: parquet and now :: string where
  stop: "recon_run parquet now st [] st"
| step: "handle parquet now m st = Inr st1 \<Longrightarrow> recon_run parquet now st1 ms st2 \<Longrightarrow>
    recon_run parquet now st (m # ms) st2"

inductive_cases recon_runE: "recon_run parquet now st (m # ms) st2"

inductive_simps recon_run_simps: "recon_run parquet now st [] st2" "recon_run parquet now st (m # ms) st2"

lemma recon_run_fold:
  "fold (\<lambda>m s. res_bind s (handle parquet now m)) ms (Inr st) = Inr st' \<longleftrightarrow> recon_run parquet now st ms st'"
proof (induction ms arbitrary: st)
  case Nil
  then show ?case by (auto simp: recon_run_simps)
next
  case (Cons m ms)
  have fail: "fold (\<lambda>m s. res_bind s (handle parquet now m)) ms (Inl e) = Inl e" for e
    by (induction ms) simp_all
  show ?case
    using Cons.IH by (cases "handle parquet now m st") (simp_all add: recon_run_simps fail)
qed

fun report_id :: "json \<Rightarrow> json option" where
  "report_id (JObj kvs) = dict_get kvs ''assignment_id''"
| "report_id _ = None"

lemma run_assignment_id:
  "run_assignment parquet message = Inr rp \<Longrightarrow> item message ''assignmentId'' = Inr (rp_assignment_id rp)"
  by (auto simp: run_assignment_def res_bind_Inr_iff)

text \<open>What one message can do: void an assignment, skip a voided one, or write one report of an
  assignment that is not voided.\<close>

lemma handle_cases:
  assumes "handle parquet now m st = Inr st'"
  shows "(\<exists>aid. st' = st\<lparr>rs_voided := List.insert aid (rs_voided st)\<rparr> \<and> msg_topic m = TOPIC_BERTH_SUPERSEDED)
    \<or> (msg_topic m \<noteq> TOPIC_BERTH_SUPERSEDED \<and> (st' = st
       \<or> (\<exists>f doc aid. st' = st\<lparr>rs_files := dict_set f doc (rs_files st)\<rparr> \<and> report_id doc = Some aid
            \<and> aid \<notin> set (rs_voided st))))"
proof -
  obtain payload where p: "json_loads (msg_value m) = Some payload"
    using assms by (auto simp: handle_def split: option.splits)
  show ?thesis
  proof (cases "msg_topic m = TOPIC_BERTH_SUPERSEDED")
    case True
    then show ?thesis using assms by (auto simp: handle_def p res_bind_Inr_iff)
  next
    case False
    then obtain aid where a: "item payload ''assignmentId'' = Inr aid" "hashable aid = Inr aid"
      and rest: "(if aid \<in> set (rs_voided st) then Inr st
         else res_bind (run_assignment parquet payload) (\<lambda>rp.
           Inr (st\<lparr>rs_files := dict_set (report_file rp) (report_dict now rp) (rs_files st)\<rparr>))) = Inr st'"
      using assms by (auto simp: handle_def p handle_assigned_def res_bind_Inr_iff hashable_def split: if_splits)
    show ?thesis
    proof (cases "aid \<in> set (rs_voided st)")
      case True
      with rest False show ?thesis by simp
    next
      case not_void: False
      then obtain rp where rp: "run_assignment parquet payload = Inr rp"
        "st' = st\<lparr>rs_files := dict_set (report_file rp) (report_dict now rp) (rs_files st)\<rparr>"
        using rest by (auto simp: res_bind_Inr_iff)
      have "report_id (report_dict now rp) = Some aid"
        using run_assignment_id [OF rp(1)] a(1) by (simp add: report_dict_def)
      with rp(2) not_void False show ?thesis by blast
    qed
  qed
qed

lemma handle_voided:
  "handle parquet now m st = Inr st' \<Longrightarrow> set (rs_voided st) \<subseteq> set (rs_voided st')"
  using handle_cases [of parquet now m st st'] by auto

lemma recon_run_voided:
  "recon_run parquet now st ms st' \<Longrightarrow> set (rs_voided st) \<subseteq> set (rs_voided st')"
  by (induction rule: recon_run.induct) (auto dest: handle_voided)

text \<open>The two topics of \<open>main\<close> are drained one after the other, so no void is known while the
  assignments are handled.\<close>

lemma no_void_before_assignments:
  assumes "recon_run parquet now no_reports ms st" and "\<forall>m \<in> set ms. msg_topic m \<noteq> TOPIC_BERTH_SUPERSEDED"
  shows "rs_voided st = []"
proof -
  have "recon_run parquet now st0 ms st \<Longrightarrow> \<forall>m \<in> set ms. msg_topic m \<noteq> TOPIC_BERTH_SUPERSEDED \<Longrightarrow>
      rs_voided st = rs_voided st0" for st0
    by (induction rule: recon_run.induct) (auto dest!: handle_cases)
  with assms show ?thesis by (auto simp: no_reports_def)
qed

section \<open>Properties\<close>

text \<open>C34. The missing-side breaks are exact: one for every key that occurs on one side only, sorted, and
  no other.\<close>

theorem missing_sides_exact:
  assumes "reconcile s1 s2 = Inr bs"
  shows "map br_key (of_kind MISSING_SIDE_2 bs) = sorted_list_of_set (join_key ` set s1 - join_key ` set s2)
    \<and> map br_key (of_kind MISSING_SIDE_1 bs) = sorted_list_of_set (join_key ` set s2 - join_key ` set s1)"
proof -
  have k: "map br_key (map (missing kind) ks) = ks" for kind ks
    by (induction ks) (simp_all add: missing_def)
  have s: "only_in (by_key a) (by_key b) = sorted_list_of_set (join_key ` set a - join_key ` set b)" for a b
  proof (intro sorted_distinct_set_unique)
    show "set (only_in (by_key a) (by_key b)) = set (sorted_list_of_set (join_key ` set a - join_key ` set b))"
      by (simp only: only_in_set by_key_keys(1)) simp
  qed (use only_in_sorted [OF by_key_keys(2)] in auto)
  show ?thesis by (simp only: reconcile_of_kind [OF assms] k s)
qed

text \<open>Reconciling a side with itself finds nothing, and raises exactly when a compared value spells an
  infinity or a NaN.\<close>

lemma reconcile_self:
  "reconcile s s = (if \<forall>r \<in> set (map snd (by_key s)). comparable r then Inr [] else Inl InvalidOperation)"
proof -
  let ?l = "by_key s"
  have "res_map (compare_at ?l ?l) (in_both ?l ?l) = (if \<forall>k \<in> set (in_both ?l ?l). comparable (dict_get_or ?l k [])
      then Inr (map (\<lambda>_. []) (in_both ?l ?l)) else Inl InvalidOperation)"
    by (rule res_map_uniform) (simp add: compare_at_def compare_rows_same)
  then show ?thesis
    by (simp only: reconcile_def Let_def in_both_self dict_rows [OF by_key_keys(2)])
      (simp add: only_in_self concat_map_Nil)
qed

text \<open>Neither side is privileged: swapping the sides swaps the kinds and the values of the breaks,
  and raises in the same cases.\<close>

lemma reconcile_symmetric:
  "reconcile s2 s1 = (case reconcile s1 s2 of
      Inl e \<Rightarrow> Inl e
    | Inr bs \<Rightarrow> Inr (map flip (of_kind MISSING_SIDE_1 bs @ of_kind MISSING_SIDE_2 bs @ of_kind VALUE_MISMATCH bs)))"
proof (cases "reconcile s1 s2")
  case (Inl e)
  then have "res_map (compare_at (by_key s1) (by_key s2)) (in_both (by_key s1) (by_key s2)) = Inl e"
    by (cases "res_map (compare_at (by_key s1) (by_key s2)) (in_both (by_key s1) (by_key s2))")
      (simp_all add: reconcile_def Let_def)
  then have "reconcile s2 s1 = Inl e"
    by (simp add: reconcile_def Let_def compare_all_flip [of s2 s1] res_fmap_def)
  with Inl show ?thesis by simp
next
  case (Inr bs)
  obtain cs where cs: "res_map (compare_at (by_key s1) (by_key s2)) (in_both (by_key s1) (by_key s2)) = Inr cs"
    and bs: "bs = map (missing MISSING_SIDE_2) (only_in (by_key s1) (by_key s2))
      @ map (missing MISSING_SIDE_1) (only_in (by_key s2) (by_key s1)) @ concat cs"
    and vm: "\<forall>x \<in> set (concat cs). br_kind x = VALUE_MISMATCH"
    by (rule reconcile_parts [OF Inr])
  have "of_kind VALUE_MISMATCH bs = concat cs"
    using of_kind_const [OF vm, of VALUE_MISMATCH] by (simp add: bs of_kind_missing)
  moreover have "reconcile s2 s1 = Inr (map (missing MISSING_SIDE_2) (only_in (by_key s2) (by_key s1))
      @ map (missing MISSING_SIDE_1) (only_in (by_key s1) (by_key s2)) @ concat (map (map flip) cs))"
    by (simp add: reconcile_def Let_def compare_all_flip [of s2 s1] cs res_fmap_def)
  ultimately show ?thesis
    by (simp add: Inr reconcile_of_kind [OF Inr] comp_def map_concat)
qed

text \<open>C35. At the scale of the canonical files two amounts break exactly when they differ by more than a
  cent, whatever their signs.\<close>

theorem tolerance_exact:
  assumes "row_value a f = Dec (Num s c (-8))" and "row_value b f = Dec (Num t d (-8))"
    and "0 \<le> c" "c < 10 ^ 27" "0 \<le> d" "d < 10 ^ 27"
  shows "compare_field k a b f = Inr (if 1 / 100 < \<bar>dec_val (Num s c (-8)) - dec_val (Num t d (-8))\<bar>
    then Some (mismatch k f (decimal_str (Num s c (-8))) (decimal_str (Num t d (-8)))) else None)"
  using apart_exact [OF assms(3-6)] decimal_of_str [OF assms(3), of s "-8"] decimal_of_str [OF assms(5), of t "-8"]
  by (simp add: compare_field_def assms(1,2) as_decimal_def Let_def del: dec_val.simps decimal_str.simps)

text \<open>A null is not a zero: an amount on one side and a null on the other is always a break, and it
  shows the null as an empty text and the amount as itself.\<close>

lemma null_is_not_zero:
  assumes "reconcile s1 s2 = Inr bs"
    and "dict_get (by_key s1) k = Some a" and "dict_get (by_key s2) k = Some b" and "f \<in> set COMPARED_FIELDS"
    and "row_value a f = Null" and "row_value b f = Dec (Num s c e)" and "0 \<le> c"
  shows "mismatch k f [] (decimal_str (Num s c e)) \<in> set bs"
proof -
  obtain cs where cs: "res_map (compare_at (by_key s1) (by_key s2)) (in_both (by_key s1) (by_key s2)) = Inr cs"
    and bs: "set (concat cs) \<subseteq> set bs"
    by (rule reconcile_parts [OF assms(1)]) auto
  have "decimal_str (Num s c e) \<noteq> []"
    unfolding decimal_str_body using decimal_body_hd [OF assms(7), of e] by simp
  then have field: "compare_field k a b f = Inr (Some (mismatch k f [] (decimal_str (Num s c e))))"
    by (simp add: compare_field_def assms(5,6) Let_def as_decimal_def shown_def del: decimal_str.simps)
  have "k \<in> set (in_both (by_key s1) (by_key s2))"
    using assms(2,3) by (force simp: in_both_set dest!: map_of_SomeD)
  with cs obtain c' where c': "c' \<in> set cs" "compare_at (by_key s1) (by_key s2) k = Inr c'"
    by (rule res_map_at)
  then obtain os where os: "res_map (compare_field k a b) COMPARED_FIELDS = Inr os" "c' = List.map_filter id os"
    using assms(2,3) by (auto simp: compare_at_def compare_rows_def dict_get_or_def res_bind_Inr_iff)
  have "Some (mismatch k f [] (decimal_str (Num s c e))) \<in> set os"
    using res_map_at [OF os(1) assms(4)] field by (metis sum.inject(2))
  then have "mismatch k f [] (decimal_str (Num s c e)) \<in> set c'" by (simp add: os(2) in_map_filter_id)
  with c'(1) bs show ?thesis by auto
qed

text \<open>C36. A void is final: whatever messages follow, a voided assignment stays voided and no report of it
  is written; a report of it that is there afterwards was there before.\<close>

theorem void_is_final:
  assumes "recon_run parquet now st ms st'" and "aid \<in> set (rs_voided st)"
  shows "aid \<in> set (rs_voided st')
    \<and> (\<forall>f doc. dict_get (rs_files st') f = Some doc \<and> report_id doc = Some aid
         \<longrightarrow> dict_get (rs_files st) f = Some doc)"
  using assms
proof (induction rule: recon_run.induct)
  case (step m st st1 ms st2)
  have v: "aid \<in> set (rs_voided st1)" using handle_voided [OF step.hyps(1)] step.prems by blast
  have "dict_get (rs_files st) f = Some doc" if "dict_get (rs_files st1) f = Some doc" "report_id doc = Some aid" for f doc
    using handle_cases [OF step.hyps(1)] that step.prems by (auto split: if_splits)
  with step.IH [OF v] show ?case by blast
qed simp

section \<open>Example\<close>

definition empty_row :: record_row where
  "empty_row = []"

definition zero_row :: record_row where
  "zero_row = [(''account_id'', Null), (''quantity'', Dec (Num False 0 0))]"

definition other_row :: record_row where
  "other_row = [(''account_id'', Text ''A7'')]"

definition nan_row :: record_row where
  "nan_row = [(''currency'', Text ''NaN'')]"

lemma zero_breaks: "reconcile [empty_row] [zero_row] = Inr [mismatch ''||'' ''quantity'' [] ''0'']"
  by code_simp

lemma other_breaks: "reconcile [other_row] [zero_row] = Inr [missing MISSING_SIDE_2 ''A7||'', missing MISSING_SIDE_1 ''||'']"
  by code_simp

theorem missing_sides_exact_witness:
  "\<exists>bs. reconcile [other_row] [zero_row] = Inr bs \<and> map br_key (of_kind MISSING_SIDE_2 bs) = [''A7||'']"
proof -
  have k: "join_key ` set [other_row] - join_key ` set [zero_row] = {''A7||''}"
    by (simp add: join_key_def JOIN_KEYS_def other_row_def zero_row_def row_value_def dict_get_or_def)
  have "map br_key (of_kind MISSING_SIDE_2 [missing MISSING_SIDE_2 ''A7||'', missing MISSING_SIDE_1 ''||''])
      = sorted_list_of_set {''A7||''}"
    using missing_sides_exact [OF other_breaks] unfolding k by (rule conjunct1)
  then have "map br_key (of_kind MISSING_SIDE_2 [missing MISSING_SIDE_2 ''A7||'', missing MISSING_SIDE_1 ''||'']) = [''A7||'']"
    by simp
  with other_breaks show ?thesis by (intro exI conjI)
qed

lemma reconcile_self_witness:
  "reconcile [zero_row, other_row] [zero_row, other_row] = Inr []
   \<and> reconcile [nan_row] [nan_row] = Inl InvalidOperation"
proof -
  have "\<forall>r \<in> set (map snd (by_key [zero_row, other_row])). comparable r"
    "\<not> (\<forall>r \<in> set (map snd (by_key [nan_row])). comparable r)"
    by code_simp+
  then show ?thesis using reconcile_self [of "[zero_row, other_row]"] reconcile_self [of "[nan_row]"] by simp
qed

theorem tolerance_exact_witness:
  "compare_field ''k'' [(''quantity'', Dec (Num False 100000000 (-8)))] [(''quantity'', Dec (Num False 102000000 (-8)))] ''quantity''
   = Inr (Some (mismatch ''k'' ''quantity'' ''1.00000000'' ''1.02000000''))"
proof -
  have t: "decimal_str (Num False 100000000 (-8)) = ''1.00000000''" "decimal_str (Num False 102000000 (-8)) = ''1.02000000''"
    by code_simp+
  have v: "row_value [(''quantity'', Dec (Num False 100000000 (-8)))] ''quantity'' = Dec (Num False 100000000 (-8))"
    "row_value [(''quantity'', Dec (Num False 102000000 (-8)))] ''quantity'' = Dec (Num False 102000000 (-8))"
    by (simp_all add: row_value_def dict_get_or_def)
  have d: "1 / 100 < \<bar>dec_val (Num False 100000000 (-8)) - dec_val (Num False 102000000 (-8))\<bar>"
    by (simp add: pow10_def)
  from tolerance_exact [OF v, of "''k''"] d show ?thesis
    unfolding t by (simp del: dec_val.simps decimal_str.simps)
qed

lemma null_is_not_zero_witness:
  "\<exists>bs. reconcile [empty_row] [zero_row] = Inr bs \<and> mismatch ''||'' ''quantity'' [] ''0'' \<in> set bs"
proof -
  have z: "decimal_str (Num False 0 0) = ''0''" by code_simp
  have "dict_get (by_key [empty_row]) ''||'' = Some empty_row" "dict_get (by_key [zero_row]) ''||'' = Some zero_row"
    by (simp_all add: by_key_def dict_of_def join_key_def JOIN_KEYS_def empty_row_def zero_row_def row_value_def dict_get_or_def)
  then have "mismatch ''||'' ''quantity'' [] (decimal_str (Num False 0 0)) \<in> set [mismatch ''||'' ''quantity'' [] ''0'']"
    by (rule null_is_not_zero [OF zero_breaks])
      (simp_all add: COMPARED_FIELDS_def row_value_def dict_get_or_def empty_row_def zero_row_def)
  with zero_breaks show ?thesis unfolding z by (intro exI conjI)
qed

definition voided_state :: recon_state where
  "voided_state = \<lparr>rs_voided = [JStr ''A1''], rs_files = []\<rparr>"

definition late_assignment :: "string message" where
  "late_assignment = \<lparr>msg_topic = TOPIC_BERTH_ASSIGNED, msg_key = ''k'',
     msg_value = ''{'' @ [chr 34] @ ''assignmentId'' @ [chr 34] @ '':'' @ [chr 34] @ ''A1'' @ [chr 34] @ ''}'',
     msg_headers = [], msg_partition = 0, msg_offset = 0\<rparr>"

lemma late_payload: "json_loads (msg_value late_assignment) = Some (JObj [(''assignmentId'', JStr ''A1'')])"
  by code_simp

theorem void_is_final_witness:
  "recon_run (\<lambda>_. None) ''now'' voided_state [late_assignment] voided_state
   \<and> JStr ''A1'' \<in> set (rs_voided voided_state)
   \<and> (\<nexists>f doc. dict_get (rs_files voided_state) f = Some doc \<and> report_id doc = Some (JStr ''A1''))"
proof -
  have "msg_topic late_assignment \<noteq> TOPIC_BERTH_SUPERSEDED"
    by (simp add: late_assignment_def TOPIC_BERTH_ASSIGNED_def TOPIC_BERTH_SUPERSEDED_def)
  then have h: "handle (\<lambda>_. None) ''now'' late_assignment voided_state = Inr voided_state"
    by (simp add: handle_def late_payload handle_assigned_def hashable_def voided_state_def)
  then have r: "recon_run (\<lambda>_. None) ''now'' voided_state [late_assignment] voided_state"
    by (simp add: recon_run_simps)
  have v: "JStr ''A1'' \<in> set (rs_voided voided_state)" by (simp add: voided_state_def)
  from void_is_final [OF r v] r v show ?thesis by (simp add: voided_state_def)
qed

end
