(* ===== verification/YamlDoc.thy ===== *)
theory YamlDoc
  imports PyJson PyDate
begin

text \<open>
  The Python values a YAML document becomes (\<open>yaml.safe_load\<close> is PyYAML and stays a parameter of
  the loader), and what the configuration loader does with them: \<open>str\<close>, \<open>repr\<close>, \<open>int\<close>, truth,
  subscription, \<open>get\<close>, \<open>items\<close>, iteration and \<open>date.fromisoformat\<close>. A plain date in a document is
  a \<open>date\<close>; timestamps with a time of day are outside the model. Each exception of an operation
  on a value of the wrong kind is a value of \<^typ>\<open>py_error\<close>.
\<close>

section \<open>Values\<close>

datatype yaml =
    YNull
  | YBool bool
  | YInt int
  | YFloat pfloat
  | YStr string
  | YDate date
  | YSeq "yaml list"
  | YMap "(yaml \<times> yaml) list"

definition date_repr :: "date \<Rightarrow> string" where
  "date_repr n = (case ord2ymd n of (y, m, d) \<Rightarrow>
     ''datetime.date('' @ int_str y @ '', '' @ int_str m @ '', '' @ int_str d @ '')'')"

function (sequential) yaml_repr :: "yaml \<Rightarrow> string"
  and yaml_items :: "yaml list \<Rightarrow> string list"
  and yaml_members :: "(yaml \<times> yaml) list \<Rightarrow> string list" where
  "yaml_repr YNull = ''None''"
| "yaml_repr (YBool b) = (if b then ''True'' else ''False'')"
| "yaml_repr (YInt n) = int_str n"
| "yaml_repr (YFloat x) = float_repr x"
| "yaml_repr (YStr s) = repr s"
| "yaml_repr (YDate d) = date_repr d"
| "yaml_repr (YSeq vs) = ''['' @ join '', '' (yaml_items vs) @ '']''"
| "yaml_repr (YMap kvs) = ''{'' @ join '', '' (yaml_members kvs) @ ''}''"
| "yaml_items [] = []"
| "yaml_items (v # vs) = yaml_repr v # yaml_items vs"
| "yaml_members [] = []"
| "yaml_members ((k, v) # kvs) = (yaml_repr k @ '': '' @ yaml_repr v) # yaml_members kvs"
  by pat_completeness auto
termination
  by (relation "measure (case_sum size (case_sum (size_list size) (size_list (size_prod size size))))") auto

definition yaml_str :: "yaml \<Rightarrow> string" where
  "yaml_str v = (case v of YStr s \<Rightarrow> s | YDate d \<Rightarrow> isoformat d | _ \<Rightarrow> yaml_repr v)"

lemma yaml_str_YStr [simp]: "yaml_str (YStr s) = s"
  by (simp add: yaml_str_def)

fun yaml_true :: "yaml \<Rightarrow> bool" where
  "yaml_true YNull = False"
| "yaml_true (YBool b) = b"
| "yaml_true (YInt n) = (n \<noteq> 0)"
| "yaml_true (YFloat x) = (x \<noteq> Fin 0 \<and> x \<noteq> NegZero)"
| "yaml_true (YStr s) = (s \<noteq> [])"
| "yaml_true (YDate d) = True"
| "yaml_true (YSeq vs) = (vs \<noteq> [])"
| "yaml_true (YMap kvs) = (kvs \<noteq> [])"

text \<open>\<open>v or d\<close>.\<close>

definition yaml_or :: "yaml \<Rightarrow> yaml \<Rightarrow> yaml" where
  "yaml_or v d = (if yaml_true v then v else d)"

section \<open>Access\<close>

text \<open>\<open>v[k]\<close>, \<open>v.get(k, d)\<close>, \<open>v.items()\<close> and iteration, for a text \<open>k\<close>.\<close>

fun yaml_index :: "yaml \<Rightarrow> string \<Rightarrow> yaml result" where
  "yaml_index (YMap kvs) k = (case dict_get kvs (YStr k) of None \<Rightarrow> Inl KeyError | Some v \<Rightarrow> Inr v)"
| "yaml_index _ k = Inl TypeError"

fun yaml_get :: "yaml \<Rightarrow> string \<Rightarrow> yaml \<Rightarrow> yaml result" where
  "yaml_get (YMap kvs) k d = Inr (dict_get_or kvs (YStr k) d)"
| "yaml_get _ k d = Inl AttributeError"

fun yaml_pairs :: "yaml \<Rightarrow> (yaml \<times> yaml) list result" where
  "yaml_pairs (YMap kvs) = Inr kvs"
| "yaml_pairs _ = Inl AttributeError"

fun yaml_iter :: "yaml \<Rightarrow> yaml list result" where
  "yaml_iter (YSeq vs) = Inr vs"
| "yaml_iter (YMap kvs) = Inr (dict_keys kvs)"
| "yaml_iter (YStr s) = Inr (map (\<lambda>c. YStr [c]) s)"
| "yaml_iter _ = Inl TypeError"

text \<open>\<open>int(v)\<close>: floats are truncated, texts are decimal integers with an optional sign, surrounding
  white space and single underscores between digits.\<close>

definition int_of_text :: "string \<Rightarrow> int option" where
  "int_of_text text =
     (let s = strip text; p = parse_sign (filter (\<lambda>c. c \<noteq> CHR ''_'') s); ds = snd p in
      if ds = [] \<or> \<not> list_all is_digit ds \<or> \<not> underscores_between s \<or> prefix ''_'' s then None
      else Some (if fst p then - digits_val ds else digits_val ds))"

fun yaml_int :: "yaml \<Rightarrow> int result" where
  "yaml_int (YInt n) = Inr n"
| "yaml_int (YBool b) = Inr (if b then 1 else 0)"
| "yaml_int (YFloat (Fin x)) = Inr (int_of x)"
| "yaml_int (YFloat NegZero) = Inr 0"
| "yaml_int (YFloat (Inf neg)) = Inl OverflowError"
| "yaml_int (YFloat NotANumber) = Inl ValueError"
| "yaml_int (YStr s) = (case int_of_text s of None \<Rightarrow> Inl ValueError | Some n \<Rightarrow> Inr n)"
| "yaml_int _ = Inl TypeError"

section \<open>Dates\<close>

definition take_number :: "nat \<Rightarrow> string \<Rightarrow> (int \<times> string) option" where
  "take_number n s =
     (if n \<le> length s \<and> list_all is_digit (take n s) then Some (digits_val (take n s), drop n s) else None)"

definition skip_dash :: "bool \<Rightarrow> string \<Rightarrow> string option" where
  "skip_dash dash s =
     (if \<not> dash then Some s else case s of c # r \<Rightarrow> if c = CHR ''-'' then Some r else None | [] \<Rightarrow> None)"

definition MAX_ORDINAL :: date where
  "MAX_ORDINAL = 3652059"

text \<open>The day of an ISO week: week 1 is the one with the first Thursday of the year, and only years
  that begin on a Thursday, or leap years that begin on a Wednesday, have a week 53.\<close>

definition iso_week_date :: "int \<Rightarrow> int \<Rightarrow> int \<Rightarrow> date option" where
  "iso_week_date y w d =
     (let first = ymd2ord y 1 1; wd = weekday first; monday = first - wd + (if 3 < wd then 7 else 0);
          n = monday + (w - 1) * 7 + (d - 1)
      in if 1 \<le> y \<and> 1 \<le> w \<and> (w \<le> 52 \<or> w = 53 \<and> (wd = 3 \<or> wd = 2 \<and> is_leap y)) \<and> 1 \<le> d \<and> d \<le> 7
            \<and> 1 \<le> n \<and> n \<le> MAX_ORDINAL
         then Some n else None)"

text \<open>\<open>date.fromisoformat\<close> (3.11 on): a calendar date or a week date, with or without dashes; \<open>None\<close>
  is its \<open>ValueError\<close>.\<close>

definition week_text :: "int \<Rightarrow> bool \<Rightarrow> string \<Rightarrow> date option" where
  "week_text y dash s =
     (case take_number 2 s of
        None \<Rightarrow> None
      | Some (w, r) \<Rightarrow>
          if r = [] then iso_week_date y w 1
          else case skip_dash dash r of
              None \<Rightarrow> None
            | Some r' \<Rightarrow> (case take_number 1 r' of
                  Some (d, []) \<Rightarrow> iso_week_date y w d | _ \<Rightarrow> None))"

definition month_text :: "int \<Rightarrow> bool \<Rightarrow> string \<Rightarrow> date option" where
  "month_text y dash s =
     (case take_number 2 s of
        None \<Rightarrow> None
      | Some (m, r) \<Rightarrow>
          (case skip_dash dash r of
             None \<Rightarrow> None
           | Some r' \<Rightarrow> (case take_number 2 r' of
                 Some (d, []) \<Rightarrow> make_date y m d | _ \<Rightarrow> None)))"

definition date_fromisoformat :: "string \<Rightarrow> date option" where
  "date_fromisoformat s =
     (if length s \<notin> {7, 8, 10} then None
      else case take_number 4 s of
          None \<Rightarrow> None
        | Some (y, r) \<Rightarrow>
            let dash = prefix ''-'' r; r' = (if dash then tl r else r) in
            if prefix ''W'' r' then week_text y dash (tl r') else month_text y dash r')"

lemma fromisoformat_examples:
  "date_fromisoformat ''2026-12-25'' = Some (ymd2ord 2026 12 25)"
  "date_fromisoformat ''20261225'' = Some (ymd2ord 2026 12 25)"
  "date_fromisoformat ''2026-W53-5'' = Some (ymd2ord 2027 1 1)"
  "date_fromisoformat ''2026-02-29'' = None"
  "date_fromisoformat ''25/12/2026'' = None"
  by code_simp+

end
