(* ===== verification/RegistryLoad.thy ===== *)
theory RegistryLoad
  imports Registry YamlDoc
begin

text \<open>
  Reading the configuration: \<open>_read_yaml\<close>, \<open>_load_calendars\<close> and \<open>_load_clients\<close> of
  \<open>python/src/inspector/registry.py\<close>, down to the texts of the YAML files. A directory is the list
  of its files, name and text; \<open>safe_load\<close> is PyYAML's function of that name (an error is the text
  of its \<open>YAMLError\<close>) and \<open>compile\<close> is \<open>re.compile\<close> with its \<open>match\<close> and \<open>groupdict\<close> (an error is
  the text of its \<open>re.error\<close>). The exceptions the code does not catch, a missing \<open>client_id\<close> or a
  \<open>weekend\<close> that is null, are results too.
\<close>

section \<open>Files\<close>

type_synonym config_file = "string \<times> string"
type_synonym yaml_loader = "string \<Rightarrow> string + yaml"
type_synonym re_compiler = "string \<Rightarrow> string + (string \<Rightarrow> (string \<Rightarrow> string option) option)"

text \<open>\<open>sorted(directory.glob("*.yaml"))\<close>.\<close>

definition yaml_files :: "config_file list \<Rightarrow> config_file list" where
  "yaml_files dir = sort_key fst (filter (\<lambda>f. suffix ''.yaml'' (fst f)) dir)"

definition read_yaml :: "yaml_loader \<Rightarrow> config_file \<Rightarrow> yaml result" where
  "read_yaml safe_load f =
     (case safe_load (snd f) of
        Inl exc \<Rightarrow> Inl (ConfigError (fst f @ '': '' @ exc))
      | Inr data \<Rightarrow>
          (case data of
             YMap kvs \<Rightarrow> Inr data
           | _ \<Rightarrow> Inl (ConfigError (fst f @ '': expected a mapping at the top level''))))"

section \<open>Calendars\<close>

primrec add_weekend :: "string \<Rightarrow> yaml list \<Rightarrow> int list \<Rightarrow> int list result" where
  "add_weekend file [] w = Inr w"
| "add_weekend file (n # ns) w =
     (case dict_get WEEKDAYS (upper (strip (yaml_str n))) of
        None \<Rightarrow> Inl (ConfigError (file @ '': unknown weekend day '' @ yaml_repr n))
      | Some k \<Rightarrow> add_weekend file ns (List.insert k w))"

text \<open>One assignment \<open>holidays[date] = name\<close>: the value is computed before the key.\<close>

definition holiday_parts :: "yaml \<Rightarrow> (date \<times> string) result" where
  "holiday_parts h =
     res_bind (yaml_get h ''name'' (YStr [])) (\<lambda>name.
     res_bind (yaml_index h ''date'') (\<lambda>d.
       case date_fromisoformat (yaml_str d) of
         None \<Rightarrow> Inl ValueError
       | Some day \<Rightarrow> Inr (day, yaml_str name)))"

definition holiday_entry :: "string \<Rightarrow> yaml \<Rightarrow> (date \<times> string) result" where
  "holiday_entry file h =
     (case holiday_parts h of
        Inr p \<Rightarrow> Inr p
      | Inl e \<Rightarrow> Inl (if e = KeyError \<or> e = ValueError
                      then ConfigError (file @ '': bad holiday entry '' @ yaml_repr h) else e))"

definition load_calendar :: "yaml_loader \<Rightarrow> config_file \<Rightarrow> calendar result" where
  "load_calendar safe_load f =
     res_bind (read_yaml safe_load f) (\<lambda>data.
     res_bind (yaml_get data ''weekend'' (YSeq [])) (\<lambda>days.
     res_bind (yaml_iter days) (\<lambda>names.
     res_bind (add_weekend (fst f) names []) (\<lambda>weekend.
     res_bind (yaml_get data ''holidays'' YNull) (\<lambda>hs.
     res_bind (yaml_iter (yaml_or hs (YSeq []))) (\<lambda>entries.
     res_bind (res_map (holiday_entry (fst f)) entries) (\<lambda>holidays.
     res_bind (yaml_index data ''calendar_id'') (\<lambda>cid.
       Inr \<lparr>calendar_id = yaml_str cid, weekend = weekend, holidays = dict_of holidays\<rparr>))))))))"

definition load_calendars :: "yaml_loader \<Rightarrow> config_file list \<Rightarrow> calendar list result" where
  "load_calendars safe_load dir = res_map (load_calendar safe_load) (yaml_files dir)"

section \<open>Clients\<close>

text \<open>\<open>{str(k): str(v) for k, v in (x or {}).items()}\<close> and \<open>[str(v) for v in x or []]\<close>.\<close>

definition str_dict :: "yaml \<Rightarrow> (string, string) dict result" where
  "str_dict v = res_bind (yaml_pairs (yaml_or v (YMap [])))
     (\<lambda>kvs. Inr (dict_of (map (\<lambda>(k, v). (yaml_str k, yaml_str v)) kvs)))"

definition str_list :: "yaml \<Rightarrow> string list result" where
  "str_list v = res_bind (yaml_iter (yaml_or v (YSeq []))) (\<lambda>vs. Inr (map yaml_str vs))"

text \<open>\<open>str(x.get(key, ""))\<close>.\<close>

definition text_at :: "yaml \<Rightarrow> string \<Rightarrow> string result" where
  "text_at v k = res_bind (yaml_get v k (YStr [])) (\<lambda>x. Inr (yaml_str x))"

definition text_of :: "yaml \<Rightarrow> string \<Rightarrow> string result" where
  "text_of v k = res_bind (yaml_index v k) (\<lambda>x. Inr (yaml_str x))"

definition load_hint :: "re_compiler \<Rightarrow> string \<Rightarrow> yaml \<Rightarrow> filename_hint result" where
  "load_hint compile file h =
     res_bind (text_of h ''pattern'') (\<lambda>p.
     case compile p of
       Inl exc \<Rightarrow> Inl (ConfigError (file @ '': invalid filename_hints pattern: '' @ exc))
     | Inr matcher \<Rightarrow>
         res_bind (yaml_get h ''domain_map'' YNull) (\<lambda>m.
         res_bind (str_dict m) (\<lambda>domains.
         res_bind (text_at h ''domain'') (\<lambda>domain.
         res_bind (text_at h ''source_hint'') (\<lambda>source.
           Inr \<lparr>pattern = matcher, domain_map = domains, hint_domain = domain, source_hint = source\<rparr>)))))"

text \<open>\<open>str((sides.get(side) or {}).get("source_hint", ""))\<close>.\<close>

definition side_hint :: "yaml \<Rightarrow> string \<Rightarrow> string result" where
  "side_hint sides side =
     res_bind (yaml_get sides side YNull) (\<lambda>s. text_at (yaml_or s (YMap [])) ''source_hint'')"

definition load_expectation :: "yaml \<Rightarrow> expectation result" where
  "load_expectation e =
     res_bind (yaml_get e ''sides'' YNull) (\<lambda>s.
     let sides = yaml_or s (YMap []) in
     res_bind (text_of e ''id'') (\<lambda>i.
     res_bind (text_of e ''domain'') (\<lambda>domain.
     res_bind (yaml_get e ''cadence'' (YStr ''DAILY'')) (\<lambda>cad.
     res_bind (yaml_get e ''cuts_per_day'' (YInt 1)) (\<lambda>cuts.
     res_bind (yaml_int cuts) (\<lambda>n.
     res_bind (yaml_get e ''value_date_field_hints'' YNull) (\<lambda>vs.
     res_bind (str_list vs) (\<lambda>hints.
     res_bind (side_hint sides ''external_client'') (\<lambda>ext.
     res_bind (side_hint sides ''internal_gl'') (\<lambda>gl.
       Inr \<lparr>exp_id = i, exp_domain = domain, cadence = yaml_str cad, cuts_per_day = n,
         value_date_field_hints = hints, external_source_hint = ext, internal_source_hint = gl\<rparr>))))))))))"

definition load_account :: "yaml \<Rightarrow> account result" where
  "load_account a =
     res_bind (text_of a ''id'') (\<lambda>i.
     res_bind (text_at a ''name'') (\<lambda>name.
     res_bind (yaml_get a ''venues'' YNull) (\<lambda>v.
     res_bind (str_list v) (\<lambda>vs.
       Inr \<lparr>acct_id = i, acct_name = name, venues = vs\<rparr>))))"

text \<open>\<open>[f(x) for x in data.get(key) or []]\<close>.\<close>

definition each_at :: "yaml \<Rightarrow> string \<Rightarrow> (yaml \<Rightarrow> 'a result) \<Rightarrow> 'a list result" where
  "each_at data k f =
     res_bind (yaml_get data k YNull) (\<lambda>v. res_bind (yaml_iter (yaml_or v (YSeq []))) (res_map f))"

definition load_client :: "yaml_loader \<Rightarrow> re_compiler \<Rightarrow> config_file \<Rightarrow> client result" where
  "load_client safe_load compile f =
     res_bind (read_yaml safe_load f) (\<lambda>data.
     res_bind (each_at data ''filename_hints'' (load_hint compile (fst f))) (\<lambda>hints.
     res_bind (each_at data ''expectations'' load_expectation) (\<lambda>exps.
     res_bind (text_of data ''client_id'') (\<lambda>cid.
     res_bind (text_at data ''client_name'') (\<lambda>name.
     res_bind (text_of data ''calendar'') (\<lambda>cal.
     res_bind (yaml_get data ''late_window_days'' (YInt 2)) (\<lambda>late.
     res_bind (yaml_int late) (\<lambda>days.
     res_bind (each_at data ''accounts'' load_account) (\<lambda>accts.
     res_bind (yaml_get data ''field_overrides'' YNull) (\<lambda>fo.
     res_bind (str_dict fo) (\<lambda>overrides.
       Inr \<lparr>client_id = cid, client_name = name, client_calendar = cal, late_window_days = days,
         accounts = accts, filename_hints = hints, expectations = exps, field_overrides = overrides\<rparr>)))))))))))"

definition load_clients :: "yaml_loader \<Rightarrow> re_compiler \<Rightarrow> config_file list \<Rightarrow> client list result" where
  "load_clients safe_load compile dir = res_map (load_client safe_load compile) (yaml_files dir)"

text \<open>\<open>load(config_dir)\<close> on the files of \<open>calendars/\<close> and \<open>clients/\<close> below it.\<close>

definition load_config ::
    "yaml_loader \<Rightarrow> re_compiler \<Rightarrow> string \<Rightarrow> config_file list \<Rightarrow> config_file list \<Rightarrow> registry result" where
  "load_config safe_load compile config_dir calendar_dir client_dir =
     res_bind (load_calendars safe_load calendar_dir) (\<lambda>cals.
     res_bind (load_clients safe_load compile client_dir) (load config_dir cals))"

section \<open>What a loaded calendar says\<close>

lemma WEEKDAYS_range: "dict_get WEEKDAYS s = Some k \<Longrightarrow> 0 \<le> k \<and> k \<le> 6"
  by (auto simp: WEEKDAYS_def split: if_splits)

lemma add_weekend_set:
  "add_weekend file ns w = Inr w' \<Longrightarrow>
     set w' = set w \<union> {k. \<exists>n \<in> set ns. dict_get WEEKDAYS (upper (strip (yaml_str n))) = Some k}"
  by (induction ns arbitrary: w) (auto split: option.splits)

lemma holiday_entry_Inr: "holiday_entry file h = Inr p \<longleftrightarrow> holiday_parts h = Inr p"
  by (auto simp: holiday_entry_def split: sum.splits)

lemma read_yaml_Inr: "read_yaml safe_load f = Inr data \<Longrightarrow> safe_load (snd f) = Inr data"
  by (auto simp: read_yaml_def split: sum.splits yaml.splits)

lemma load_calendar_parts:
  assumes "load_calendar safe_load f = Inr c"
  obtains data names entries holidays cid where "safe_load (snd f) = Inr data"
    and "res_bind (yaml_get data ''weekend'' (YSeq [])) yaml_iter = Inr names"
    and "add_weekend (fst f) names [] = Inr (weekend c)"
    and "res_bind (yaml_get data ''holidays'' YNull) (\<lambda>h. yaml_iter (yaml_or h (YSeq []))) = Inr entries"
    and "list_all2 (\<lambda>h p. holiday_parts h = Inr p) entries holidays"
    and "Registry.holidays c = dict_of holidays"
    and "yaml_index data ''calendar_id'' = Inr cid" and "calendar_id c = yaml_str cid"
  using assms that
  by (auto simp: load_calendar_def res_bind_Inr_iff res_map_Inr_iff holiday_entry_Inr dest!: read_yaml_Inr)

text \<open>A loaded calendar is open on exactly the days whose weekday no \<open>weekend\<close> entry names and whose
  date no \<open>holidays\<close> entry has.\<close>

lemma loaded_calendar_days:
  assumes "load_calendar safe_load f = Inr c"
  shows "\<exists>data names entries. safe_load (snd f) = Inr data
    \<and> res_bind (yaml_get data ''weekend'' (YSeq [])) yaml_iter = Inr names
    \<and> res_bind (yaml_get data ''holidays'' YNull) (\<lambda>h. yaml_iter (yaml_or h (YSeq []))) = Inr entries
    \<and> (\<forall>d. is_business_day c d \<longleftrightarrow>
          (\<forall>n \<in> set names. dict_get WEEKDAYS (upper (strip (yaml_str n))) \<noteq> Some (weekday d))
        \<and> (\<forall>h \<in> set entries. \<forall>name. holiday_parts h \<noteq> Inr (d, name)))"
proof -
  obtain data names entries hs where f: "safe_load (snd f) = Inr data"
      "res_bind (yaml_get data ''weekend'' (YSeq [])) yaml_iter = Inr names"
      "res_bind (yaml_get data ''holidays'' YNull) (\<lambda>h. yaml_iter (yaml_or h (YSeq []))) = Inr entries"
    and w: "add_weekend (fst f) names [] = Inr (weekend c)"
    and hs: "list_all2 (\<lambda>h p. holiday_parts h = Inr p) entries hs" and c: "holidays c = dict_of hs"
    by (rule load_calendar_parts [OF assms]) blast
  have "(\<exists>h \<in> set entries. \<exists>name. holiday_parts h = Inr (d, name)) \<longleftrightarrow> d \<in> fst ` set hs" for d
    using hs by (induction rule: list_all2_induct) auto
  then have "dict_get (holidays c) d = None \<longleftrightarrow> (\<forall>h \<in> set entries. \<forall>name. holiday_parts h \<noteq> Inr (d, name))" for d
    using dict_of_keys [of hs] by (auto simp: c map_of_eq_None_iff)
  then show ?thesis using f add_weekend_set [OF w] by (auto simp: is_business_day_def)
qed

lemma loaded_weekend_range: "load_calendar safe_load f = Inr c \<Longrightarrow> set (weekend c) \<subseteq> {0..6}"
  by (erule load_calendar_parts) (auto dest!: add_weekend_set WEEKDAYS_range)

section \<open>What a loaded registry holds\<close>

lemma yaml_files_mem: "f \<in> set (yaml_files dir) \<Longrightarrow> f \<in> set dir \<and> suffix ''.yaml'' (fst f)"
  by (simp add: yaml_files_def)

lemma load_config_parts:
  assumes "load_config safe_load compile config_dir calendar_dir client_dir = Inr r"
  obtains cals cls where "load config_dir cals cls = Inr r"
    and "\<And>c. c \<in> set cals \<Longrightarrow> \<exists>f \<in> set calendar_dir. suffix ''.yaml'' (fst f) \<and> load_calendar safe_load f = Inr c"
    and "\<And>c. c \<in> set cls \<Longrightarrow> \<exists>f \<in> set client_dir. suffix ''.yaml'' (fst f) \<and> load_client safe_load compile f = Inr c"
proof -
  from assms obtain cals cls where l: "load_calendars safe_load calendar_dir = Inr cals"
      "load_clients safe_load compile client_dir = Inr cls" "load config_dir cals cls = Inr r"
    by (auto simp: load_config_def res_bind_Inr_iff)
  show thesis
  proof (rule that [OF l(3)])
    show "\<exists>f \<in> set calendar_dir. suffix ''.yaml'' (fst f) \<and> load_calendar safe_load f = Inr c" if "c \<in> set cals" for c
      using res_map_mem [OF l(1) [unfolded load_calendars_def] that] yaml_files_mem by blast
    show "\<exists>f \<in> set client_dir. suffix ''.yaml'' (fst f) \<and> load_client safe_load compile f = Inr c" if "c \<in> set cls" for c
      using res_map_mem [OF l(2) [unfolded load_clients_def] that] yaml_files_mem by blast
  qed
qed

lemma loaded_registry_sound:
  assumes "load_config safe_load compile config_dir calendar_dir client_dir = Inr r"
  shows "reg_clients r \<noteq> [] \<and> distinct (dict_keys (reg_clients r))
    \<and> (\<forall>k cl. reg_client r k = Some cl \<longrightarrow> client_id cl = k
        \<and> (\<exists>f \<in> set client_dir. suffix ''.yaml'' (fst f) \<and> load_client safe_load compile f = Inr cl)
        \<and> (\<exists>cal. calendar_for r k = Some cal \<and> calendar_id cal = client_calendar cl \<and> set (weekend cal) \<subseteq> {0..6}
            \<and> (\<exists>f \<in> set calendar_dir. suffix ''.yaml'' (fst f) \<and> load_calendar safe_load f = Inr cal)))"
proof -
  obtain cals cls where l: "load config_dir cals cls = Inr r"
    and cal: "\<And>c. c \<in> set cals \<Longrightarrow> \<exists>f \<in> set calendar_dir. suffix ''.yaml'' (fst f) \<and> load_calendar safe_load f = Inr c"
    and cl: "\<And>c. c \<in> set cls \<Longrightarrow> \<exists>f \<in> set client_dir. suffix ''.yaml'' (fst f) \<and> load_client safe_load compile f = Inr c"
    by (rule load_config_parts [OF assms]) blast
  have ne: "reg_clients r \<noteq> []"
    using l by (auto simp: load_def Let_def split: if_splits option.splits)
  have client: "client_id c = k \<and> c \<in> set cls" if "reg_client r k = Some c" for k c
    using that dict_of_get_Some [of "map (\<lambda>c. (client_id c, c)) cls" k c]
    by (auto simp: reg_client_def load_Inr(2) [OF l])
  have calendar: "calendar_id c = k \<and> c \<in> set cals" if "reg_calendar r k = Some c" for k c
    using that dict_of_get_Some [of "map (\<lambda>c. (calendar_id c, c)) cals" k c]
    by (auto simp: reg_calendar_def load_Inr(3) [OF l])
  have "\<exists>x. calendar_for r k = Some x \<and> calendar_id x = client_calendar c \<and> x \<in> set cals"
    if "reg_client r k = Some c" for k c
    using load_Inr(4) [OF l that] calendar that by (auto simp: calendar_for_def)
  then show ?thesis
    using ne client cal cl loaded_weekend_range by (simp add: load_Inr(2) [OF l]) meson
qed

section \<open>Examples\<close>

definition us_calendar :: yaml where
  "us_calendar = YMap [(YStr ''calendar_id'', YStr ''US_EQUITY''),
     (YStr ''weekend'', YSeq [YStr ''SATURDAY'', YStr ''Sunday'']),
     (YStr ''holidays'', YSeq [YMap [(YStr ''date'', YStr ''2026-12-25''), (YStr ''name'', YStr ''Christmas Day'')]])]"

definition prs_client :: yaml where
  "prs_client = YMap [(YStr ''client_id'', YStr ''CLNT031''), (YStr ''calendar'', YStr ''US_EQUITY''),
     (YStr ''accounts'', YSeq [YMap [(YStr ''id'', YStr ''US-4471''), (YStr ''venues'', YSeq [YStr ''NASDAQ''])]]),
     (YStr ''filename_hints'', YSeq [YMap [(YStr ''pattern'', YStr ''^PRS''), (YStr ''domain'', YStr ''POSITION'')]]),
     (YStr ''expectations'', YSeq [YMap [(YStr ''id'', YStr ''E1''), (YStr ''domain'', YStr ''POSITION''),
        (YStr ''cuts_per_day'', YStr ''2''), (YStr ''value_date_field_hints'', YSeq [YStr ''As Of Date'']),
        (YStr ''sides'', YMap [(YStr ''internal_gl'', YMap [(YStr ''source_hint'', YStr ''GL'')])])]]),
     (YStr ''field_overrides'', YMap [(YStr ''Px_Last'', YStr ''trade_price'')])]"

definition sample_load :: yaml_loader where
  "sample_load text = (if text = ''calendar'' then Inr us_calendar else if text = ''client'' then Inr prs_client
     else Inl ''not a document'')"

definition never_matches :: re_compiler where
  "never_matches p = Inr (\<lambda>name. None)"

abbreviation sample_config :: "registry result" where
  "sample_config \<equiv> load_config sample_load never_matches ''config'' [(''us.yaml'', ''calendar''), (''notes.txt'', [])]
     [(''prs.yaml'', ''client'')]"

lemma sample_config_loads:
  "case sample_config of
     Inr r \<Rightarrow> map (\<lambda>c. (client_id c, late_window_days c, map cuts_per_day (expectations c), value_date_hints c)) (clients r)
        = [(''CLNT031'', 2, [2], [''As Of Date''])]
   | Inl _ \<Rightarrow> False"
  by code_simp

lemma loaded_registry_sound_witness:
  "\<exists>r. sample_config = Inr r \<and> reg_clients r \<noteq> [] \<and> distinct (dict_keys (reg_clients r))"
proof -
  obtain r where r: "sample_config = Inr r"
    using sample_config_loads by (cases sample_config) auto
  with loaded_registry_sound [OF r] show ?thesis by simp
qed

lemma loaded_calendar_days_witness:
  "\<exists>c. load_calendar sample_load (''us.yaml'', ''calendar'') = Inr c
     \<and> is_business_day c (ymd2ord 2026 12 24) \<and> \<not> is_business_day c (ymd2ord 2026 12 25)
     \<and> \<not> is_business_day c (ymd2ord 2026 12 27)"
proof -
  have ok: "case load_calendar sample_load (''us.yaml'', ''calendar'') of
      Inr c \<Rightarrow> is_business_day c (ymd2ord 2026 12 24) | Inl _ \<Rightarrow> False" by code_simp
  then obtain c where c: "load_calendar sample_load (''us.yaml'', ''calendar'') = Inr c"
    and opened: "is_business_day c (ymd2ord 2026 12 24)"
    by (cases "load_calendar sample_load (''us.yaml'', ''calendar'')") auto
  have "holiday_parts (YMap [(YStr ''date'', YStr ''2026-12-25''), (YStr ''name'', YStr ''Christmas Day'')])
      = Inr (ymd2ord 2026 12 25, ''Christmas Day'')"
    "dict_get WEEKDAYS (upper (strip (yaml_str (YStr ''Sunday'')))) = Some (weekday (ymd2ord 2026 12 27))"
    by code_simp+
  with loaded_calendar_days [OF c] have "\<not> is_business_day c (ymd2ord 2026 12 25)"
    "\<not> is_business_day c (ymd2ord 2026 12 27)"
    by (auto simp: sample_load_def us_calendar_def dict_get_or_def yaml_or_def)
  with c opened show ?thesis by blast
qed

text \<open>Three defects of a file that do not become the \<open>ConfigError\<close> of every other: a null \<open>weekend\<close>, an
  absent \<open>calendar_id\<close> and a client without an identifier.\<close>

lemma uncaught_config_errors:
  "load_calendar (\<lambda>_. Inr (YMap [(YStr ''weekend'', YNull)])) (''a.yaml'', []) = Inl TypeError"
  "load_calendar (\<lambda>_. Inr (YMap [])) (''a.yaml'', []) = Inl KeyError"
  "load_client (\<lambda>_. Inr (YMap [])) never_matches (''a.yaml'', []) = Inl KeyError"
  by (simp_all add: load_calendar_def load_client_def read_yaml_def dict_get_or_def dict_of_def yaml_or_def
      each_at_def text_of_def)

end
