(* ===== verification/HeadlineCheck.thy ===== *)
theory HeadlineCheck
  imports PyJson ParsedTable
begin

text \<open>
  The schema check of the results card: \<open>bench/headline_check.py\<close>. A decoded document is a
  \<^typ>\<open>json\<close>; each check returns the list of problems it appends, or the exception that stops it
  (an \<open>accent\<close> that is a list or an object is not hashable, so testing its membership in a
  \<open>frozenset\<close> raises \<open>TypeError\<close>). The second half says what a document without problems looks like.

  The locale \<open>row_check\<close> is what the panels have in common: a check of one row, repeated over a list
  with the index of the row in its name; the panel has no problem exactly when no row has one.
\<close>

section \<open>Access to decoded values\<close>

text \<open>\<open>v[k]\<close> for a text \<open>k\<close>.\<close>

fun json_index :: "json \<Rightarrow> string \<Rightarrow> json result" where
  "json_index (JObj kvs) k = (case dict_get kvs k of None \<Rightarrow> Inl KeyError | Some v \<Rightarrow> Inr v)"
| "json_index _ k = Inl TypeError"

lemma json_index_Inr: "json_index v k = Inr w \<longleftrightarrow> (\<exists>kvs. v = JObj kvs \<and> dict_get kvs k = Some w)"
  by (cases v) (auto split: option.splits)

text \<open>\<open>obj.get(k)\<close> of an object.\<close>

definition member :: "(string \<times> json) list \<Rightarrow> string \<Rightarrow> json" where
  "member kvs k = dict_get_or kvs k JNull"

text \<open>\<open>v in S\<close> for a \<open>frozenset\<close> of texts.\<close>

fun in_texts :: "json \<Rightarrow> string list \<Rightarrow> bool result" where
  "in_texts (JStr s) ss = Inr (s \<in> set ss)"
| "in_texts (JArr _) ss = Inl TypeError"
| "in_texts (JObj _) ss = Inl TypeError"
| "in_texts _ ss = Inr False"

fun is_text :: "json \<Rightarrow> bool" where
  "is_text (JStr _) = True"
| "is_text _ = False"

lemma is_text_iff: "is_text v \<longleftrightarrow> (\<exists>s. v = JStr s)"
  by (cases v) simp_all

text \<open>Numbers: integers and floats compare by their exact values, and a NaN is below nothing.\<close>

fun is_number :: "json \<Rightarrow> bool" where
  "is_number (JInt _) = True"
| "is_number (JFloat _) = True"
| "is_number _ = False"

fun number_of :: "json \<Rightarrow> pfloat" where
  "number_of (JInt n) = Fin (of_int n)"
| "number_of (JFloat NegZero) = Fin 0"
| "number_of (JFloat x) = x"
| "number_of _ = NotANumber"

fun num_less :: "pfloat \<Rightarrow> pfloat \<Rightarrow> bool" where
  "num_less (Fin a) (Fin b) = (a < b)"
| "num_less (Inf neg) (Inf neg') = (neg \<and> \<not> neg')"
| "num_less (Inf neg) (Fin _) = neg"
| "num_less (Fin _) (Inf neg) = (\<not> neg)"
| "num_less _ _ = False"

fun num_le :: "pfloat \<Rightarrow> pfloat \<Rightarrow> bool" where
  "num_le (Fin a) (Fin b) = (a \<le> b)"
| "num_le (Inf neg) (Inf neg') = (neg \<or> \<not> neg')"
| "num_le (Inf neg) (Fin _) = neg"
| "num_le (Fin _) (Inf neg) = (\<not> neg)"
| "num_le _ _ = False"

section \<open>The schema\<close>

definition ACCENTS :: "string list" where
  "ACCENTS = [''teal'', ''blue'', ''amber'', ''violet'', ''red'']"

definition STATUSES :: "string list" where
  "STATUSES = [''ok'', ''pending'', ''blocked'']"

definition TOP_LEVEL_KEYS :: "string list" where
  "TOP_LEVEL_KEYS = [''kpis'', ''bars'', ''facts'']"

definition KPI_KEYS :: "string list" where
  "KPI_KEYS = [''label'', ''value'', ''note'', ''accent'']"

definition BAR_ROW_KEYS :: "string list" where
  "BAR_ROW_KEYS = [''label'', ''value'', ''max'', ''display'', ''accent'']"

definition FACT_ROW_KEYS :: "string list" where
  "FACT_ROW_KEYS = [''label'', ''value'', ''status'']"

text \<open>The pattern of a KPI key, a lower-case letter and then lower-case letters, digits and
  underscores. \<open>$\<close> also matches before a newline that ends the text.\<close>

definition key_char :: "char \<Rightarrow> bool" where
  "key_char c \<longleftrightarrow> 97 \<le> ord c \<and> ord c \<le> 122 \<or> is_digit c \<or> c = CHR ''_''"

definition kpi_key :: "string \<Rightarrow> bool" where
  "kpi_key s = (case s of [] \<Rightarrow> False | c # cs \<Rightarrow>
     97 \<le> ord c \<and> ord c \<le> 122 \<and> dropWhile key_char cs \<in> {[], [chr 10]})"

section \<open>The checks\<close>

text \<open>\<open>_check_keys\<close>: the problems, and whether the keys are exactly the expected ones.\<close>

definition check_keys :: "string \<Rightarrow> json \<Rightarrow> string list \<Rightarrow> string list \<times> bool" where
  "check_keys path obj expected =
     (case obj of
        JObj kvs \<Rightarrow>
          (let missing = sort (filter (\<lambda>k. k \<notin> set (dict_keys kvs)) expected);
               extra = sort (filter (\<lambda>k. k \<notin> set expected) (dict_keys kvs))
           in ((if missing \<noteq> [] then [path @ '': missing keys '' @ list_repr missing] else [])
               @ (if extra \<noteq> [] then [path @ '': unexpected keys '' @ list_repr extra] else []),
               missing = [] \<and> extra = []))
      | _ \<Rightarrow> ([path @ '': expected an object''], False))"

fun members :: "json \<Rightarrow> (string \<times> json) list" where
  "members (JObj kvs) = kvs"
| "members _ = []"

definition check_strings :: "string \<Rightarrow> (string \<times> json) list \<Rightarrow> string list \<Rightarrow> string list" where
  "check_strings path kvs names =
     concat (map (\<lambda>name. case dict_get kvs name of
        Some v \<Rightarrow> if is_text v then [] else [path @ ''.'' @ name @ '': expected a string'']
      | None \<Rightarrow> []) names)"

text \<open>The test of a member against a closed set, which the three panels end with.\<close>

definition check_choice :: "string \<Rightarrow> (string \<times> json) list \<Rightarrow> string \<Rightarrow> string list \<Rightarrow> string list result" where
  "check_choice path kvs name choices =
     res_bind (in_texts (member kvs name) choices) (\<lambda>found.
       Inr (if found then []
            else [path @ ''.'' @ name @ '': '' @ json_repr (member kvs name) @ '' is not one of ''
                  @ list_repr (sort choices)]))"

definition check_kpi :: "string \<times> json \<Rightarrow> string list result" where
  "check_kpi kv =
     (let path = ''kpis.'' @ fst kv;
          named = (if kpi_key (fst kv) then [] else [path @ '': key must be snake_case'']);
          (problems, ok) = check_keys path (snd kv) KPI_KEYS
      in if \<not> ok then Inr (named @ problems)
         else res_bind (check_choice path (members (snd kv)) ''accent'' ACCENTS) (\<lambda>accent.
           Inr (named @ problems
                @ check_strings path (members (snd kv)) [''label'', ''value'', ''note'', ''accent''] @ accent)))"

definition check_bar :: "string \<Rightarrow> json \<Rightarrow> string list result" where
  "check_bar path row =
     (let (problems, ok) = check_keys path row BAR_ROW_KEYS; kvs = members row
      in if \<not> ok then Inr problems
         else res_bind (check_choice path kvs ''accent'' ACCENTS) (\<lambda>accent.
           let value = member kvs ''value''; maximum = member kvs ''max'';
               v = number_of value; m = number_of maximum
           in Inr (problems @ check_strings path kvs [''label'', ''display'', ''accent''] @ accent
                @ (if \<not> is_number value \<or> \<not> is_number maximum then [path @ '': value and max must be numbers'']
                   else (if num_le m (Fin 0) then [path @ ''.max: must be positive''] else [])
                     @ (if num_less v (Fin 0) \<or> num_less m v
                        then [path @ '': value '' @ json_str value @ '' is outside [0, '' @ json_str maximum @ '']'']
                        else [])))))"

definition check_fact :: "string \<Rightarrow> json \<Rightarrow> string list result" where
  "check_fact path row =
     (let (problems, ok) = check_keys path row FACT_ROW_KEYS; kvs = members row
      in if \<not> ok then Inr problems
         else res_bind (check_choice path kvs ''status'' STATUSES) (\<lambda>status.
           Inr (problems @ check_strings path kvs [''label'', ''value'', ''status''] @ status)))"

definition check_kpis :: "json \<Rightarrow> string list result" where
  "check_kpis kpis =
     (case kpis of
        JObj (kv # kvs) \<Rightarrow> res_bind (res_map check_kpi (kv # kvs)) (\<lambda>ps. Inr (concat ps))
      | _ \<Rightarrow> Inr [''kpis: expected a non-empty object''])"

text \<open>The rows of a panel, each checked under a name with its index.\<close>

definition check_rows :: "(string \<Rightarrow> json \<Rightarrow> string list result) \<Rightarrow> string \<Rightarrow> json list \<Rightarrow> string list result" where
  "check_rows check path rows =
     res_bind (res_map (\<lambda>(i, row). check (path @ ''['' @ nat_str i @ '']'') row) (enumerate 0 rows))
       (\<lambda>ps. Inr (concat ps))"

text \<open>\<open>_check_bars\<close> and \<open>_check_facts\<close> differ in the name of the panel and the check of a row.\<close>

definition check_panel :: "string \<Rightarrow> (string \<Rightarrow> json \<Rightarrow> string list result) \<Rightarrow> json \<Rightarrow> string list result" where
  "check_panel panel check obj =
     (let (problems, ok) = check_keys panel obj [''title'', ''rows'']; kvs = members obj
      in if \<not> ok then Inr problems
         else case member kvs ''rows'' of
             JArr (row # rows) \<Rightarrow>
               res_bind (check_rows check (panel @ ''.rows'') (row # rows)) (\<lambda>ps.
                 Inr (problems @ check_strings panel kvs [''title''] @ ps))
           | _ \<Rightarrow> Inr (problems @ check_strings panel kvs [''title'']
                       @ [panel @ ''.rows: expected a non-empty list'']))"

definition check_bars :: "json \<Rightarrow> string list result" where
  "check_bars bars = check_panel ''bars'' check_bar bars"

definition check_facts :: "json \<Rightarrow> string list result" where
  "check_facts facts = check_panel ''facts'' check_fact facts"

definition problems_in :: "json \<Rightarrow> string list result" where
  "problems_in doc =
     (let (problems, ok) = check_keys ''headline'' doc TOP_LEVEL_KEYS; kvs = members doc
      in if \<not> ok then Inr problems
         else res_bind (check_kpis (member kvs ''kpis'')) (\<lambda>a.
              res_bind (check_bars (member kvs ''bars'')) (\<lambda>b.
              res_bind (check_facts (member kvs ''facts'')) (\<lambda>c.
                Inr (problems @ a @ b @ c)))))"

definition assert_valid :: "json \<Rightarrow> unit result" where
  "assert_valid doc =
     res_bind (problems_in doc) (\<lambda>found.
       if found \<noteq> [] then
         Inl (HeadlineError (''headline.json does not match the schema:'' @ [chr 10] @ ''  ''
                             @ join ([chr 10] @ ''  '') found))
       else Inr ())"

text \<open>The exit code of \<open>main\<close>: the argument count, the file (\<open>None\<close> is \<open>OSError\<close>), the decoder and
  the check.\<close>

definition check_main :: "(string \<Rightarrow> string option) \<Rightarrow> string list \<Rightarrow> nat result" where
  "check_main read_text argv =
     (case argv of
        [_, path] \<Rightarrow>
          (case read_text path of
             None \<Rightarrow> Inr 1
           | Some text \<Rightarrow>
               (case json_loads text of
                  None \<Rightarrow> Inr 1
                | Some doc \<Rightarrow> res_bind (problems_in doc) (\<lambda>found. Inr (if found \<noteq> [] then 1 else 0))))
      | _ \<Rightarrow> Inr 1)"

section \<open>What passes\<close>

text \<open>The schema as a predicate: exactly these keys, texts where texts are expected, accents and
  statuses of the closed sets, and a bar between zero and a positive maximum.\<close>

definition has_keys :: "(string \<times> json) list \<Rightarrow> string list \<Rightarrow> bool" where
  "has_keys kvs names \<longleftrightarrow> set (dict_keys kvs) = set names"

definition texts_at :: "(string \<times> json) list \<Rightarrow> string list \<Rightarrow> bool" where
  "texts_at kvs names \<longleftrightarrow> list_all (\<lambda>n. is_text (member kvs n)) names"

definition choice_at :: "(string \<times> json) list \<Rightarrow> string \<Rightarrow> string list \<Rightarrow> bool" where
  "choice_at kvs name choices \<longleftrightarrow> (case member kvs name of JStr s \<Rightarrow> s \<in> set choices | _ \<Rightarrow> False)"

definition tile_ok :: "json \<Rightarrow> bool" where
  "tile_ok v \<longleftrightarrow> is_obj v \<and> has_keys (members v) KPI_KEYS \<and> texts_at (members v) KPI_KEYS
     \<and> choice_at (members v) ''accent'' ACCENTS"

definition range_ok :: "json \<Rightarrow> json \<Rightarrow> bool" where
  "range_ok value maximum \<longleftrightarrow> is_number value \<and> is_number maximum \<and> \<not> num_le (number_of maximum) (Fin 0)
     \<and> \<not> num_less (number_of value) (Fin 0) \<and> \<not> num_less (number_of maximum) (number_of value)"

definition bar_ok :: "json \<Rightarrow> bool" where
  "bar_ok v \<longleftrightarrow> is_obj v \<and> has_keys (members v) BAR_ROW_KEYS
     \<and> texts_at (members v) [''label'', ''display'', ''accent''] \<and> choice_at (members v) ''accent'' ACCENTS
     \<and> range_ok (member (members v) ''value'') (member (members v) ''max'')"

definition fact_ok :: "json \<Rightarrow> bool" where
  "fact_ok v \<longleftrightarrow> is_obj v \<and> has_keys (members v) FACT_ROW_KEYS \<and> texts_at (members v) FACT_ROW_KEYS
     \<and> choice_at (members v) ''status'' STATUSES"

definition panel_ok :: "(json \<Rightarrow> bool) \<Rightarrow> json \<Rightarrow> bool" where
  "panel_ok row_ok v \<longleftrightarrow> is_obj v \<and> has_keys (members v) [''title'', ''rows''] \<and> is_text (member (members v) ''title'')
     \<and> (case member (members v) ''rows'' of JArr rows \<Rightarrow> rows \<noteq> [] \<and> list_all row_ok rows | _ \<Rightarrow> False)"

definition kpis_ok :: "json \<Rightarrow> bool" where
  "kpis_ok v \<longleftrightarrow> is_obj v \<and> members v \<noteq> [] \<and> list_all (\<lambda>kv. kpi_key (fst kv) \<and> tile_ok (snd kv)) (members v)"

definition headline_ok :: "json \<Rightarrow> bool" where
  "headline_ok doc \<longleftrightarrow> is_obj doc \<and> has_keys (members doc) TOP_LEVEL_KEYS
     \<and> kpis_ok (member (members doc) ''kpis'') \<and> panel_ok bar_ok (member (members doc) ''bars'')
     \<and> panel_ok fact_ok (member (members doc) ''facts'')"

lemma is_obj_iff: "is_obj v \<longleftrightarrow> (\<exists>kvs. v = JObj kvs)"
  by (cases v) simp_all

lemma sort_Nil_iff: "sort xs = [] \<longleftrightarrow> xs = []"
  by (metis length_0_conv length_sort)

lemma check_keys_cases:
  assumes "check_keys path obj expected = (problems, ok)"
  shows "ok \<longleftrightarrow> is_obj obj \<and> has_keys (members obj) expected" and "problems = [] \<longleftrightarrow> ok"
  using assms
  by (cases obj; auto simp: check_keys_def has_keys_def Let_def sort_Nil_iff filter_empty_conv split: if_splits; fail)+

lemma concat_Nil_iff: "concat xss = [] \<longleftrightarrow> list_all (\<lambda>xs. xs = []) xss"
  by (simp add: list_all_iff)

lemma check_strings_ok:
  assumes "set names \<subseteq> set (dict_keys kvs)"
  shows "check_strings path kvs names = [] \<longleftrightarrow> texts_at kvs names"
  using assms
  by (induction names)
     (auto simp: check_strings_def texts_at_def member_def dict_get_or_def map_of_eq_None_iff split: option.splits)

lemma check_choice_ok: "check_choice path kvs name choices = Inr [] \<longleftrightarrow> choice_at kvs name choices"
  by (cases "member kvs name") (simp_all add: check_choice_def choice_at_def)

lemma in_texts_error: "in_texts v ss = Inl e \<Longrightarrow> e = TypeError"
  by (cases v) simp_all

lemma res_map_Nil_iff:
  "(\<exists>ps. res_map f xs = Inr ps \<and> concat ps = []) \<longleftrightarrow> list_all (\<lambda>x. f x = Inr []) xs"
proof (induction xs)
  case (Cons x xs)
  show ?case
  proof (cases "f x")
    case (Inr y)
    with Cons show ?thesis by (cases "res_map f xs") (auto simp: list_all_iff)
  qed simp
qed simp

lemma bind_concat_Nil:
  "res_bind (res_map f xs) (\<lambda>ps. Inr (concat ps)) = Inr [] \<longleftrightarrow> list_all (\<lambda>x. f x = Inr []) xs"
  unfolding res_map_Nil_iff [symmetric] by (cases "res_map f xs") auto

subsection \<open>Rows and panels\<close>

locale row_check =
  fixes check :: "string \<Rightarrow> json \<Rightarrow> string list result"
    and ok :: "json \<Rightarrow> bool"
  assumes check_ok: "check path row = Inr [] \<longleftrightarrow> ok row"
begin

lemma rows_ok: "check_rows check path rows = Inr [] \<longleftrightarrow> list_all ok rows"
proof -
  have "list_all (\<lambda>(i, row). ok row) (enumerate n rows) \<longleftrightarrow> list_all ok rows" for n
    by (induction rows arbitrary: n) auto
  then show ?thesis by (simp add: check_rows_def bind_concat_Nil case_prod_unfold check_ok)
qed

lemma panel: "check_panel name check v = Inr [] \<longleftrightarrow> panel_ok ok v"
proof -
  obtain problems good where k: "check_keys name v [''title'', ''rows''] = (problems, good)"
    by (cases "check_keys name v [''title'', ''rows'']")
  note keys = check_keys_cases [OF k]
  show ?thesis
  proof (cases good)
    case False
    with k keys show ?thesis by (auto simp: check_panel_def panel_ok_def)
  next
    case True
    then have "check_strings name (members v) [''title''] = [] \<longleftrightarrow> is_text (member (members v) ''title'')"
      using check_strings_ok [of "[''title'']" "members v" name] keys(1)
      by (simp add: has_keys_def texts_at_def)
    then show ?thesis using True k keys rows_ok
      by (auto simp: check_panel_def panel_ok_def res_bind_Inr_iff Let_def simp del: list.pred_inject
          split: json.split list.split)
  qed
qed

end

lemma check_bar_ok: "check_bar path row = Inr [] \<longleftrightarrow> bar_ok row"
proof -
  obtain problems good where k: "check_keys path row BAR_ROW_KEYS = (problems, good)"
    by (cases "check_keys path row BAR_ROW_KEYS")
  note keys = check_keys_cases [OF k]
  show ?thesis
  proof (cases good)
    case False
    with k keys show ?thesis by (auto simp: check_bar_def bar_ok_def)
  next
    case True
    then have "check_strings path (members row) [''label'', ''display'', ''accent''] = []
        \<longleftrightarrow> texts_at (members row) [''label'', ''display'', ''accent'']"
      using keys(1) by (intro check_strings_ok) (simp add: has_keys_def BAR_ROW_KEYS_def)
    then show ?thesis using True k keys check_choice_ok [of path "members row" "''accent''" ACCENTS]
      by (auto simp: check_bar_def bar_ok_def range_ok_def res_bind_Inr_iff Let_def)
  qed
qed

text \<open>A tile and a fact are the same check over other keys.\<close>

lemma keyed_texts_ok:
  assumes "check_keys path v names = (problems, good)"
  shows "(if \<not> good then Inr problems
          else res_bind (check_choice path (members v) field choices) (\<lambda>chosen.
            Inr (problems @ check_strings path (members v) names @ chosen))) = Inr []
     \<longleftrightarrow> is_obj v \<and> has_keys (members v) names \<and> texts_at (members v) names \<and> choice_at (members v) field choices"
proof (cases good)
  case True
  then have "check_strings path (members v) names = [] \<longleftrightarrow> texts_at (members v) names"
    using check_keys_cases(1) [OF assms] by (intro check_strings_ok) (simp add: has_keys_def)
  then show ?thesis
    using True check_keys_cases [OF assms] check_choice_ok [of path "members v" field choices]
    by (auto simp: res_bind_Inr_iff)
qed (use check_keys_cases [OF assms] in auto)

lemma check_fact_ok: "check_fact path row = Inr [] \<longleftrightarrow> fact_ok row"
proof -
  obtain problems good where k: "check_keys path row FACT_ROW_KEYS = (problems, good)"
    by (cases "check_keys path row FACT_ROW_KEYS")
  show ?thesis using keyed_texts_ok [OF k, of "''status''" STATUSES]
    by (cases good) (simp_all add: check_fact_def fact_ok_def k FACT_ROW_KEYS_def [symmetric] Let_def)
qed

lemma check_kpi_ok: "check_kpi kv = Inr [] \<longleftrightarrow> kpi_key (fst kv) \<and> tile_ok (snd kv)"
proof -
  let ?path = "''kpis.'' @ fst kv"
  obtain problems good where k: "check_keys ?path (snd kv) KPI_KEYS = (problems, good)"
    by (cases "check_keys ?path (snd kv) KPI_KEYS")
  have "check_kpi kv = Inr [] \<longleftrightarrow> kpi_key (fst kv) \<and>
     (if \<not> good then Inr problems
      else res_bind (check_choice ?path (members (snd kv)) ''accent'' ACCENTS) (\<lambda>chosen.
        Inr (problems @ check_strings ?path (members (snd kv)) KPI_KEYS @ chosen))) = Inr []"
    using k by (auto simp: check_kpi_def KPI_KEYS_def Let_def res_bind_Inr_iff)
  then show ?thesis unfolding keyed_texts_ok [OF k] tile_ok_def .
qed

interpretation bar: row_check check_bar bar_ok
  by unfold_locales (rule check_bar_ok)

interpretation fact: row_check check_fact fact_ok
  by unfold_locales (rule check_fact_ok)

lemma check_kpis_ok: "check_kpis v = Inr [] \<longleftrightarrow> kpis_ok v"
  by (cases v) (auto simp: check_kpis_def kpis_ok_def bind_concat_Nil check_kpi_ok simp del: res_map.simps concat.simps list.pred_inject split: list.split)

text \<open>The check finds nothing exactly in the documents of the schema.\<close>

lemma problems_iff: "problems_in doc = Inr [] \<longleftrightarrow> headline_ok doc"
proof -
  obtain problems good where k: "check_keys ''headline'' doc TOP_LEVEL_KEYS = (problems, good)"
    by (cases "check_keys ''headline'' doc TOP_LEVEL_KEYS")
  show ?thesis using k check_keys_cases [OF k]
    by (auto simp: problems_in_def headline_ok_def res_bind_Inr_iff Let_def check_kpis_ok [symmetric] check_bars_def
        check_facts_def bar.panel [of "''bars''", symmetric] fact.panel [of "''facts''", symmetric])
qed

end
