(* ===== verification/Render.thy ===== *)
theory Render
  imports HeadlineCheck
begin

text \<open>
  The renderer of the results card: \<open>metrics/render.py\<close>. The decoded \<open>headline.json\<close> is a
  \<^typ>\<open>json\<close>, the strings of \<open>card.json\<close> are a record, and the README and the SVG are texts; the
  three characters the card draws that lie beyond Latin-1 (the ellipsis and the two bar blocks) are
  texts given with the card. Coordinates are Python floats, so every operation on them rounds.

  The locale \<open>marked_text\<close> is what replacing a block between two markers needs of the markers: the
  opening one begins with a character it has nowhere else. It is interpreted on the README's.
\<close>

section \<open>Texts\<close>

primrec words_from :: "string \<Rightarrow> string \<Rightarrow> string list" where
  "words_from cur [] = (if cur = [] then [] else [rev cur])"
| "words_from cur (c # s) =
     (if is_space c then (if cur = [] then [] else [rev cur]) @ words_from [] s
      else words_from (c # cur) s)"

text \<open>\<open>" ".join(text.split())\<close>.\<close>

definition squeeze :: "string \<Rightarrow> string" where
  "squeeze s = join '' '' (words_from [] s)"

text \<open>\<open>xml.sax.saxutils.escape\<close>.\<close>

definition escape_char :: "char \<Rightarrow> string" where
  "escape_char c = (if c = CHR ''&'' then ''&amp;'' else if c = CHR ''>'' then ''&gt;''
     else if c = CHR ''<'' then ''&lt;'' else [c])"

definition escape :: "string \<Rightarrow> string" where
  "escape s = concat (map escape_char s)"

text \<open>\<open>text.split(sep, 1)\<close>, when \<open>sep\<close> occurs.\<close>

fun split_once :: "string \<Rightarrow> string \<Rightarrow> (string \<times> string) option" where
  "split_once sep [] = (if sep = [] then Some ([], []) else None)"
| "split_once sep (c # s) =
     (if prefix sep (c # s) then Some ([], drop (length sep) (c # s))
      else map_option (\<lambda>(a, b). (c # a, b)) (split_once sep s))"

section \<open>Decoded values\<close>

record card =
  cd_title :: string
  cd_subtitle :: string
  cd_make_target :: string
  cd_kpi_order :: "string list"
  cd_ellipsis :: string
  cd_full :: string
  cd_light :: string

text \<open>\<open>k in v\<close>, iteration, \<open>v.items()\<close>, and a value whose \<open>split\<close> method is called.\<close>

fun json_has :: "json \<Rightarrow> string \<Rightarrow> bool result" where
  "json_has (JObj kvs) k = Inr (k \<in> set (dict_keys kvs))"
| "json_has (JArr vs) k = Inr (JStr k \<in> set vs)"
| "json_has (JStr s) k = Inr (contains k s)"
| "json_has _ k = Inl TypeError"

fun json_iter :: "json \<Rightarrow> json list result" where
  "json_iter (JObj kvs) = Inr (map JStr (dict_keys kvs))"
| "json_iter (JArr vs) = Inr vs"
| "json_iter (JStr s) = Inr (map (\<lambda>c. JStr [c]) s)"
| "json_iter _ = Inl TypeError"

fun json_items :: "json \<Rightarrow> (string \<times> json) list result" where
  "json_items (JObj kvs) = Inr kvs"
| "json_items _ = Inl AttributeError"

fun as_text :: "json \<Rightarrow> string result" where
  "as_text (JStr s) = Inr s"
| "as_text _ = Inl AttributeError"

text \<open>A value in a comparison or a division: booleans are integers.\<close>

fun as_number :: "json \<Rightarrow> json result" where
  "as_number (JBool b) = Inr (JInt (if b then 1 else 0))"
| "as_number (JInt n) = Inr (JInt n)"
| "as_number (JFloat x) = Inr (JFloat x)"
| "as_number _ = Inl TypeError"

definition too_large :: "rat \<Rightarrow> bool" where
  "too_large x \<longleftrightarrow> 2 ^ 1024 \<le> \<bar>x\<bar>"

lemma too_large_code [code]: "too_large x = (if \<bar>x\<bar> \<le> 1000000 then False else 2 ^ 1024 \<le> \<bar>x\<bar>)"
proof -
  have "(1000000 :: rat) < 2 ^ 1024" by simp
  then show ?thesis by (auto simp: too_large_def)
qed

fun to_double :: "json \<Rightarrow> pfloat result" where
  "to_double (JFloat x) = Inr (if x = NegZero then Fin 0 else x)"
| "to_double (JInt n) = (if too_large (fl (of_int n)) then Inl OverflowError else Inr (Fin (fl (of_int n))))"
| "to_double _ = Inl TypeError"

text \<open>The quotient by a number that is not zero.\<close>

fun double_div :: "pfloat \<Rightarrow> pfloat \<Rightarrow> pfloat" where
  "double_div (Fin a) (Fin b) = (let q = fl (a / b) in if too_large q then Inf (q < 0) else Fin q)"
| "double_div (Fin a) (Inf neg) = Fin 0"
| "double_div (Inf neg) (Fin b) = Inf (neg \<noteq> (b < 0))"
| "double_div _ _ = NotANumber"

fun quotient :: "json \<Rightarrow> json \<Rightarrow> pfloat result" where
  "quotient (JInt a) (JInt b) =
     (let q = fl (of_int a / of_int b) in if too_large q then Inl OverflowError else Inr (Fin q))"
| "quotient a b = res_bind (to_double a) (\<lambda>x. res_bind (to_double b) (\<lambda>y. Inr (double_div x y)))"

text \<open>\<open>row["value"] / row["max"] if row["max"] else 0\<close>.\<close>

definition fraction :: "json \<Rightarrow> pfloat result" where
  "fraction row =
     res_bind (json_index row ''max'') (\<lambda>m.
       if m \<in> {JNull, JBool False, JInt 0, JFloat (Fin 0), JFloat NegZero, JStr [], JArr [], JObj []}
       then Inr (Fin 0)
       else res_bind (json_index row ''value'') (\<lambda>v.
            res_bind (as_number v) (\<lambda>v'. res_bind (as_number m) (quotient v'))))"

section \<open>Validation\<close>

definition ACCENT_COLOURS :: "(string, string) dict" where
  "ACCENT_COLOURS = [(''teal'', ''#2dd4bf''), (''blue'', ''#60a5fa''), (''amber'', ''#fbbf24''),
     (''violet'', ''#a78bfa''), (''red'', ''#f87171'')]"

definition STATUS_WORD :: "(string, string) dict" where
  "STATUS_WORD = [(''ok'', ''observed''), (''pending'', ''pending''), (''blocked'', ''not claimed'')]"

text \<open>\<open>f"{xs}"\<close> for the list of keys of an object.\<close>

definition guard :: "bool \<Rightarrow> py_error \<Rightarrow> unit result" where
  "guard b e = (if b then Inr () else Inl e)"

fun each :: "('a \<Rightarrow> unit result) \<Rightarrow> 'a list \<Rightarrow> unit result" where
  "each f [] = Inr ()"
| "each f (x # xs) = res_bind (f x) (\<lambda>_. each f xs)"

definition valid_tile :: "string \<times> json \<Rightarrow> unit result" where
  "valid_tile = (\<lambda>(key, tile).
     res_bind (each (\<lambda>f. res_bind (json_has tile f) (\<lambda>found.
        guard found (SystemExit (''kpi '' @ [chr 39] @ key @ [chr 39] @ '': missing '' @ [chr 39] @ f @ [chr 39]))))
        KPI_KEYS) (\<lambda>_.
     res_bind (json_index tile ''accent'') (\<lambda>a.
     res_bind (in_texts a (dict_keys ACCENT_COLOURS)) (\<lambda>found.
       guard found (SystemExit (''kpi '' @ [chr 39] @ key @ [chr 39] @ '': bad accent '' @ json_repr a))))))"

definition valid_bar :: "json \<Rightarrow> unit result" where
  "valid_bar row =
     res_bind (json_index row ''value'') (\<lambda>v.
     res_bind (as_number v) (\<lambda>v'.
     res_bind (if num_le (Fin 0) (number_of v')
               then res_bind (json_index row ''max'') (\<lambda>m. res_bind (as_number m) (\<lambda>m'.
                      Inr (num_le (number_of v') (number_of m'))))
               else Inr False) (\<lambda>inside.
     res_bind (if inside then Inr () else
        res_bind (json_index row ''label'') (\<lambda>l.
          Inl (SystemExit (''bar '' @ json_repr l @ '': value outside [0, max]'')))) (\<lambda>_.
     res_bind (json_index row ''accent'') (\<lambda>a.
     res_bind (in_texts a (dict_keys ACCENT_COLOURS)) (\<lambda>found.
       if found then Inr () else
        res_bind (json_index row ''label'') (\<lambda>l.
          Inl (SystemExit (''bar '' @ json_repr l @ '': bad accent'')))))))))"

definition valid_fact :: "json \<Rightarrow> unit result" where
  "valid_fact row =
     res_bind (json_index row ''status'') (\<lambda>s.
     res_bind (in_texts s STATUSES) (\<lambda>found.
       if found then Inr () else
        res_bind (json_index row ''label'') (\<lambda>l.
          Inl (SystemExit (''fact '' @ json_repr l @ '': bad status '' @ json_repr s)))))"

text \<open>\<open>headline[panel]["rows"]\<close>, iterated.\<close>

definition panel_rows :: "json \<Rightarrow> string \<Rightarrow> json list result" where
  "panel_rows headline panel =
     res_bind (json_index headline panel) (\<lambda>p. res_bind (json_index p ''rows'') json_iter)"

definition validate :: "json \<Rightarrow> string list \<Rightarrow> unit result" where
  "validate headline kpi_order =
     res_bind (each (\<lambda>k. res_bind (json_has headline k) (\<lambda>found.
        guard found (SystemExit (''headline.json: missing '' @ [chr 39] @ k @ [chr 39])))) TOP_LEVEL_KEYS) (\<lambda>_.
     res_bind (json_index headline ''kpis'') (\<lambda>kpis.
     res_bind (json_iter kpis) (\<lambda>keys.
     res_bind (guard (keys = map JStr kpi_order) (SystemExit (''kpi keys '' @ json_repr (JArr keys)
        @ '' do not match card.json kpi_order '' @ list_repr kpi_order))) (\<lambda>_.
     res_bind (json_items kpis) (\<lambda>tiles.
     res_bind (each valid_tile tiles) (\<lambda>_.
     res_bind (panel_rows headline ''bars'') (\<lambda>bars.
     res_bind (each valid_bar bars) (\<lambda>_.
     res_bind (panel_rows headline ''facts'') (each valid_fact)))))))))"

section \<open>The SVG card\<close>

definition clip :: "string \<Rightarrow> string \<Rightarrow> nat \<Rightarrow> string" where
  "clip ellipsis text limit =
     (let t = squeeze text in
      if length t \<le> limit then t else rstrip (take (limit - 1) t) @ ellipsis)"

definition WIDTH :: nat where "WIDTH = 920"
definition PAD :: nat where "PAD = 28"
definition TILE_GAP :: nat where "TILE_GAP = 14"
definition TILE_H :: nat where "TILE_H = 92"
definition BAR_ROW_H :: nat where "BAR_ROW_H = 30"
definition FONT :: string where "FONT = ''-apple-system, '' @ [chr 39] @ ''Segoe UI'' @ [chr 39] @ '', Helvetica, Arial, sans-serif''"
definition BG :: string where "BG = ''#0f172a''"
definition PANEL :: string where "PANEL = ''#1e293b''"
definition TEXT :: string where "TEXT = ''#e2e8f0''"
definition MUTED :: string where "MUTED = ''#94a3b8''"
definition TRACK :: string where "TRACK = ''#334155''"

text \<open>An element with its attributes, and the two kinds of line the card is made of.\<close>

definition attributes :: "(string \<times> string) list \<Rightarrow> string" where
  "attributes kvs = concat (map (\<lambda>(k, v). '' '' @ k @ ''='' @ [chr 34] @ v @ [chr 34]) kvs)"

definition text_line :: "string \<Rightarrow> string \<Rightarrow> (string \<times> string) list \<Rightarrow> string \<Rightarrow> string \<Rightarrow> string" where
  "text_line x y font fill body =
     ''<text'' @ attributes ([(''x'', x), (''y'', y)] @ font @ [(''fill'', fill)]) @ ''>'' @ body @ ''</text>''"

definition rect_line :: "string \<Rightarrow> string \<Rightarrow> string \<Rightarrow> string \<Rightarrow> string \<Rightarrow> string \<Rightarrow> string" where
  "rect_line x y width height rx fill =
     ''<rect'' @ attributes [(''x'', x), (''y'', y), (''width'', width), (''height'', height), (''rx'', rx), (''fill'', fill)]
       @ ''/>''"

definition colour_of :: "json \<Rightarrow> string result" where
  "colour_of v = (case v of
     JStr s \<Rightarrow> (case dict_get ACCENT_COLOURS s of None \<Rightarrow> Inl KeyError | Some c \<Rightarrow> Inr c)
   | JArr _ \<Rightarrow> Inl TypeError | JObj _ \<Rightarrow> Inl TypeError | _ \<Rightarrow> Inl KeyError)"

text \<open>\<open>escape(clip(v[k], limit))\<close>.\<close>

definition clipped :: "card \<Rightarrow> json \<Rightarrow> string \<Rightarrow> nat \<Rightarrow> string result" where
  "clipped cd v k limit =
     res_bind (json_index v k) (\<lambda>w. res_bind (as_text w) (\<lambda>t. Inr (escape (clip (cd_ellipsis cd) t limit))))"

definition tile_width :: "nat \<Rightarrow> rat" where
  "tile_width per_row = fl (of_int (int WIDTH - 2 * int PAD - int TILE_GAP * (int per_row - 1)) / of_nat per_row)"

definition tile_parts :: "card \<Rightarrow> nat \<Rightarrow> nat \<Rightarrow> nat \<times> json \<Rightarrow> string list result" where
  "tile_parts cd per_row y = (\<lambda>(i, tile).
     let tile_w = tile_width per_row; col = i mod per_row; row = i div per_row;
         x = fl (of_nat PAD + fl (of_nat col * fl (tile_w + of_nat TILE_GAP)));
         ty = y + row * (TILE_H + TILE_GAP); inner = fixed 1 (fl (x + 16))
     in res_bind (json_index tile ''accent'') (\<lambda>a.
        res_bind (colour_of a) (\<lambda>colour.
        res_bind (clipped cd tile ''label'' 34) (\<lambda>label.
        res_bind (clipped cd tile ''value'' 22) (\<lambda>value.
        res_bind (clipped cd tile ''note'' (nat (int_of (fl (tile_w / fl (56 / 10)))))) (\<lambda>note.
          Inr [rect_line (fixed 1 x) (nat_str ty) (fixed 1 tile_w) (nat_str TILE_H) ''10'' PANEL,
               rect_line (fixed 1 x) (nat_str ty) ''4'' (nat_str TILE_H) ''2'' colour,
               text_line inner (nat_str (ty + 24)) [(''font-size'', ''12'')] MUTED label,
               text_line inner (nat_str (ty + 56)) [(''font-size'', ''26''), (''font-weight'', ''700'')] colour value,
               text_line inner (nat_str (ty + 78)) [(''font-size'', ''10.5'')] MUTED note]))))))"

definition bar_x :: nat where "bar_x = PAD + 300"
definition bar_w :: nat where "bar_w = WIDTH - bar_x - PAD - 150"

text \<open>\<open>f"{max(6, bar_w * frac):.1f}"\<close> for a fraction above zero.\<close>

fun bar_length :: "pfloat \<Rightarrow> string" where
  "bar_length (Fin x) =
     (let w = fl (of_nat bar_w * x) in if too_large w then ''inf'' else fixed 1 (if 6 < w then w else 6))"
| "bar_length _ = ''inf''"

definition bar_parts :: "card \<Rightarrow> nat \<Rightarrow> nat \<times> json \<Rightarrow> string list result" where
  "bar_parts cd y0 = (\<lambda>(i, row).
     let y = y0 + i * BAR_ROW_H; cy = fl (of_nat y + fl (of_nat BAR_ROW_H / 2));
         up = float_repr (Fin (fl (cy - 6))); down = float_repr (Fin (fl (cy + 4)))
     in res_bind (fraction row) (\<lambda>frac.
        res_bind (json_index row ''accent'') (\<lambda>a.
        res_bind (colour_of a) (\<lambda>colour.
        res_bind (clipped cd row ''label'' 44) (\<lambda>label.
        res_bind (clipped cd row ''display'' 22) (\<lambda>display.
          Inr ([text_line (nat_str PAD) down [(''font-size'', ''12'')] TEXT label,
                rect_line (nat_str bar_x) up (nat_str bar_w) ''12'' ''6'' TRACK]
               @ (if num_less (Fin 0) frac
                  then [rect_line (nat_str bar_x) up (bar_length frac) ''12'' ''6'' colour] else [])
               @ [text_line (nat_str (bar_x + bar_w + 12)) down [(''font-size'', ''12'')] MUTED display])))))))"

definition svg_lines :: "string list \<Rightarrow> string" where
  "svg_lines parts = join [chr 10] parts"

definition render_svg :: "json \<Rightarrow> card \<Rightarrow> string result" where
  "render_svg headline cd =
     res_bind (json_index headline ''kpis'') (\<lambda>ks.
     res_bind (json_items ks) (\<lambda>items.
     res_bind (json_index headline ''bars'') (\<lambda>bars.
       let kpis = map snd items; n = length kpis;
           per_row = (if 4 < n then 3 else max 1 n);
           tile_rows = (n + per_row - 1) div per_row;
           y1 = PAD + 62; y2 = y1 + tile_rows * (TILE_H + TILE_GAP) + 10; y3 = y2 + 28
       in res_bind (res_map (tile_parts cd per_row y1) (enumerate 0 kpis)) (\<lambda>tiles.
          res_bind (clipped cd bars ''title'' 130) (\<lambda>title.
          res_bind (panel_rows headline ''bars'') (\<lambda>rows.
          res_bind (res_map (bar_parts cd y3) (enumerate 0 rows)) (\<lambda>drawn.
          res_bind (panel_rows headline ''facts'') (\<lambda>facts.
          res_bind (res_map (\<lambda>r. json_index r ''status'') facts) (\<lambda>statuses.
          res_bind (json_index headline ''facts'') (\<lambda>fp.
          res_bind (json_index fp ''title'') (\<lambda>ft.
          res_bind (as_text ft) (\<lambda>facts_title.
          let y4 = y3 + length rows * BAR_ROW_H + PAD;
              body = svg_lines
                ([text_line (nat_str PAD) (nat_str (PAD + 20)) [(''font-size'', ''22''), (''font-weight'', ''700'')] TEXT
                    (escape (cd_title cd)),
                  text_line (nat_str PAD) (nat_str (PAD + 42)) [(''font-size'', ''13'')] MUTED
                    (escape (clip (cd_ellipsis cd) (cd_subtitle cd) 120))]
                 @ concat tiles
                 @ [text_line (nat_str PAD) (nat_str (y2 + 14)) [(''font-size'', ''13''), (''font-weight'', ''600'')] TEXT title]
                 @ concat drawn
                 @ [text_line (nat_str PAD) (nat_str (y4 - 10)) [(''font-size'', ''11'')] MUTED
                     (escape facts_title @ '': '' @ nat_str (length (filter (\<lambda>s. s = JStr ''ok'') statuses)) @ '' of ''
                      @ nat_str (length facts) @ '' rows observed offline; ''
                      @ ''the rest are marked pending or not claimed in README.md. ''
                      @ ''Generated by metrics/render.py from metrics/headline.json.'')])
          in Inr (''<svg'' @ attributes [(''xmlns'', ''http://www.w3.org/2000/svg''), (''width'', nat_str WIDTH),
                    (''height'', nat_str y4), (''viewBox'', ''0 0 '' @ nat_str WIDTH @ '' '' @ nat_str y4),
                    (''font-family'', FONT), (''role'', ''img''), (''aria-label'', escape (cd_title cd) @ '' results card'')]
                  @ ''>'' @ [chr 10]
                  @ ''<rect'' @ attributes [(''width'', nat_str WIDTH), (''height'', nat_str y4), (''rx'', ''16''), (''fill'', BG)]
                  @ ''/>'' @ [chr 10] @ body @ [chr 10] @ ''</svg>'' @ [chr 10])))))))))))))"

section \<open>The README block\<close>

definition START :: string where "START = ''<!-- metrics:start -->''"
definition END_MARK :: string where "END_MARK = ''<!-- metrics:end -->''"

text \<open>A cell of a Markdown table: \<open>str\<close>, white space collapsed, pipes escaped.\<close>

definition md_cell :: "json \<Rightarrow> string" where
  "md_cell v = concat (map (\<lambda>c. if c = CHR ''|'' then [chr 92, c] else [c]) (squeeze (json_str v)))"

definition cell_of :: "json \<Rightarrow> string \<Rightarrow> string result" where
  "cell_of v k = res_bind (json_index v k) (\<lambda>w. Inr (md_cell w))"

definition status_word :: "json \<Rightarrow> string result" where
  "status_word v = (case v of
     JStr s \<Rightarrow> (case dict_get STATUS_WORD s of None \<Rightarrow> Inl KeyError | Some w \<Rightarrow> Inr w)
   | JArr _ \<Rightarrow> Inl TypeError | JObj _ \<Rightarrow> Inl TypeError | _ \<Rightarrow> Inl KeyError)"

text \<open>\<open>round(frac * 20)\<close>, ties to even.\<close>

fun filled_cells :: "pfloat \<Rightarrow> int result" where
  "filled_cells (Fin x) = Inr (round_half_even (fl (x * 20)))"
| "filled_cells NegZero = Inr 0"
| "filled_cells NotANumber = Inl ValueError"
| "filled_cells (Inf _) = Inl OverflowError"

definition blocks :: "card \<Rightarrow> int \<Rightarrow> string" where
  "blocks cd filled = concat (replicate (nat filled) (cd_full cd)) @ concat (replicate (nat (20 - filled)) (cd_light cd))"

definition md_tile :: "json \<Rightarrow> string result" where
  "md_tile tile =
     res_bind (cell_of tile ''label'') (\<lambda>l. res_bind (cell_of tile ''value'') (\<lambda>v. res_bind (cell_of tile ''note'') (\<lambda>n.
       Inr (''| '' @ l @ '' | **'' @ v @ ''** | '' @ n @ '' |''))))"

definition md_bar :: "card \<Rightarrow> json \<Rightarrow> string result" where
  "md_bar cd row =
     res_bind (fraction row) (\<lambda>frac. res_bind (filled_cells frac) (\<lambda>filled.
     res_bind (cell_of row ''label'') (\<lambda>l. res_bind (cell_of row ''display'') (\<lambda>d.
       Inr (''| '' @ l @ '' | `'' @ blocks cd filled @ ''` | '' @ d @ '' |'')))))"

definition md_fact :: "json \<Rightarrow> string result" where
  "md_fact row =
     res_bind (cell_of row ''label'') (\<lambda>l. res_bind (json_index row ''status'') (\<lambda>s. res_bind (status_word s) (\<lambda>w.
     res_bind (cell_of row ''value'') (\<lambda>v.
       Inr (''| '' @ l @ '' | '' @ w @ '' | '' @ v @ '' |'')))))"

definition panel_title :: "json \<Rightarrow> string \<Rightarrow> string result" where
  "panel_title headline panel =
     res_bind (json_index headline panel) (\<lambda>p. res_bind (cell_of p ''title'') (\<lambda>t. Inr (''**'' @ t @ ''**'')))"

definition image_line :: string where
  "image_line = ''<img'' @ attributes [(''src'', ''docs/assets/metrics.svg''), (''alt'', ''Results card''), (''width'', ''920'')]
     @ ''>''"

definition intro_line :: "card \<Rightarrow> string" where
  "intro_line cd = ''Every figure below was observed by `'' @ cd_make_target cd @ ''`, which runs offline with ''
     @ ''a fixed seed and no API key, and writes `metrics/headline.json`. '' @ cd_subtitle cd
     @ '' Rows marked *pending* need hardware, data or a service the ''
     @ ''offline harness does not have; nothing here is estimated.''"

text \<open>The lines between the markers.\<close>

definition block_lines ::
    "card \<Rightarrow> string list \<Rightarrow> string \<Rightarrow> string list \<Rightarrow> string \<Rightarrow> string list \<Rightarrow> string list" where
  "block_lines cd tiles bars_title bars facts_title facts =
     [[], ''## Results'', [], image_line, [], intro_line cd, [],
      ''| Metric | Value | How it was measured |'', ''|---|---|---|''] @ tiles
     @ [[], bars_title, [], ''| | | |'', ''|---|---|---|''] @ bars
     @ [[], facts_title, [], ''| | Status | Evidence |'', ''|---|---|---|''] @ facts @ [[]]"

definition render_markdown :: "json \<Rightarrow> card \<Rightarrow> string result" where
  "render_markdown headline cd =
     res_bind (json_index headline ''kpis'') (\<lambda>ks.
     res_bind (json_items ks) (\<lambda>items.
     res_bind (res_map (\<lambda>kv. md_tile (snd kv)) items) (\<lambda>tiles.
     res_bind (panel_title headline ''bars'') (\<lambda>bars_title.
     res_bind (panel_rows headline ''bars'') (\<lambda>rows.
     res_bind (res_map (md_bar cd) rows) (\<lambda>bars.
     res_bind (panel_title headline ''facts'') (\<lambda>facts_title.
     res_bind (panel_rows headline ''facts'') (\<lambda>fs.
     res_bind (res_map md_fact fs) (\<lambda>facts.
       Inr (join [chr 10] (START # block_lines cd tiles bars_title bars facts_title facts @ [END_MARK])))))))))))"

definition splice :: "string \<Rightarrow> string \<Rightarrow> string result" where
  "splice readme block =
     (if contains START readme \<and> contains END_MARK readme then
        (case split_once START readme of
           None \<Rightarrow> Inl ValueError
         | Some (head, rest) \<Rightarrow>
             (case split_once END_MARK rest of
                None \<Rightarrow> Inl ValueError
              | Some (_, tail) \<Rightarrow> Inr (head @ block @ tail)))
      else Inl (SystemExit (''README.md has no '' @ START @ '' / '' @ END_MARK @ '' markers'')))"

text \<open>\<open>main\<close>: the exit code, and the SVG (\<open>None\<close> when there is none) and the README it leaves.\<close>

definition render_main ::
    "bool \<Rightarrow> json \<Rightarrow> card \<Rightarrow> string option \<Rightarrow> string \<Rightarrow> (nat \<times> string option \<times> string) result" where
  "render_main check headline cd svg_file readme =
     res_bind (validate headline (cd_kpi_order cd)) (\<lambda>_.
     res_bind (render_svg headline cd) (\<lambda>svg.
     res_bind (render_markdown headline cd) (\<lambda>block.
     res_bind (splice readme block) (\<lambda>new_readme.
       let old_svg = (case svg_file of None \<Rightarrow> [] | Some t \<Rightarrow> t);
           drift = (new_readme \<noteq> readme \<or> old_svg \<noteq> svg)
       in Inr (if check then (if drift then 1 else 0, svg_file, readme)
               else (0, Some svg, new_readme))))))"

section \<open>Success\<close>

text \<open>A computation that does not raise, and how success composes.\<close>

definition succeeds :: "'a result \<Rightarrow> bool" where
  "succeeds r \<longleftrightarrow> (\<exists>v. r = Inr v)"

lemma succeeds_Inr [simp]: "succeeds (Inr v)"
  by (simp add: succeeds_def)

lemma succeeds_bind [intro]:
  "succeeds r \<Longrightarrow> (\<And>v. r = Inr v \<Longrightarrow> succeeds (f v)) \<Longrightarrow> succeeds (res_bind r f)"
  by (auto simp: succeeds_def)

lemma succeeds_res_map: "(\<And>x. x \<in> set xs \<Longrightarrow> succeeds (f x)) \<Longrightarrow> succeeds (res_map f xs)"
  by (induction xs) (auto intro!: succeeds_bind)

lemma succeeds_each: "(\<And>x. x \<in> set xs \<Longrightarrow> succeeds (f x)) \<Longrightarrow> succeeds (each f xs)"
  by (induction xs) (auto intro!: succeeds_bind)

section \<open>What the checker accepts, the renderer renders\<close>

lemma index_member:
  assumes "is_obj v" "has_keys (members v) names" "k \<in> set names"
  shows "json_index v k = Inr (member (members v) k)"
proof -
  obtain kvs where v: "v = JObj kvs" using assms(1) by (auto simp: is_obj_iff)
  then have "dict_get kvs k \<noteq> None" using assms by (auto simp: has_keys_def map_of_eq_None_iff)
  then show ?thesis by (auto simp: v member_def dict_get_or_def)
qed

lemma has_member: "is_obj v \<Longrightarrow> has_keys (members v) names \<Longrightarrow> k \<in> set names \<Longrightarrow> json_has v k = Inr True"
  by (cases v) (auto simp: has_keys_def)

lemma text_at_index:
  assumes "is_obj v" "has_keys (members v) names" "texts_at (members v) texts" "k \<in> set names" "k \<in> set texts"
  shows "\<exists>s. json_index v k = Inr (JStr s)"
  using assms index_member [OF assms(1,2,4)] by (auto simp: texts_at_def list_all_iff is_text_iff)

lemma choice_colour:
  assumes "choice_at kvs ''accent'' ACCENTS"
  shows "succeeds (colour_of (member kvs ''accent''))"
    and "in_texts (member kvs ''accent'') (dict_keys ACCENT_COLOURS) = Inr True"
  using assms by (auto simp: choice_at_def ACCENTS_def ACCENT_COLOURS_def colour_of_def split: json.splits)

text \<open>Bars whose numbers are integers, or numbers a double can hold.\<close>

fun in_double :: "json \<Rightarrow> bool" where
  "in_double (JInt n) = (\<not> too_large (fl (of_int n)))"
| "in_double (JFloat (Fin x)) = (fl x = x)"
| "in_double (JFloat NegZero) = True"
| "in_double _ = False"

fun is_int :: "json \<Rightarrow> bool" where
  "is_int (JInt _) = True"
| "is_int _ = False"

definition drawable :: "json \<Rightarrow> bool" where
  "drawable row \<longleftrightarrow> (let v = member (members row) ''value''; m = member (members row) ''max'' in
     is_int v \<and> is_int m \<or> in_double v \<and> in_double m)"

lemma unit_quotient:
  assumes "0 \<le> a" "a \<le> b" "0 < b"
  shows "0 \<le> fl (a / b)" "fl (a / b) \<le> 1" "\<not> too_large (fl (a / b))"
proof -
  show "0 \<le> fl (a / b)" using assms by (intro fl_nonneg) simp
  moreover show "fl (a / b) \<le> 1" using assms by (intro fl_le_one) simp
  moreover have "(1 :: rat) < 2 ^ 1024" by simp
  ultimately show "\<not> too_large (fl (a / b))" by (simp add: too_large_def)
qed

lemma to_double_number:
  assumes "in_double v" "number_of v = Fin x"
  shows "to_double v = Inr (Fin (fl x))"
  using assms by (cases v rule: in_double.cases) auto

lemma number_of_in_double: "in_double v \<Longrightarrow> \<exists>x. number_of v = Fin x"
  by (cases v rule: in_double.cases) auto

lemma fl_positive: "0 < x \<Longrightarrow> 0 < fl x"
  by (simp add: fl_def fl_pos_gt_0)

lemma double_quotient:
  assumes "in_double v" "in_double m" "number_of v = Fin x" "number_of m = Fin y" "0 \<le> x" "x \<le> y" "0 < y"
  shows "\<exists>q. res_bind (to_double v) (\<lambda>a. res_bind (to_double m) (\<lambda>b. Inr (double_div a b))) = Inr (Fin q)
    \<and> 0 \<le> q \<and> q \<le> 1"
proof -
  have "0 \<le> fl x" "fl x \<le> fl y" "0 < fl y" using assms by (simp_all add: fl_nonneg fl_mono fl_positive)
  note unit_quotient [OF this]
  then show ?thesis
    using to_double_number [OF assms(1,3)] to_double_number [OF assms(2,4)] by (simp add: Let_def)
qed

lemma quotient_bounds:
  assumes "is_number v" "is_number m" "is_int v \<and> is_int m \<or> in_double v \<and> in_double m"
    and "\<not> num_le (number_of m) (Fin 0)" "\<not> num_less (number_of v) (Fin 0)" "\<not> num_less (number_of m) (number_of v)"
  shows "\<exists>q. quotient v m = Inr (Fin q) \<and> 0 \<le> q \<and> q \<le> 1"
proof (cases "is_int v \<and> is_int m")
  case True
  then obtain a b where ab: "v = JInt a" "m = JInt b" by (metis is_int.elims(2))
  with assms have "(0 :: rat) \<le> of_int a" "(of_int a :: rat) \<le> of_int b" "(0 :: rat) < of_int b" by simp_all
  note unit_quotient [OF this]
  then show ?thesis by (simp add: ab Let_def)
next
  case False
  with assms(3) have d: "in_double v" "in_double m" by auto
  obtain x y where xy: "number_of v = Fin x" "number_of m = Fin y" using number_of_in_double d by metis
  with assms have "0 \<le> x" "x \<le> y" "0 < y" by simp_all
  note double_quotient [OF d xy this]
  then show ?thesis using False assms(1,2) by (cases "(v, m)" rule: quotient.cases) auto
qed

lemma as_number_number: "is_number v \<Longrightarrow> as_number v = Inr v"
  by (cases v) simp_all

lemma bar_index:
  assumes "bar_ok row" "k \<in> set BAR_ROW_KEYS"
  shows "json_index row k = Inr (member (members row) k)"
  using assms by (intro index_member [of row BAR_ROW_KEYS]) (simp_all add: bar_ok_def)

lemma fraction_bounds:
  assumes "bar_ok row" "drawable row"
  shows "\<exists>q. fraction row = Inr (Fin q) \<and> 0 \<le> q \<and> q \<le> 1"
proof -
  let ?v = "member (members row) ''value''" and ?m = "member (members row) ''max''"
  have r: "range_ok ?v ?m" using assms(1) by (simp add: bar_ok_def)
  then have n: "is_number ?v" "is_number ?m" by (simp_all add: range_ok_def)
  have "?m \<notin> {JNull, JBool False, JInt 0, JFloat (Fin 0), JFloat NegZero, JStr [], JArr [], JObj []}"
    using r by (auto simp: range_ok_def)
  moreover have "\<exists>q. quotient ?v ?m = Inr (Fin q) \<and> 0 \<le> q \<and> q \<le> 1"
    using assms(2) r by (intro quotient_bounds) (simp_all add: drawable_def range_ok_def Let_def)
  ultimately show ?thesis
    using bar_index [OF assms(1), of "''value''"] bar_index [OF assms(1), of "''max''"] n
    by (simp add: fraction_def as_number_number BAR_ROW_KEYS_def)
qed

lemma clipped_succeeds:
  assumes "\<exists>s. json_index v k = Inr (JStr s)"
  shows "succeeds (clipped cd v k n)"
  using assms by (auto simp: clipped_def)

lemma cell_succeeds: "json_index v k = Inr w \<Longrightarrow> succeeds (cell_of v k)"
  by (simp add: cell_of_def)

lemma tile_texts:
  assumes "tile_ok t" "k \<in> set KPI_KEYS"
  shows "\<exists>s. json_index t k = Inr (JStr s)"
  using assms by (intro text_at_index [of t KPI_KEYS KPI_KEYS]) (simp_all add: tile_ok_def)

lemma tile_renders: "tile_ok t \<Longrightarrow> succeeds (tile_parts cd p y (i, t)) \<and> succeeds (md_tile t) \<and> succeeds (valid_tile (k, t))"
proof (intro conjI)
  assume t: "tile_ok t"
  then have o: "is_obj t" "has_keys (members t) KPI_KEYS" "choice_at (members t) ''accent'' ACCENTS"
    by (simp_all add: tile_ok_def)
  have i: "json_index t ''accent'' = Inr (member (members t) ''accent'')"
    by (rule index_member [OF o(1,2)]) (simp add: KPI_KEYS_def)
  obtain l v n where texts: "json_index t ''label'' = Inr (JStr l)" "json_index t ''value'' = Inr (JStr v)"
    "json_index t ''note'' = Inr (JStr n)"
    using tile_texts [OF t, of "''label''"] tile_texts [OF t, of "''value''"] tile_texts [OF t, of "''note''"]
    by (auto simp: KPI_KEYS_def)
  obtain c where "colour_of (member (members t) ''accent'') = Inr c"
    using choice_colour(1) [OF o(3)] by (auto simp: succeeds_def)
  with i texts show "succeeds (tile_parts cd p y (i, t))"
    by (simp add: tile_parts_def clipped_def Let_def)
  show "succeeds (md_tile t)" using texts by (simp add: md_tile_def cell_of_def)
  show "succeeds (valid_tile (k, t))"
    using i choice_colour(2) [OF o(3)] has_member [OF o(1,2)]
    by (auto simp: valid_tile_def guard_def intro!: succeeds_bind succeeds_each)
qed

lemma bar_texts:
  assumes "bar_ok row" "k \<in> {''label'', ''display''}"
  shows "\<exists>s. json_index row k = Inr (JStr s)"
  using assms
  by (intro text_at_index [of row BAR_ROW_KEYS "[''label'', ''display'', ''accent'']"])
     (auto simp: bar_ok_def BAR_ROW_KEYS_def)

lemma drawable_finite:
  assumes "drawable row"
  shows "\<exists>x y. number_of (member (members row) ''value'') = Fin x \<and> number_of (member (members row) ''max'') = Fin y"
proof -
  have "\<exists>x. number_of v = Fin x" if "is_int v" for v using that by (cases v) simp_all
  then show ?thesis using assms number_of_in_double unfolding drawable_def Let_def by metis
qed

lemma bar_renders:
  assumes "bar_ok row" "drawable row"
  shows "succeeds (bar_parts cd y (i, row)) \<and> succeeds (md_bar cd row) \<and> succeeds (valid_bar row)"
proof (intro conjI)
  obtain q where q: "fraction row = Inr (Fin q)" using fraction_bounds [OF assms] by blast
  have c: "choice_at (members row) ''accent'' ACCENTS" using assms(1) by (simp add: bar_ok_def)
  have ix: "json_index row ''accent'' = Inr (member (members row) ''accent'')"
    "json_index row ''value'' = Inr (member (members row) ''value'')"
    "json_index row ''max'' = Inr (member (members row) ''max'')"
    by (rule bar_index [OF assms(1)], simp add: BAR_ROW_KEYS_def)+
  obtain l d where texts: "json_index row ''label'' = Inr (JStr l)" "json_index row ''display'' = Inr (JStr d)"
    using bar_texts [OF assms(1), of "''label''"] bar_texts [OF assms(1), of "''display''"] by auto
  obtain colour where "colour_of (member (members row) ''accent'') = Inr colour"
    using choice_colour(1) [OF c] by (auto simp: succeeds_def)
  with q ix texts show "succeeds (bar_parts cd y (i, row))"
    by (simp add: bar_parts_def clipped_def Let_def)
  show "succeeds (md_bar cd row)" using q texts by (simp add: md_bar_def cell_of_def)
  have r: "range_ok (member (members row) ''value'') (member (members row) ''max'')"
    using assms(1) by (simp add: bar_ok_def)
  obtain x y where "number_of (member (members row) ''value'') = Fin x" "number_of (member (members row) ''max'') = Fin y"
    using drawable_finite [OF assms(2)] by blast
  with r have "num_le (Fin 0) (number_of (member (members row) ''value''))"
    "num_le (number_of (member (members row) ''value'')) (number_of (member (members row) ''max''))"
    "is_number (member (members row) ''value'')" "is_number (member (members row) ''max'')"
    by (simp_all add: range_ok_def)
  then show "succeeds (valid_bar row)"
    using ix choice_colour(2) [OF c] by (simp add: valid_bar_def as_number_number)
qed

lemma fact_renders:
  assumes "fact_ok row"
  shows "succeeds (json_index row ''status'') \<and> succeeds (md_fact row) \<and> succeeds (valid_fact row)"
proof -
  have texts: "\<exists>s. json_index row k = Inr (JStr s)" if "k \<in> set FACT_ROW_KEYS" for k
    using assms that by (intro text_at_index [of row FACT_ROW_KEYS FACT_ROW_KEYS]) (simp_all add: fact_ok_def)
  obtain l v s where t: "json_index row ''label'' = Inr (JStr l)" "json_index row ''value'' = Inr (JStr v)"
    "json_index row ''status'' = Inr (JStr s)"
    using texts [of "''label''"] texts [of "''value''"] texts [of "''status''"] by (auto simp: FACT_ROW_KEYS_def)
  have "json_index row ''status'' = Inr (member (members row) ''status'')"
    using assms by (intro index_member [of row FACT_ROW_KEYS]) (simp_all add: fact_ok_def FACT_ROW_KEYS_def)
  then have "member (members row) ''status'' = JStr s" using t(3) by simp
  then have s: "s \<in> set STATUSES" using assms by (simp add: fact_ok_def choice_at_def)
  then have "succeeds (status_word (JStr s))" by (auto simp: STATUSES_def status_word_def STATUS_WORD_def)
  with s t show ?thesis
    by (auto simp: md_fact_def cell_of_def valid_fact_def)
qed

lemma panel_members:
  assumes "panel_ok ok (member (members doc) p)" "is_obj doc" "has_keys (members doc) TOP_LEVEL_KEYS" "p \<in> set TOP_LEVEL_KEYS"
  obtains kvs rows t where "json_index doc p = Inr (JObj kvs)" "json_index (JObj kvs) ''title'' = Inr (JStr t)"
    "panel_rows doc p = Inr rows" "list_all ok rows"
proof -
  let ?v = "member (members doc) p"
  have d: "json_index doc p = Inr ?v" by (rule index_member [OF assms(2-4)])
  obtain kvs where v: "?v = JObj kvs" using assms(1) by (auto simp: panel_ok_def is_obj_iff)
  have k: "json_index ?v n = Inr (member (members ?v) n)" if "n \<in> {''title'', ''rows''}" for n
    using assms(1) that by (intro index_member [of ?v "[''title'', ''rows'']"]) (auto simp: panel_ok_def)
  obtain t where t: "member (members ?v) ''title'' = JStr t" using assms(1) by (auto simp: panel_ok_def is_text_iff)
  obtain rows where r: "member (members ?v) ''rows'' = JArr rows" "list_all ok rows"
    using assms(1) by (auto simp: panel_ok_def split: json.splits)
  show thesis
    using d k [of "''title''"] k [of "''rows''"] t r v by (intro that [of kvs t rows]) (simp_all add: panel_rows_def)
qed

lemma headline_renders:
  assumes "headline_ok doc"
    and "\<exists>kpis rows. json_index doc ''kpis'' = Inr (JObj kpis) \<and> cd_kpi_order cd = dict_keys kpis
       \<and> panel_rows doc ''bars'' = Inr rows \<and> list_all drawable rows"
  shows "\<exists>svg block. validate doc (cd_kpi_order cd) = Inr () \<and> render_svg doc cd = Inr svg
    \<and> render_markdown doc cd = Inr block"
proof -
  have o: "is_obj doc" "has_keys (members doc) TOP_LEVEL_KEYS" using assms(1) by (simp_all add: headline_ok_def)
  obtain kpis rows where k: "json_index doc ''kpis'' = Inr (JObj kpis)" "cd_kpi_order cd = dict_keys kpis"
    and rows: "panel_rows doc ''bars'' = Inr rows" and drawn: "list_all drawable rows"
    using assms(2) by blast
  have top: "''kpis'' \<in> set TOP_LEVEL_KEYS" "''bars'' \<in> set TOP_LEVEL_KEYS" "''facts'' \<in> set TOP_LEVEL_KEYS"
    by (simp_all add: TOP_LEVEL_KEYS_def)
  have "member (members doc) ''kpis'' = JObj kpis" using index_member [OF o top(1)] k by simp
  then have tiles: "tile_ok (snd kv)" if "kv \<in> set kpis" for kv
    using assms(1) that by (auto simp: headline_ok_def kpis_ok_def list_all_iff)
  obtain bkvs bt where b: "json_index doc ''bars'' = Inr (JObj bkvs)" "json_index (JObj bkvs) ''title'' = Inr (JStr bt)"
    and bars: "list_all bar_ok rows"
    by (rule panel_members [of bar_ok doc "''bars''"]) (use assms(1) o top rows in \<open>auto simp: headline_ok_def\<close>)
  obtain fkvs ft facts where f: "json_index doc ''facts'' = Inr (JObj fkvs)" "json_index (JObj fkvs) ''title'' = Inr (JStr ft)"
    "panel_rows doc ''facts'' = Inr facts" and facts: "list_all fact_ok facts"
    by (rule panel_members [of fact_ok doc "''facts''"]) (use assms(1) o top in \<open>auto simp: headline_ok_def\<close>)
  have tile: "succeeds (tile_parts cd p y (i, t))" "succeeds (md_tile t)" "succeeds (valid_tile (key, t))"
    if "(key, t) \<in> set kpis" for p y i t key
    using tile_renders tiles [OF that] by auto
  have bar: "succeeds (bar_parts cd y (i, r))" "succeeds (md_bar cd r)" "succeeds (valid_bar r)" if "r \<in> set rows" for y i r
    using bar_renders that bars drawn by (auto simp: list_all_iff)
  have fact: "succeeds (json_index r ''status'')" "succeeds (md_fact r)" "succeeds (valid_fact r)" if "r \<in> set facts" for r
    using fact_renders that facts by (auto simp: list_all_iff)
  have "each valid_tile kpis = Inr ()" "each valid_bar rows = Inr ()" "each valid_fact facts = Inr ()"
    using succeeds_each [of kpis valid_tile] succeeds_each [of rows valid_bar] succeeds_each [of facts valid_fact]
      tile(3) bar(3) fact(3) by (auto simp: succeeds_def)
  moreover have "json_has doc key = Inr True" if "key \<in> set TOP_LEVEL_KEYS" for key
    by (rule has_member [OF o that])
  ultimately have valid: "validate doc (cd_kpi_order cd) = Inr ()"
    using k rows f(3) by (simp add: validate_def guard_def TOP_LEVEL_KEYS_def)
  have "succeeds (res_map (tile_parts cd p y) (enumerate 0 (map snd kpis)))" for p y
    using tile(1) by (intro succeeds_res_map) (auto simp: enumerate_eq_zip dest!: set_zip_rightD)
  moreover have "succeeds (res_map (bar_parts cd y) (enumerate 0 rows))" for y
    using bar(1) by (intro succeeds_res_map) (auto simp: enumerate_eq_zip dest!: set_zip_rightD)
  moreover have "succeeds (res_map (\<lambda>r. json_index r ''status'') facts)"
    using fact(1) by (intro succeeds_res_map) simp
  ultimately have svg: "succeeds (render_svg doc cd)"
    using k b f rows by (auto simp: render_svg_def Let_def clipped_def intro!: succeeds_bind)
  have "succeeds (res_map (\<lambda>kv. md_tile (snd kv)) kpis)"
    using tile(2) by (intro succeeds_res_map) auto
  moreover have "succeeds (res_map (md_bar cd) rows)" using bar(2) by (intro succeeds_res_map) simp
  moreover have "succeeds (res_map md_fact facts)" using fact(2) by (intro succeeds_res_map) simp
  ultimately have "succeeds (render_markdown doc cd)"
    using k b f rows by (auto simp: render_markdown_def panel_title_def cell_of_def intro!: succeeds_bind)
  with valid svg show ?thesis by (auto simp: succeeds_def)
qed

section \<open>The block between the markers\<close>

locale marked_text =
  fixes mark :: string
  assumes head_once: "mark \<noteq> []" "hd mark \<notin> set (tl mark)"
begin

text \<open>A marker does not overlap itself, so an occurrence that begins inside \<open>a\<close> ends there.\<close>

lemma prefix_inside:
  assumes "prefix mark (c # a @ mark @ b)"
  shows "prefix mark (c # a)"
proof -
  obtain x xs where m: "mark = x # xs" "x \<notin> set xs" using head_once by (cases mark) auto
  have xs: "prefix xs (a @ mark @ b)" and c: "x = c" using assms m(1) by (metis Cons_prefix_Cons)+
  then have "prefix xs a \<or> prefix a xs" by (auto simp: prefix_append)
  moreover have "prefix xs a" if inside: "prefix a xs"
  proof -
    obtain us where us: "xs = a @ us" using inside by (auto simp: prefix_def)
    with xs have "prefix us (mark @ b)" by simp
    then have "prefix us (x # xs @ b)" by (simp only: m(1) append_Cons)
    with us m(2) have "us = []" by (cases us) auto
    with us show ?thesis by simp
  qed
  ultimately have "prefix xs a" by blast
  then show ?thesis by (simp add: m(1) c)
qed

lemma split_once_parts: "split_once mark s = Some (a, b) \<Longrightarrow> s = a @ mark @ b"
  using head_once by (induction mark s arbitrary: a rule: split_once.induct) (auto split: if_splits elim: prefixE)

lemma split_once_first:
  assumes "split_once mark s = Some (a, b)"
  shows "\<not> contains mark a"
proof -
  have "split_once mark (a @ mark @ b) = Some (a, b) \<Longrightarrow> \<not> contains mark a"
  proof (induction a)
    case (Cons c a)
    then have "\<not> prefix mark (c # a @ mark @ b)" by (auto split: if_splits)
    then have "\<not> prefix mark (c # a)" using prefix_prefix [of mark "c # a" "mark @ b"] by fastforce
    moreover from Cons have "\<not> contains mark a" by (auto split: if_splits)
    ultimately show ?case by simp
  qed (use head_once in simp)
  then show ?thesis using assms split_once_parts [OF assms] by simp
qed

lemma split_once_tail: "split_once mark (a @ mark @ b) = Some (a, b) \<Longrightarrow> split_once mark (a @ mark @ b') = Some (a, b')"
proof (induction a)
  case Nil
  obtain x xs where "mark = x # xs" using head_once by (cases mark) auto
  then show ?case by simp
next
  case (Cons c a)
  then have "\<not> prefix mark (c # a @ mark @ b)" by (auto split: if_splits)
  then have "\<not> prefix mark (c # a @ mark @ b')" using prefix_inside prefix_prefix [of mark "c # a" "mark @ b"] by fastforce
  with Cons show ?case by (auto split: if_splits)
qed

lemma split_once_fresh: "\<not> contains mark a \<Longrightarrow> split_once mark (a @ mark @ b) = Some (a, b)"
proof (induction a)
  case Nil
  obtain x xs where "mark = x # xs" using head_once by (cases mark) auto
  then show ?case by simp
next
  case (Cons c a)
  have "\<not> prefix mark (c # a @ mark @ b)" using Cons.prems prefix_inside by auto
  with Cons show ?case by simp
qed

lemma contains_mark: "contains mark (a @ mark @ b)"
  by (simp add: contains_iff)

end

interpretation start: marked_text START
  by unfold_locales (simp_all add: START_def)

interpretation finish: marked_text END_MARK
  by unfold_locales (simp_all add: END_MARK_def)

text \<open>What \<open>splice\<close> does to a README with the two markers in order, and its errors.\<close>

lemma splice_Inr:
  assumes "splice readme block = Inr r"
  obtains head mid tail where "readme = head @ START @ mid @ END_MARK @ tail" and "r = head @ block @ tail"
    and "split_once START readme = Some (head, mid @ END_MARK @ tail)"
    and "split_once END_MARK (mid @ END_MARK @ tail) = Some (mid, tail)"
proof -
  obtain head rest mid tail where s: "split_once START readme = Some (head, rest)"
    "split_once END_MARK rest = Some (mid, tail)" "r = head @ block @ tail"
    using assms by (auto simp: splice_def split: if_splits option.splits)
  show thesis
    using that [of head mid tail] s start.split_once_parts [OF s(1)] finish.split_once_parts [OF s(2)] by simp
qed

lemma splice_again:
  assumes "splice readme (START @ mid @ END_MARK) = Inr r" and "\<not> contains END_MARK mid"
  shows "splice r (START @ mid @ END_MARK) = Inr r"
proof -
  obtain head old tail where h: "split_once START (head @ START @ old @ END_MARK @ tail) = Some (head, old @ END_MARK @ tail)"
    and r: "r = head @ START @ mid @ END_MARK @ tail"
    by (rule splice_Inr [OF assms(1)]) auto
  have "split_once START r = Some (head, mid @ END_MARK @ tail)"
    unfolding r by (rule start.split_once_tail [OF h])
  moreover have "split_once END_MARK (mid @ END_MARK @ tail) = Some (mid, tail)"
    by (rule finish.split_once_fresh [OF assms(2)])
  moreover have "contains START r" unfolding r by (rule start.contains_mark)
  moreover have "contains END_MARK r"
    using finish.contains_mark [of "head @ START @ mid" tail] by (simp add: r)
  ultimately show ?thesis by (simp add: splice_def r)
qed

text \<open>A rendered block runs from one marker to the other.\<close>

lemma join_frame: "xs \<noteq> [] \<Longrightarrow> join sep (a # xs @ [b]) = a @ (sep @ join sep xs @ sep) @ b"
  by (induction sep xs rule: join.induct) simp_all

lemma markdown_marked:
  assumes "render_markdown doc cd = Inr block"
  shows "\<exists>mid. block = START @ mid @ END_MARK"
proof -
  obtain tiles bt bars ft facts
    where "block = join [chr 10] (START # block_lines cd tiles bt bars ft facts @ [END_MARK])"
    using assms by (auto simp: render_markdown_def res_bind_Inr_iff)
  moreover have "block_lines cd tiles bt bars ft facts \<noteq> []" by (simp add: block_lines_def)
  ultimately show ?thesis using join_frame by auto
qed

text \<open>C40. Rendering settles in one step: whatever the card and the README looked like, after a run the
  drift check passes and another run changes nothing, as long as no text of the card holds the end
  marker itself.\<close>

theorem second_render_is_current:
  assumes "render_main False doc cd svg_file readme = Inr (code, svg', readme')"
    and "render_markdown doc cd = Inr (START @ mid @ END_MARK)" and "\<not> contains END_MARK mid"
  shows "render_main True doc cd svg' readme' = Inr (0, svg', readme')
    \<and> render_main False doc cd svg' readme' = Inr (0, svg', readme')"
proof -
  obtain svg where svg: "render_svg doc cd = Inr svg" and v: "validate doc (cd_kpi_order cd) = Inr ()"
    and s: "splice readme (START @ mid @ END_MARK) = Inr readme'" and f: "svg' = Some svg"
    using assms(1,2) by (auto simp: render_main_def res_bind_Inr_iff Let_def)
  note again = splice_again [OF s assms(3)]
  show ?thesis using svg v assms(2) again f by (simp add: render_main_def Let_def)
qed

text \<open>What lies outside the markers stays as it is.\<close>

lemma render_touches_block_only:
  assumes "render_main check doc cd svg_file readme = Inr (code, svg', readme')"
  shows "\<exists>head old new tail. readme = head @ START @ old @ END_MARK @ tail
    \<and> readme' = head @ START @ new @ END_MARK @ tail \<and> \<not> contains START head \<and> \<not> contains END_MARK old"
proof -
  obtain block r where b: "render_markdown doc cd = Inr block" and s: "splice readme block = Inr r"
    and r: "readme' = (if check then readme else r)"
    using assms by (auto simp: render_main_def res_bind_Inr_iff Let_def split: if_splits)
  obtain mid where m: "block = START @ mid @ END_MARK" using markdown_marked [OF b] by blast
  obtain head old tail where h: "readme = head @ START @ old @ END_MARK @ tail" "r = head @ block @ tail"
    "split_once START readme = Some (head, old @ END_MARK @ tail)"
    "split_once END_MARK (old @ END_MARK @ tail) = Some (old, tail)"
    by (rule splice_Inr [OF s])
  have fresh: "\<not> contains START head" "\<not> contains END_MARK old"
    by (rule start.split_once_first [OF h(3)], rule finish.split_once_first [OF h(4)])
  show ?thesis
  proof (cases check)
    case True
    with r h(1) fresh show ?thesis by auto
  next
    case False
    with r h(1,2) m fresh show ?thesis by (intro exI [of _ head] exI [of _ old] exI [of _ mid] exI [of _ tail]) simp
  qed
qed

section \<open>Examples\<close>

definition sample_doc :: json where
  "sample_doc = JObj
     [(''kpis'', JObj [(''tamper_check'', JObj [(''label'', JStr ''Tamper check''), (''value'', JStr ''detected''),
         (''note'', JStr ''a | b''), (''accent'', JStr ''teal'')])]),
      (''bars'', JObj [(''title'', JStr ''Tiers''), (''rows'', JArr [JObj [(''label'', JStr ''Tier 1''), (''value'', JInt 3),
         (''max'', JInt 8), (''display'', JStr ''3/8''), (''accent'', JStr ''blue'')]])]),
      (''facts'', JObj [(''title'', JStr ''Facts''), (''rows'', JArr [JObj [(''label'', JStr ''Source set''),
         (''value'', JStr ''1 file''), (''status'', JStr ''ok'')]])])]"

definition sample_card :: card where
  "sample_card = \<lparr>cd_title = ''Bench'', cd_subtitle = ''One file.'', cd_make_target = ''make bench'',
     cd_kpi_order = [''tamper_check''], cd_ellipsis = ''...'', cd_full = ''#'', cd_light = ''.''\<rparr>"
lemma sample_headline: "headline_ok sample_doc"
  by code_simp

lemma sample_drawable:
  "\<exists>kpis rows. json_index sample_doc ''kpis'' = Inr (JObj kpis) \<and> cd_kpi_order sample_card = dict_keys kpis
     \<and> panel_rows sample_doc ''bars'' = Inr rows \<and> list_all drawable rows"
  by (simp add: sample_doc_def sample_card_def panel_rows_def drawable_def member_def dict_get_or_def)

lemma sample_renders:
  "\<exists>svg block. render_svg sample_doc sample_card = Inr svg \<and> render_markdown sample_doc sample_card = Inr block"
  using headline_renders [OF sample_headline sample_drawable] by blast

lemma sample_block:
  "case render_markdown sample_doc sample_card of
     Inr b \<Rightarrow> (case split_once END_MARK b of Some (_, rest) \<Rightarrow> rest = [] | None \<Rightarrow> False) | Inl _ \<Rightarrow> False"
  by code_simp

lemma sample_block_clean:
  obtains mid where "render_markdown sample_doc sample_card = Inr (START @ mid @ END_MARK)" "\<not> contains END_MARK mid"
proof -
  obtain b where b: "render_markdown sample_doc sample_card = Inr b"
    using sample_block by (cases "render_markdown sample_doc sample_card") auto
  then obtain a where a: "split_once END_MARK b = Some (a, [])" using sample_block by (auto split: option.splits)
  obtain mid where m: "b = START @ mid @ END_MARK" using markdown_marked [OF b] by blast
  have "b = a @ END_MARK" using finish.split_once_parts [OF a] by simp
  then have "a = START @ mid" using m by simp
  then have "\<not> contains END_MARK mid"
    using finish.split_once_first [OF a] by (simp add: contains_iff sublist_append)
  with b m show thesis by (intro that) simp_all
qed

definition sample_readme :: string where
  "sample_readme = ''Title '' @ START @ ''old'' @ END_MARK @ '' rest''"

lemma sample_run:
  obtains svg r where "render_main False sample_doc sample_card None sample_readme = Inr (0, Some svg, r)"
proof -
  have "splice sample_readme b = Inr (''Title '' @ b @ '' rest'')" for b
    by (simp add: splice_def sample_readme_def START_def END_MARK_def)
  then show thesis
    using headline_renders [OF sample_headline sample_drawable] that by (auto simp: render_main_def Let_def)
qed

theorem second_render_is_current_witness:
  "\<exists>svg r. render_main True sample_doc sample_card (Some svg) r = Inr (0, Some svg, r)"
proof -
  obtain svg r where run: "render_main False sample_doc sample_card None sample_readme = Inr (0, Some svg, r)"
    by (rule sample_run)
  obtain mid where "render_markdown sample_doc sample_card = Inr (START @ mid @ END_MARK)" "\<not> contains END_MARK mid"
    by (rule sample_block_clean)
  from second_render_is_current [OF run this] show ?thesis by blast
qed

lemma render_touches_block_only_witness:
  "\<exists>svg r head old new tail. render_main False sample_doc sample_card None sample_readme = Inr (0, Some svg, r)
     \<and> sample_readme = head @ START @ old @ END_MARK @ tail \<and> r = head @ START @ new @ END_MARK @ tail"
proof -
  obtain svg r where run: "render_main False sample_doc sample_card None sample_readme = Inr (0, Some svg, r)"
    by (rule sample_run)
  from render_touches_block_only [OF run] run show ?thesis by blast
qed

text \<open>A document the check accepts and the renderer does not: a NaN is neither below zero nor above the
  maximum, and an infinity is not above an infinite maximum.\<close>

definition odd_bar :: "pfloat \<Rightarrow> pfloat \<Rightarrow> json" where
  "odd_bar v m = JObj [(''label'', JStr ''b''), (''value'', JFloat v), (''max'', JFloat m), (''display'', JStr ''d''),
     (''accent'', JStr ''red'')]"

lemma accepted_but_not_rendered:
  "bar_ok (odd_bar NotANumber (Fin 1)) \<and> valid_bar (odd_bar NotANumber (Fin 1)) = Inl (SystemExit (''bar '' @ repr ''b'' @ '': value outside [0, max]''))"
  "bar_ok (odd_bar (Inf False) (Inf False)) \<and> valid_bar (odd_bar (Inf False) (Inf False)) = Inr ()
   \<and> md_bar sample_card (odd_bar (Inf False) (Inf False)) = Inl ValueError"
  by code_simp+

end
