(* ===== verification/Onboard.thy ===== *)
theory Onboard
  imports InspectorMain RegistryLoad Render PyBytes
begin

text \<open>
  The onboarding bench: \<open>bench/onboard.py\<close>. It replays labelled files through the Inspector, counts
  what happened, checks that the audit verifier notices tampering and publishes the counts as the
  document of the results card. The generated source files are a map from paths to bytes, the golden
  labels a record (the decoded \<open>bench/golden/onboarding.json\<close>), and the Go verifier a function from
  the text of a chain to its exit code and its two output streams. The Inspector it drives is the one
  of \<open>InspectorMain\<close>, with the in-memory cache shared by all files and the deterministic adjudicator,
  whose traffic is the world the Inspector threads.

  The locale \<open>tally\<close> is what the counters promise: adding one to a bucket adds one to the sum over
  any set of buckets that holds it, and leaves the other buckets alone. It is interpreted on
  \<open>Counter\<close>.
\<close>

section \<open>Golden labels\<close>

record golden_file =
  gf_path :: string
  gf_sha256 :: "string option"
  gf_layout :: string
  gf_expected_held :: bool

record golden =
  g_layouts :: "(string, (string, string option) dict) dict"
  g_either :: "(string, (string, string list) dict) dict"
  g_files :: "golden_file list"

definition option_str :: "string option \<Rightarrow> string" where
  "option_str x = (case x of None \<Rightarrow> ''None'' | Some s \<Rightarrow> s)"

definition check_label :: "string \<Rightarrow> string \<times> string option \<Rightarrow> unit result" where
  "check_label layout = (\<lambda>(header, label).
     if label \<noteq> None \<and> the label \<notin> set MAPPABLE_FIELDS then
       Inl (BenchError (''golden layout '' @ layout @ '': '' @ repr header @ '' -> '' @ repr (the label)
                        @ '' is not mappable''))
     else Inr ())"

definition check_either :: "golden \<Rightarrow> string \<Rightarrow> string \<times> string list \<Rightarrow> unit result" where
  "check_either g layout = (\<lambda>(field, columns).
     if field \<notin> set MAPPABLE_FIELDS \<or> length columns < 2 then
       Inl (BenchError (''golden either-group '' @ layout @ ''/'' @ field @ '' is malformed''))
     else case dict_get (g_layouts g) layout of
         None \<Rightarrow> Inl KeyError
       | Some labels \<Rightarrow>
           (let unknown = filter (\<lambda>c. c \<notin> set (dict_keys labels)) columns in
            if unknown \<noteq> [] then
              Inl (BenchError (''golden either-group '' @ layout @ ''/'' @ field @ '' names '' @ list_repr unknown))
            else Inr ()))"

text \<open>The checks of \<open>load_golden\<close> on the decoded labels.\<close>

definition load_golden :: "golden \<Rightarrow> golden result" where
  "load_golden g =
     res_bind (each (\<lambda>(layout, columns). each (check_label layout) columns) (g_layouts g)) (\<lambda>_.
     res_bind (each (\<lambda>(layout, groups). each (check_either g layout) groups) (g_either g)) (\<lambda>_. Inr g))"

section \<open>Observation\<close>

text \<open>\<open>ObservedAdjudicator\<close>: the deterministic fake with its traffic counted.\<close>

record traffic =
  tf_requests :: nat
  tf_headers :: nat

definition observed_adjudicate :: "traffic \<Rightarrow> request \<Rightarrow> (adj_result \<times> traffic) result" where
  "observed_adjudicate w req =
     fake_adjudicate (w\<lparr>tf_requests := tf_requests w + 1,
       tf_headers := tf_headers w + length (req_unresolved req)\<rparr>) req"

definition BUCKET_ORDER :: "string list" where
  "BUCKET_ORDER = [''alias'', ''structural'', ''fuzzy'', ''override'', ''cache'', ''llm'', ''unresolved'']"

definition BUCKET_LABELS :: "(string, string) dict" where
  "BUCKET_LABELS = [(''alias'', ''Tier 1: alias dictionary''), (''structural'', ''Tier 1: structural price rule''),
     (''fuzzy'', ''Tier 2: fuzzy match''), (''override'', ''Client override (promoted)''),
     (''cache'', ''Template cache (prior Tier 3 answer)''), (''llm'', ''Tier 3: model (deterministic fake)''),
     (''unresolved'', ''Unresolved (declined)'')]"

definition BUCKET_ACCENTS :: "(string, string) dict" where
  "BUCKET_ACCENTS = [(''alias'', ''teal''), (''structural'', ''teal''), (''fuzzy'', ''blue''), (''override'', ''blue''),
     (''cache'', ''violet''), (''llm'', ''violet''), (''unresolved'', ''amber'')]"

definition bucket_of :: "mapping \<Rightarrow> string" where
  "bucket_of m =
     (if canonical_field m = None then ''unresolved''
      else case m_tier m of
          HUMAN \<Rightarrow> ''override''
        | ALIAS \<Rightarrow> ''alias''
        | LOCAL \<Rightarrow> if contains ''fuzzy'' (m_evidence m) then ''fuzzy'' else ''structural''
        | LLM \<Rightarrow> if prefix ''cached'' (m_evidence m) then ''cache'' else ''llm''
        | UNRESOLVED \<Rightarrow> ''unresolved'')"

type_synonym counter = "(string, nat) dict"

text \<open>\<open>counter[k]\<close> and \<open>counter[k] += 1\<close>.\<close>

definition count_of :: "counter \<Rightarrow> string \<Rightarrow> nat" where
  "count_of c k = dict_get_or c k 0"

definition count_one :: "string \<Rightarrow> counter \<Rightarrow> counter" where
  "count_one k c = dict_set k (count_of c k + 1) c"

record observation =
  files :: nat
  classifications :: nat
  columns :: nat
  correct :: nat
  by_bucket :: counter
  correct_by_bucket :: counter
  misses :: "string list"
  quarantine_tp :: nat
  quarantine_fp :: nat
  quarantine_fn :: nat
  quarantine_tn :: nat
  disposition_misses :: "string list"
  tier3_requests :: nat
  tier3_headers :: nat
  cache_hits :: nat
  tier2_degraded :: bool

definition no_observation :: observation where
  "no_observation = \<lparr>files = 0, classifications = 0, columns = 0, correct = 0, by_bucket = [],
     correct_by_bucket = [], misses = [], quarantine_tp = 0, quarantine_fp = 0, quarantine_fn = 0,
     quarantine_tn = 0, disposition_misses = [], tier3_requests = 0, tier3_headers = 0, cache_hits = 0,
     tier2_degraded = False\<rparr>"

text \<open>\<open>_expected_labels\<close>: one group after the other, each giving its field to one of its columns.\<close>

definition group_holder :: "(string, string option) dict \<Rightarrow> string \<Rightarrow> string list \<Rightarrow> string result" where
  "group_holder taken field cols =
     (let holders = filter (\<lambda>c. dict_get taken c = Some (Some field)) cols in
      if length holders = 1 then Inr (hd holders)
      else case cols of [] \<Rightarrow> Inl IndexError | c # _ \<Rightarrow> Inr c)"

definition label_group ::
    "(string, string option) dict \<Rightarrow> string \<times> string list \<Rightarrow> (string, string option) dict
     \<Rightarrow> (string, string option) dict result" where
  "label_group taken = (\<lambda>(field, cols) expected.
     res_bind (group_holder taken field cols) (\<lambda>holder.
       Inr (fold (\<lambda>c e. dict_set c (if c = holder then Some field else None) e) cols expected)))"

primrec label_groups ::
    "(string, string option) dict \<Rightarrow> (string \<times> string list) list \<Rightarrow> (string, string option) dict
     \<Rightarrow> (string, string option) dict result" where
  "label_groups taken [] expected = Inr expected"
| "label_groups taken (g # gs) expected = res_bind (label_group taken g expected) (label_groups taken gs)"

definition expected_labels ::
    "(string, string option) dict \<Rightarrow> (string, string list) dict \<Rightarrow> mapping list
     \<Rightarrow> (string, string option) dict result" where
  "expected_labels layout either ms =
     label_groups (dict_of (map (\<lambda>m. (source_field m, canonical_field m)) ms)) either layout"

text \<open>The loop of \<open>_score_mappings\<close>, one column at a time.\<close>

definition miss_text :: "string \<Rightarrow> mapping \<Rightarrow> string option \<Rightarrow> string" where
  "miss_text path m expected =
     path @ '': '' @ repr (source_field m) @ '' -> '' @ option_str (canonical_field m) @ '' (expected ''
       @ option_str expected @ ''; '' @ tier_str (m_tier m) @ '': '' @ m_evidence m @ '')''"

definition score_column ::
    "string \<Rightarrow> (string, string option) dict \<Rightarrow> mapping \<Rightarrow> observation \<Rightarrow> observation result" where
  "score_column path labels m obs =
     (case dict_get labels (source_field m) of
        None \<Rightarrow> Inl KeyError
      | Some expected \<Rightarrow>
          (let bucket = bucket_of m;
               obs1 = obs\<lparr>columns := columns obs + 1, by_bucket := count_one bucket (by_bucket obs)\<rparr>;
               obs2 = (if canonical_field m = expected
                       then obs1\<lparr>correct := correct obs1 + 1,
                                 correct_by_bucket := count_one bucket (correct_by_bucket obs1)\<rparr>
                       else obs1\<lparr>misses := misses obs1 @ [miss_text path m expected]\<rparr>)
           in Inr (if prefix ''cached'' (m_evidence m) then obs2\<lparr>cache_hits := cache_hits obs2 + 1\<rparr> else obs2)))"

primrec score_columns ::
    "string \<Rightarrow> (string, string option) dict \<Rightarrow> mapping list \<Rightarrow> observation \<Rightarrow> observation result" where
  "score_columns path labels [] obs = Inr obs"
| "score_columns path labels (m # ms) obs =
     res_bind (score_column path labels m obs) (score_columns path labels ms)"

definition score_mappings :: "golden_file \<Rightarrow> golden \<Rightarrow> mapping list \<Rightarrow> observation \<Rightarrow> observation result" where
  "score_mappings entry g ms obs =
     (case dict_get (g_layouts g) (gf_layout entry) of
        None \<Rightarrow> Inl KeyError
      | Some layout \<Rightarrow>
          (let headers = map source_field ms in
           if set headers \<noteq> set (dict_keys layout) then
             Inl (BenchError (gf_path entry @ '': parsed headers '' @ list_repr (sort headers)
                  @ '' do not match the golden layout '' @ gf_layout entry @ '' ''
                  @ list_repr (sort (dict_keys layout)) @ ''; relabel before scoring''))
           else res_bind (expected_labels layout (dict_get_or (g_either g) (gf_layout entry) []) ms) (\<lambda>labels.
                score_columns (gf_path entry) labels ms obs)))"

section \<open>Dispositions\<close>

primrec disposition_str :: "disposition \<Rightarrow> string" where
  "disposition_str DISPATCHED = ''DISPATCHED''"
| "disposition_str QUARANTINED = ''QUARANTINED''"
| "disposition_str REJECTED = ''REJECTED''"

definition held :: "disposition \<Rightarrow> bool" where
  "held d \<longleftrightarrow> d = QUARANTINED \<or> d = REJECTED"

definition score_one :: "golden_file \<Rightarrow> score \<Rightarrow> observation \<Rightarrow> observation" where
  "score_one entry sc obs =
     (let h = held (disposition sc); want = gf_expected_held entry;
          obs1 = obs\<lparr>classifications := classifications obs + 1\<rparr>;
          obs2 = (if h \<and> want then obs1\<lparr>quarantine_tp := quarantine_tp obs1 + 1\<rparr>
                  else if h then obs1\<lparr>quarantine_fp := quarantine_fp obs1 + 1\<rparr>
                  else if want then obs1\<lparr>quarantine_fn := quarantine_fn obs1 + 1\<rparr>
                  else obs1\<lparr>quarantine_tn := quarantine_tn obs1 + 1\<rparr>)
      in if h \<noteq> want
         then obs2\<lparr>disposition_misses := disposition_misses obs2
                @ [gf_path entry @ '': '' @ disposition_str (disposition sc) @ '' (expected ''
                   @ (if want then ''held'' else ''dispatched'') @ ''); '' @ join ''; '' (reasons sc)]\<rparr>
         else obs2)"

definition score_disposition :: "golden_file \<Rightarrow> classification list \<Rightarrow> observation \<Rightarrow> observation" where
  "score_disposition entry results obs = fold (\<lambda>r. score_one entry (cl_score r)) results obs"

section \<open>Replay\<close>

text \<open>The inspector of the bench: parsers, matchers and environment are those of \<open>base\<close>.\<close>

definition bench_inspector ::
    "('v, memory_cache, traffic) inspector \<Rightarrow> registry \<Rightarrow> ('v, memory_cache, traffic) inspector" where
  "bench_inspector base reg = base\<lparr>in_registry := reg, in_adjudicator := Some observed_adjudicate,
     in_cache_get := mem_get, in_cache_put := mem_put, in_fresh := None\<rparr>"

definition file_name :: "string \<Rightarrow> string" where
  "file_name path = rev (takeWhile (\<lambda>c. c \<noteq> CHR ''/'') (rev path))"

text \<open>One file: it must be there with the pinned digest before anything is counted.\<close>

definition fetch_pinned :: "(string \<Rightarrow> string option) \<Rightarrow> (string \<Rightarrow> string) \<Rightarrow> golden_file \<Rightarrow> string result" where
  "fetch_pinned read sha256 entry =
     (case read (gf_path entry) of
        None \<Rightarrow> Inl (BenchError (gf_path entry @ '': not generated''))
      | Some bytes \<Rightarrow>
          if gf_sha256 entry \<noteq> None \<and> gf_sha256 entry \<noteq> Some (sha256 bytes) then
            Inl (BenchError (gf_path entry @ '': bytes differ from the labelled fixture''))
          else Inr bytes)"

text \<open>The mappings are those of the first classification; \<open>results[0]\<close> of no result raises.\<close>

definition score_file :: "golden_file \<Rightarrow> golden \<Rightarrow> classification list \<Rightarrow> observation \<Rightarrow> observation result" where
  "score_file entry g results obs =
     (case results of
        [] \<Rightarrow> Inl IndexError
      | r # _ \<Rightarrow> res_bind (score_mappings entry g (cl_mappings r) obs) (\<lambda>obs'.
          Inr (score_disposition entry results obs')))"

type_synonym replay_state = "observation \<times> memory_cache \<times> traffic"

definition replay_file ::
    "('v, memory_cache, traffic) inspector \<Rightarrow> date \<Rightarrow> (string \<Rightarrow> string option) \<Rightarrow> (string \<Rightarrow> string) \<Rightarrow> golden
     \<Rightarrow> nat \<times> golden_file \<Rightarrow> replay_state \<Rightarrow> replay_state result" where
  "replay_file insp today read sha256 g = (\<lambda>(index, entry) (obs, c, w).
     res_bind (fetch_pinned read sha256 entry) (\<lambda>bytes.
     res_bind (classify insp today (''bench-'' @ pad_left 3 (CHR ''0'') (nat_str index)) bytes
                 (file_name (gf_path entry)) (c, w)) (\<lambda>(results, c', w').
     res_bind (score_file entry g results (obs\<lparr>files := files obs + 1\<rparr>)) (\<lambda>obs'. Inr (obs', c', w')))))"

primrec replay_files ::
    "('v, memory_cache, traffic) inspector \<Rightarrow> date \<Rightarrow> (string \<Rightarrow> string option) \<Rightarrow> (string \<Rightarrow> string) \<Rightarrow> golden
     \<Rightarrow> (nat \<times> golden_file) list \<Rightarrow> replay_state \<Rightarrow> replay_state result" where
  "replay_files insp today read sha256 g [] st = Inr st"
| "replay_files insp today read sha256 g (e # es) st =
     res_bind (replay_file insp today read sha256 g e st) (replay_files insp today read sha256 g es)"

definition empty_cache :: memory_cache where
  "empty_cache = \<lparr>mc_store = [], mc_hits = 0, mc_misses = 0\<rparr>"

definition replay ::
    "registry result \<Rightarrow> ('v, memory_cache, traffic) inspector \<Rightarrow> date \<Rightarrow> (string \<Rightarrow> string option) \<Rightarrow> (string \<Rightarrow> string)
     \<Rightarrow> golden \<Rightarrow> observation result" where
  "replay config base today read sha256 g =
     res_bind config (\<lambda>reg.
     res_bind (replay_files (bench_inspector base reg) today read sha256 g (enumerate 0 (g_files g))
        (no_observation, empty_cache, \<lparr>tf_requests = 0, tf_headers = 0\<rparr>)) (\<lambda>(obs, c, w).
       Inr (obs\<lparr>tier3_requests := tf_requests w, tier3_headers := tf_headers w,
                tier2_degraded := \<not> emb_available (emb_touch (in_model base) Unloaded)\<rparr>)))"

section \<open>The tamper check\<close>

text \<open>\<open>au_verify\<close> is the built verifier on the text of a chain: exit code, standard output, standard
  error. \<open>au_fixture\<close> is the text of the recorded chain.\<close>

record audit_tools =
  au_has_go :: bool
  au_fixture :: "string option"
  au_builds :: bool
  au_verify :: "string \<Rightarrow> int \<times> string \<times> string"

record tamper_result =
  tr_status :: string
  tr_value :: string
  tr_detail :: string

definition AUDITCHECK_BROKEN :: int where
  "AUDITCHECK_BROKEN = 2"

fun json_true :: "json \<Rightarrow> bool" where
  "json_true JNull = False"
| "json_true (JBool b) = b"
| "json_true (JInt n) = (n \<noteq> 0)"
| "json_true (JFloat x) = (x \<noteq> Fin 0 \<and> x \<noteq> NegZero)"
| "json_true (JStr s) = (s \<noteq> [])"
| "json_true (JArr vs) = (vs \<noteq> [])"
| "json_true (JObj kvs) = (kvs \<noteq> [])"

text \<open>\<open>v == n\<close> for a decoded value and an integer.\<close>

fun equals_int :: "json \<Rightarrow> int \<Rightarrow> bool" where
  "equals_int (JInt m) n = (m = n)"
| "equals_int (JBool b) n = ((if b then 1 else 0) = n)"
| "equals_int (JFloat (Fin x)) n = (x = of_int n)"
| "equals_int (JFloat NegZero) n = (n = 0)"
| "equals_int _ n = False"

text \<open>\<open>_auditcheck\<close>: the verdict is the last line of the output, when it looks like an object.\<close>

definition auditcheck ::
    "audit_tools \<Rightarrow> string \<Rightarrow> (int \<times> (string \<times> json) list option \<times> string) result" where
  "auditcheck au chain =
     (let (code, out, err) = au_verify au chain;
          last_line = (if strip out = [] then [] else last (splitlines (strip out)))
      in if prefix ''{'' last_line then
           (case json_loads last_line of
              Some (JObj kvs) \<Rightarrow> Inr (code, Some kvs, strip err)
            | _ \<Rightarrow> Inl ValueError)
         else Inr (code, None, strip err))"

text \<open>\<open>f"{err or verdict}"\<close>.\<close>

definition err_or :: "string \<Rightarrow> (string \<times> json) list option \<Rightarrow> string" where
  "err_or err verdict =
     (if err \<noteq> [] then err else case verdict of None \<Rightarrow> ''None'' | Some kvs \<Rightarrow> json_repr (JObj kvs))"

definition blocked :: "string \<Rightarrow> string \<Rightarrow> tamper_result" where
  "blocked value detail = \<lparr>tr_status = ''blocked'', tr_value = value, tr_detail = detail\<rparr>"

text \<open>\<open>[dict(r) for r in records]\<close> for records that are objects; a chain of anything else is refused
  as if it were a wrong type.\<close>

definition chain_records :: "string \<Rightarrow> (string \<times> json) list list result" where
  "chain_records text =
     (case json_loads text of
        None \<Rightarrow> Inl ValueError
      | Some (JArr vs) \<Rightarrow> res_map (\<lambda>v. case v of JObj kvs \<Rightarrow> Inr kvs | _ \<Rightarrow> Inl TypeError) vs
      | Some _ \<Rightarrow> Inl TypeError)"

definition forged_outcome :: string where
  "forged_outcome = (let q = [chr 34] in
     ''{'' @ q @ ''disposition'' @ q @ '':'' @ q @ ''DISPATCHED'' @ q @ '','' @ q @ ''value_date'' @ q @ '':''
     @ q @ ''2026-08-31'' @ q @ ''}'')"

definition edited_chain :: "(string \<times> json) list list \<Rightarrow> string result" where
  "edited_chain records =
     (if length records < 2 then Inl IndexError
      else Inr (json_dumps (JArr (map JObj
             (records[1 := dict_set ''OutcomeJSON'' (JStr forged_outcome) (records ! 1)])))))"

definition shortened_chain :: "(string \<times> json) list list \<Rightarrow> string" where
  "shortened_chain records = json_dumps (JArr (map JObj (take 1 records @ drop 2 records)))"

text \<open>One forged chain: detected at the expected record, or the result that says it was not.\<close>

definition attempt :: "audit_tools \<Rightarrow> string \<Rightarrow> string \<Rightarrow> int \<Rightarrow> tamper_result option result" where
  "attempt au label chain want =
     res_bind (auditcheck au chain) (\<lambda>(code, verdict, err).
       if code \<noteq> AUDITCHECK_BROKEN \<or> verdict = None \<or> member (the verdict) ''ok'' \<noteq> JBool False then
         Inr (Some (blocked ''NOT detected'' (label @ '' left the chain looking valid (exit '' @ int_str code @ ''; ''
                @ err_or err verdict @ '')'')))
       else if \<not> equals_int (member (the verdict) ''position'') want then
         Inr (Some (blocked ''detected at wrong record''
                (label @ '': break at '' @ json_str (member (the verdict) ''position''))))
       else Inr None)"

definition caught :: "string \<Rightarrow> string" where
  "caught label = label @ '' caught at record 2''"

text \<open>The second half of \<open>tamper_check\<close>: the two forgeries, and then the whole.\<close>

definition forgeries_caught :: "audit_tools \<Rightarrow> string \<Rightarrow> tamper_result result" where
  "forgeries_caught au text =
     res_bind (chain_records text) (\<lambda>records.
     res_bind (edited_chain records) (\<lambda>edited.
     res_bind (attempt au ''edited outcome'' edited 1) (\<lambda>a.
     case a of
       Some failed \<Rightarrow> Inr failed
     | None \<Rightarrow>
         res_bind (attempt au ''deleted record'' (shortened_chain records) 1) (\<lambda>b.
         case b of
           Some failed \<Rightarrow> Inr failed
         | None \<Rightarrow> Inr \<lparr>tr_status = ''ok'', tr_value = ''detected, fail-closed'',
             tr_detail = join ''; '' [caught ''edited outcome'', caught ''deleted record'']\<rparr>))))"

definition tamper_check :: "audit_tools \<Rightarrow> tamper_result result" where
  "tamper_check au =
     (if \<not> au_has_go au then Inr (blocked ''not run'' ''go toolchain not on PATH'')
      else case au_fixture au of
          None \<Rightarrow> Inr (blocked ''not run'' ''audit_chain.json is missing'')
        | Some text \<Rightarrow>
            if \<not> au_builds au then Inr (blocked ''not run'' ''cmd/auditcheck did not build'')
            else res_bind (auditcheck au text) (\<lambda>(code, verdict, err).
              if code \<noteq> 0 \<or> verdict = None \<or> \<not> json_true (member (the verdict) ''ok'') then
                Inr (blocked ''not run'' (''recorded chain failed before tampering: '' @ err_or err verdict))
              else forgeries_caught au text))"

section \<open>The headline\<close>

definition pct :: "nat \<Rightarrow> nat \<Rightarrow> string" where
  "pct n d = (if d = 0 then ''n/a'' else fixed 1 (fl (fl (100 * of_nat n) / of_nat d)) @ ''%'')"

definition ratio_pct :: "nat \<Rightarrow> nat \<Rightarrow> string" where
  "ratio_pct n d = nat_str n @ ''/'' @ nat_str d @ '' ('' @ pct n d @ '')''"

definition tile :: "string \<Rightarrow> string \<Rightarrow> string \<Rightarrow> string \<Rightarrow> json" where
  "tile label value note accent = JObj [(''label'', JStr label), (''value'', JStr value), (''note'', JStr note),
     (''accent'', JStr accent)]"

definition fact :: "string \<Rightarrow> string \<Rightarrow> string \<Rightarrow> json" where
  "fact label value status = JObj [(''label'', JStr label), (''value'', JStr value), (''status'', JStr status)]"

definition without_model :: "observation \<Rightarrow> nat" where
  "without_model obs = sum_list (map (count_of (by_bucket obs)) [''alias'', ''structural'', ''fuzzy'', ''override''])"

definition kpi_tiles :: "observation \<Rightarrow> tamper_result \<Rightarrow> (string \<times> json) list" where
  "kpi_tiles obs tamper =
     (let tp = quarantine_tp obs; fp = quarantine_fp obs; fn = quarantine_fn obs; n = columns obs;
          total = nat_str n
      in [(''mapping_accuracy'', tile ''Field-mapping accuracy'' (pct (correct obs) n)
             (nat_str (correct obs) @ ''/'' @ total @ '' labelled columns across '' @ nat_str (files obs)
              @ '' files, '' @ ''against bench/golden'') ''teal''),
          (''no_model_share'', tile ''Resolved without a model'' (pct (without_model obs) n)
             (''alias, structural, fuzzy and promoted overrides: '' @ nat_str (without_model obs) @ ''/'' @ total
              @ '' columns'') ''blue''),
          (''tier3_escalations'', tile ''Columns escalated to Tier 3'' (nat_str (tier3_headers obs))
             (nat_str (tier3_requests obs) @ '' adjudication calls; stand-in answered ''
              @ nat_str (count_of (by_bucket obs) ''llm'') @ '', cache replayed ''
              @ nat_str (count_of (by_bucket obs) ''cache'') @ ''; '' @ ''not a live-model accuracy'') ''violet''),
          (''quarantine_precision'', tile ''Quarantine precision'' (pct tp (tp + fp))
             (nat_str tp @ '' held correctly, '' @ nat_str fp @ '' held needlessly, '' @ ''of ''
              @ nat_str (classifications obs) @ '' classifications'') ''amber''),
          (''quarantine_recall'', tile ''Quarantine recall'' (pct tp (tp + fn))
             (nat_str tp @ '' of '' @ nat_str (tp + fn) @ '' files that should be held were held; '' @ nat_str fn
              @ '' slipped through'') ''amber''),
          (''tamper_check'', tile ''Hash-chain tamper check'' (tr_value tamper) (tr_detail tamper)
             (if tr_status tamper = ''ok'' then ''teal'' else ''red''))])"

definition bar_row :: "observation \<Rightarrow> string \<Rightarrow> json" where
  "bar_row obs b = JObj [(''label'', JStr (dict_get_or BUCKET_LABELS b [])),
     (''value'', JInt (int (count_of (by_bucket obs) b))), (''max'', JInt (int (columns obs))),
     (''display'', JStr (ratio_pct (count_of (by_bucket obs) b) (columns obs))),
     (''accent'', JStr (dict_get_or BUCKET_ACCENTS b []))]"

definition bar_rows :: "observation \<Rightarrow> json list" where
  "bar_rows obs = map (bar_row obs)
     (filter (\<lambda>b. count_of (by_bucket obs) b \<noteq> 0 \<or> b \<in> {''alias'', ''fuzzy'', ''llm''}) BUCKET_ORDER)"

definition SEED :: nat where
  "SEED = 20260831"

definition fact_rows :: "observation \<Rightarrow> tamper_result \<Rightarrow> json list" where
  "fact_rows obs tamper =
     [fact ''Fixed source set'' (nat_str (files obs) @ '' files, '' @ nat_str (classifications obs)
        @ '' classifications, '' @ ''seed '' @ nat_str SEED @ '', sha256-pinned'') ''ok'',
      fact ''Golden labels'' (nat_str (columns obs) @ '' column labels, '' @ nat_str (classifications obs)
        @ '' disposition labels, '' @ ''hand-derived'') ''ok'',
      fact ''Per-tier accuracy'' (join '', '' (map
          (\<lambda>b. b @ '' '' @ ratio_pct (count_of (correct_by_bucket obs) b) (count_of (by_bucket obs) b))
          (filter (\<lambda>b. count_of (by_bucket obs) b \<noteq> 0) BUCKET_ORDER))) ''ok'',
      fact ''Model-resolved columns''
        (nat_str (count_of (by_bucket obs) ''llm'' + count_of (by_bucket obs) ''cache'')
         @ '' by the deterministic fake or its cache; '' @ nat_str (cache_hits obs) @ '' cache replays'') ''ok'',
      fact ''Hash-chain tamper check'' (tr_value tamper @ '': '' @ tr_detail tamper) (tr_status tamper),
      fact ''Tier 2 semantic matcher''
        (if tier2_degraded obs then ''fuzzy-only; fastembed not installed, so the embedding path did not run''
         else ''embeddings active'') (if tier2_degraded obs then ''pending'' else ''ok''),
      fact ''Live model (Claude) mapping accuracy''
        ''not measured offline; needs ANTHROPIC_API_KEY and HM_LIVE=1 make test-live'' ''pending'',
      fact ''Duplicate and redelivery suppression''
        ''not measured here; Portwatch dedupe is asserted against Postgres (make test-store)'' ''pending'',
      fact ''Throughput and p95 latency (NFR-2)'' ''not measured; needs the running stack (make up)'' ''pending'']"

definition headline :: "observation \<Rightarrow> tamper_result \<Rightarrow> json" where
  "headline obs tamper = JObj
     [(''kpis'', JObj (kpi_tiles obs tamper)),
      (''bars'', JObj [(''title'', JStr ''Columns resolved per ladder tier''), (''rows'', JArr (bar_rows obs))]),
      (''facts'', JObj [(''title'', JStr ''Observed and pending''), (''rows'', JArr (fact_rows obs tamper))])]"

definition build_headline ::
    "registry result \<Rightarrow> ('v, memory_cache, traffic) inspector \<Rightarrow> date \<Rightarrow> (string \<Rightarrow> string option) \<Rightarrow> (string \<Rightarrow> string)
     \<Rightarrow> audit_tools \<Rightarrow> golden \<Rightarrow> (json \<times> observation) result" where
  "build_headline config base today read sha256 au g0 =
     res_bind (load_golden g0) (\<lambda>g.
     res_bind (replay config base today read sha256 g) (\<lambda>obs.
     res_bind (tamper_check au) (\<lambda>tamper.
     let doc = headline obs tamper in
     res_bind (assert_valid doc) (\<lambda>_. Inr (doc, obs)))))"

text \<open>\<open>main\<close>: a \<open>BenchError\<close> is reported and nothing is written.\<close>

definition bench_main :: "(json \<times> observation) result \<Rightarrow> (nat \<times> json option) result" where
  "bench_main built =
     (case built of
        Inl (BenchError _) \<Rightarrow> Inr (1, None)
      | Inl e \<Rightarrow> Inl e
      | Inr (doc, obs) \<Rightarrow> Inr (0, Some doc))"

section \<open>Counters\<close>

locale tally =
  fixes get :: "'c \<Rightarrow> string \<Rightarrow> nat"
    and add :: "string \<Rightarrow> 'c \<Rightarrow> 'c"
  assumes get_add: "get (add k c) j = get c j + (if j = k then 1 else 0)"
begin

lemma sum_add:
  "distinct ks \<Longrightarrow> sum_list (map (get (add k c)) ks) = sum_list (map (get c) ks) + (if k \<in> set ks then 1 else 0)"
  by (induction ks) (auto simp: get_add)

lemma add_le: "(\<And>j. get c j \<le> get d j) \<Longrightarrow> get (add k c) j \<le> get (add k d) j"
  by (simp add: get_add)

lemma le_add: "get c j \<le> get d j \<Longrightarrow> get c j \<le> get (add k d) j"
  by (simp add: get_add)

lemma get_le_sum: "k \<in> set ks \<Longrightarrow> get c k \<le> sum_list (map (get c) ks)"
  by (simp add: member_le_sum_list)

end

interpretation counter: tally count_of count_one
  by unfold_locales (auto simp: count_of_def count_one_def dict_get_or_def)

lemma count_of_Nil [simp]: "count_of [] k = 0"
  by (simp add: count_of_def dict_get_or_def)

lemma distinct_buckets [simp]: "distinct BUCKET_ORDER"
  by (simp add: BUCKET_ORDER_def)

lemma bucket_known [simp]: "bucket_of m \<in> set BUCKET_ORDER"
  by (simp add: bucket_of_def BUCKET_ORDER_def split: tier.split)

section \<open>The counts agree\<close>

text \<open>Every column is in one bucket and is either correct or a miss; every classification is in one
  cell of the quarantine table and every wrong one is listed.\<close>

definition consistent :: "observation \<Rightarrow> bool" where
  "consistent obs \<longleftrightarrow>
     sum_list (map (count_of (by_bucket obs)) BUCKET_ORDER) = columns obs
   \<and> sum_list (map (count_of (correct_by_bucket obs)) BUCKET_ORDER) = correct obs
   \<and> (\<forall>b. count_of (correct_by_bucket obs) b \<le> count_of (by_bucket obs) b)
   \<and> correct obs + length (misses obs) = columns obs \<and> cache_hits obs \<le> columns obs
   \<and> quarantine_tp obs + quarantine_fp obs + quarantine_fn obs + quarantine_tn obs = classifications obs
   \<and> length (disposition_misses obs) = quarantine_fp obs + quarantine_fn obs"

lemma consistent_start: "consistent no_observation"
  by (simp add: consistent_def no_observation_def)

lemma score_column_consistent:
  assumes "score_column path labels m obs = Inr obs'" and "consistent obs"
  shows "consistent obs' \<and> files obs' = files obs"
  using assms counter.add_le [of "correct_by_bucket obs" "by_bucket obs" "bucket_of m"]
  by (auto simp: score_column_def consistent_def counter.sum_add Let_def counter.le_add split: option.splits if_splits)

lemma score_columns_consistent:
  "score_columns path labels ms obs = Inr obs' \<Longrightarrow> consistent obs \<Longrightarrow> consistent obs' \<and> files obs' = files obs"
  by (induction ms arbitrary: obs) (auto simp: res_bind_Inr_iff dest!: score_column_consistent)

lemma score_mappings_consistent:
  "score_mappings entry g ms obs = Inr obs' \<Longrightarrow> consistent obs \<Longrightarrow> consistent obs' \<and> files obs' = files obs"
  by (auto simp: score_mappings_def res_bind_Inr_iff Let_def split: option.splits if_splits
      dest!: score_columns_consistent)

lemma score_one_consistent:
  "consistent obs \<Longrightarrow> consistent (score_one entry sc obs) \<and> files (score_one entry sc obs) = files obs"
  by (auto simp: score_one_def consistent_def Let_def)

lemma score_disposition_consistent:
  "consistent obs \<Longrightarrow> consistent (score_disposition entry rs obs) \<and> files (score_disposition entry rs obs) = files obs"
  unfolding score_disposition_def by (induction rs arbitrary: obs) (simp_all add: score_one_consistent)

text \<open>A file that was scored was there, with the pinned digest.\<close>

definition pinned :: "(string \<Rightarrow> string option) \<Rightarrow> (string \<Rightarrow> string) \<Rightarrow> golden_file \<Rightarrow> bool" where
  "pinned read sha256 e \<longleftrightarrow> (case read (gf_path e) of None \<Rightarrow> False
     | Some bytes \<Rightarrow> gf_sha256 e = None \<or> gf_sha256 e = Some (sha256 bytes))"

lemma fetch_pinned_Inr: "fetch_pinned read sha256 e = Inr bytes \<Longrightarrow> pinned read sha256 e"
  by (auto simp: fetch_pinned_def pinned_def split: option.splits if_splits)

lemma score_file_consistent:
  "score_file e g results obs = Inr obs' \<Longrightarrow> consistent obs \<Longrightarrow> consistent obs' \<and> files obs' = files obs"
  by (auto simp: score_file_def res_bind_Inr_iff score_disposition_consistent split: list.splits
      dest!: score_mappings_consistent)

lemma replay_file_consistent:
  assumes "replay_file insp today read sha256 g (i, e) (obs, c, w) = Inr (obs', c', w')" and "consistent obs"
  shows "consistent obs' \<and> files obs' = files obs + 1 \<and> pinned read sha256 e"
proof -
  obtain bytes results where "fetch_pinned read sha256 e = Inr bytes"
    and s: "score_file e g results (obs\<lparr>files := files obs + 1\<rparr>) = Inr obs'"
    using assms(1) by (auto simp: replay_file_def res_bind_Inr_iff)
  moreover have "consistent (obs\<lparr>files := files obs + 1\<rparr>)" using assms(2) by (simp add: consistent_def)
  note score_file_consistent [OF s this]
  ultimately show ?thesis using fetch_pinned_Inr by auto
qed

lemma replay_files_consistent:
  "replay_files insp today read sha256 g es (obs, c, w) = Inr (obs', c', w') \<Longrightarrow> consistent obs \<Longrightarrow>
     consistent obs' \<and> files obs' = files obs + length es \<and> list_all (\<lambda>e. pinned read sha256 (snd e)) es"
proof (induction es arbitrary: obs c w)
  case (Cons e es)
  obtain i f where e: "e = (i, f)" by (cases e)
  obtain o1 c1 w1 where s: "replay_file insp today read sha256 g (i, f) (obs, c, w) = Inr (o1, c1, w1)"
    "replay_files insp today read sha256 g es (o1, c1, w1) = Inr (obs', c', w')"
    using Cons.prems(1) by (auto simp: e res_bind_Inr_iff)
  from replay_file_consistent [OF s(1) Cons.prems(2)] Cons.IH [OF s(2)] show ?case by (auto simp: e)
qed simp

lemma replay_facts:
  assumes "replay config base today read sha256 g = Inr obs"
  shows "consistent obs \<and> files obs = length (g_files g) \<and> list_all (pinned read sha256) (g_files g)"
proof -
  obtain reg obs1 c w where
    r: "replay_files (bench_inspector base reg) today read sha256 g (enumerate 0 (g_files g))
       (no_observation, empty_cache, \<lparr>tf_requests = 0, tf_headers = 0\<rparr>) = Inr (obs1, c, w)"
    and o: "obs = obs1\<lparr>tier3_requests := tf_requests w, tier3_headers := tf_headers w,
        tier2_degraded := \<not> emb_available (emb_touch (in_model base) Unloaded)\<rparr>"
    using assms by (auto simp: replay_def res_bind_Inr_iff)
  have "list_all (\<lambda>e. pinned read sha256 (snd e)) (enumerate n es) = list_all (pinned read sha256) es" for n es
    by (induction es arbitrary: n) auto
  with replay_files_consistent [OF r consistent_start] show ?thesis
    by (simp add: o consistent_def no_observation_def)
qed

section \<open>Groups of alternative columns\<close>

lemma dict_get_fold_set:
  "dict_get (fold (\<lambda>c e. dict_set c (f c) e) cs e) k = (if k \<in> set cs then Some (f k) else dict_get e k)"
  by (induction cs arbitrary: e) auto

lemma group_holder_mem:
  assumes "group_holder taken field cols = Inr h"
  shows "h \<in> set cols"
proof (cases "length (filter (\<lambda>c. dict_get taken c = Some (Some field)) cols) = 1")
  case True
  then obtain x where x: "filter (\<lambda>c. dict_get taken c = Some (Some field)) cols = [x]" by (auto simp: length_Suc_conv)
  then have "x \<in> set cols" by (metis filter_is_subset list.set_intros(1) subset_code(1))
  with assms x show ?thesis by (simp add: group_holder_def)
qed (use assms in \<open>auto simp: group_holder_def split: list.splits\<close>)

lemma label_group_get:
  assumes "label_group taken (field, cols) expected = Inr labels"
  shows "\<exists>h \<in> set cols. group_holder taken field cols = Inr h
    \<and> (\<forall>c. dict_get labels c = (if c \<in> set cols then Some (if c = h then Some field else None) else dict_get expected c))"
  using assms group_holder_mem by (auto simp: label_group_def res_bind_Inr_iff dict_get_fold_set)

text \<open>A group is scored on its shape: all its columns are correct exactly when one of them took the
  field and the others are unassigned, whichever it is.\<close>

lemma group_scored_by_shape:
  assumes "label_group taken (field, cols) expected = Inr labels" and "distinct cols"
  shows "(\<forall>c \<in> set cols. dict_get taken c = dict_get labels c) \<longleftrightarrow>
    (\<exists>h \<in> set cols. dict_get taken h = Some (Some field) \<and> (\<forall>c \<in> set cols - {h}. dict_get taken c = Some None))"
proof -
  obtain h where h: "h \<in> set cols" "group_holder taken field cols = Inr h"
    and get: "\<And>c. dict_get labels c = (if c \<in> set cols then Some (if c = h then Some field else None) else dict_get expected c)"
    using label_group_get [OF assms(1)] by blast
  have "h = k" if k: "k \<in> set cols" "dict_get taken k = Some (Some field)" "\<forall>c \<in> set cols - {k}. dict_get taken c = Some None" for k
  proof -
    have "filter (\<lambda>c. dict_get taken c = Some (Some field)) cols = filter (\<lambda>c. c = k) cols"
      using k by (intro filter_cong [OF refl]) force
    also have "\<dots> = [k]" using assms(2) k(1) by (induction cols) (auto simp: filter_empty_conv)
    finally show ?thesis using h(2) by (simp add: group_holder_def)
  qed
  note unique = this
  show ?thesis
  proof
    assume "\<forall>c \<in> set cols. dict_get taken c = dict_get labels c"
    then have "dict_get taken h = Some (Some field)" "\<forall>c \<in> set cols - {h}. dict_get taken c = Some None"
      using h(1) by (simp_all add: get)
    with h(1) show "\<exists>h \<in> set cols. dict_get taken h = Some (Some field) \<and> (\<forall>c \<in> set cols - {h}. dict_get taken c = Some None)"
      by blast
  next
    assume "\<exists>h \<in> set cols. dict_get taken h = Some (Some field) \<and> (\<forall>c \<in> set cols - {h}. dict_get taken c = Some None)"
    then obtain k where k: "k \<in> set cols" "dict_get taken k = Some (Some field)" "\<forall>c \<in> set cols - {k}. dict_get taken c = Some None"
      by blast
    with unique have "h = k" by blast
    with k show "\<forall>c \<in> set cols. dict_get taken c = dict_get labels c" by (simp add: get)
  qed
qed

section \<open>The tamper check fails closed\<close>

text \<open>What the verifier must have said about a chain.\<close>

definition accepts :: "audit_tools \<Rightarrow> string \<Rightarrow> bool" where
  "accepts au chain \<longleftrightarrow> (\<exists>verdict err. auditcheck au chain = Inr (0, Some verdict, err)
     \<and> json_true (member verdict ''ok''))"

definition rejects_at :: "audit_tools \<Rightarrow> string \<Rightarrow> int \<Rightarrow> bool" where
  "rejects_at au chain n \<longleftrightarrow> (\<exists>verdict err. auditcheck au chain = Inr (AUDITCHECK_BROKEN, Some verdict, err)
     \<and> member verdict ''ok'' = JBool False \<and> equals_int (member verdict ''position'') n)"

lemma blocked_status [simp]: "tr_status (blocked v d) = ''blocked''"
  by (simp add: blocked_def)

lemma attempt_None: "attempt au label chain n = Inr None \<Longrightarrow> rejects_at au chain n"
  by (auto simp: attempt_def rejects_at_def res_bind_Inr_iff split: if_splits)

lemma attempt_Some: "attempt au label chain n = Inr (Some t) \<Longrightarrow> tr_status t = ''blocked''"
  unfolding attempt_def res_bind_Inr_iff by (auto split: if_splits prod.splits)

definition both_caught :: "audit_tools \<Rightarrow> string \<Rightarrow> bool" where
  "both_caught au text \<longleftrightarrow> (\<exists>records edited. chain_records text = Inr records \<and> edited_chain records = Inr edited
     \<and> rejects_at au edited 1 \<and> rejects_at au (shortened_chain records) 1)"

lemma forgeries_status:
  assumes "forgeries_caught au text = Inr t"
  shows "tr_status t = ''blocked'' \<or> tr_status t = ''ok'' \<and> both_caught au text"
proof -
  obtain records edited a where r: "chain_records text = Inr records" "edited_chain records = Inr edited"
    "attempt au ''edited outcome'' edited 1 = Inr a"
    using assms unfolding forgeries_caught_def res_bind_Inr_iff by blast
  show ?thesis
  proof (cases a)
    case (Some failed)
    with assms r have "t = failed" by (simp add: forgeries_caught_def)
    with Some r(3) attempt_Some show ?thesis by blast
  next
    case None
    with assms r obtain b where b: "attempt au ''deleted record'' (shortened_chain records) 1 = Inr b"
      unfolding forgeries_caught_def by (cases "attempt au ''deleted record'' (shortened_chain records) 1") simp_all
    show ?thesis
    proof (cases b)
      case (Some failed)
      with assms r None b have "t = failed" by (simp add: forgeries_caught_def)
      with Some b attempt_Some show ?thesis by blast
    next
      case deleted: None
      with assms r None b have "tr_status t = ''ok''" by (auto simp: forgeries_caught_def)
      moreover have "both_caught au text"
        unfolding both_caught_def using r None b deleted attempt_None by blast
      ultimately show ?thesis by simp
    qed
  qed
qed

lemma tamper_status:
  assumes "tamper_check au = Inr t"
  shows "tr_status t = ''blocked'' \<or> tr_status t = ''ok'' \<and> au_has_go au \<and> au_builds au
    \<and> (\<exists>text. au_fixture au = Some text \<and> accepts au text \<and> both_caught au text)"
proof (cases "au_has_go au \<and> au_builds au")
  case False
  with assms show ?thesis by (auto simp: tamper_check_def split: option.splits if_splits)
next
  case True
  show ?thesis
  proof (cases "au_fixture au")
    case None
    with True assms have "t = blocked ''not run'' ''audit_chain.json is missing''" by (simp add: tamper_check_def)
    then show ?thesis by simp
  next
    case (Some chain)
    obtain code verdict err where v: "auditcheck au chain = Inr (code, verdict, err)"
      using True Some assms unfolding tamper_check_def by (cases "auditcheck au chain") auto
    show ?thesis
    proof (cases "code \<noteq> 0 \<or> verdict = None \<or> \<not> json_true (member (the verdict) ''ok'')")
      case True
      with \<open>au_has_go au \<and> au_builds au\<close> Some v assms have "tr_status t = ''blocked''"
        by (auto simp: tamper_check_def)
      then show ?thesis by simp
    next
      case False
      then obtain kvs where k: "code = 0" "verdict = Some kvs" "json_true (member kvs ''ok'')" by auto
      with \<open>au_has_go au \<and> au_builds au\<close> Some v assms have "forgeries_caught au chain = Inr t"
        by (simp add: tamper_check_def)
      moreover have "accepts au chain" using v k by (auto simp: accepts_def)
      ultimately show ?thesis using forgeries_status True Some by blast
    qed
  qed
qed

text \<open>C38. The tamper check fails closed: it reports a pass only when the verifier accepted the recorded
  chain and rejected, at the second record, both the chain with an edited outcome and the chain with a
  record deleted; everything else is reported as blocked.\<close>

theorem tamper_check_fails_closed:
  assumes "tamper_check au = Inr t"
  shows "tr_status t \<in> {''ok'', ''blocked''} \<and> (tr_status t = ''ok'' \<longrightarrow>
    (\<exists>text records edited. au_fixture au = Some text \<and> accepts au text \<and> chain_records text = Inr records
       \<and> edited_chain records = Inr edited \<and> rejects_at au edited 1 \<and> rejects_at au (shortened_chain records) 1))"
  using tamper_status [OF assms] unfolding both_caught_def by auto

section \<open>The published document\<close>

lemma member_Cons [simp]: "member ((k', v) # kvs) k = (if k = k' then v else member kvs k)"
  by (simp add: member_def dict_get_or_def)

lemma tile_ok_tile [simp]: "tile_ok (tile l v n a) \<longleftrightarrow> a \<in> set ACCENTS"
  by (simp add: tile_ok_def tile_def has_keys_def KPI_KEYS_def texts_at_def choice_at_def)

lemma fact_ok_fact [simp]: "fact_ok (fact l v st) \<longleftrightarrow> st \<in> set STATUSES"
  by (simp add: fact_ok_def fact_def has_keys_def FACT_ROW_KEYS_def texts_at_def choice_at_def)

lemma bucket_accent: "b \<in> set BUCKET_ORDER \<Longrightarrow> dict_get_or BUCKET_ACCENTS b [] \<in> set ACCENTS"
  by (auto simp: BUCKET_ORDER_def BUCKET_ACCENTS_def ACCENTS_def dict_get_or_def)

lemma bar_ok_row:
  assumes "b \<in> set BUCKET_ORDER" and "consistent obs"
  shows "bar_ok (bar_row obs b) \<longleftrightarrow> 0 < columns obs"
proof -
  have "count_of (by_bucket obs) b \<le> columns obs"
    using counter.get_le_sum [OF assms(1), of "by_bucket obs"] assms(2) by (simp add: consistent_def del: sum_list.Cons)
  then show ?thesis
    using bucket_accent [OF assms(1)]
    by (simp add: bar_ok_def bar_row_def has_keys_def BAR_ROW_KEYS_def texts_at_def choice_at_def range_ok_def insert_commute)
qed

definition KPI_ORDER :: "string list" where
  "KPI_ORDER = [''mapping_accuracy'', ''no_model_share'', ''tier3_escalations'', ''quarantine_precision'',
     ''quarantine_recall'', ''tamper_check'']"

lemma kpi_order_keys: "list_all kpi_key KPI_ORDER"
  by code_simp

lemma kpi_tiles_keys: "dict_keys (kpi_tiles obs t) = KPI_ORDER"
  by (simp add: kpi_tiles_def KPI_ORDER_def Let_def)

lemma kpis_ok_tiles: "kpis_ok (JObj (kpi_tiles obs t))"
proof -
  have "list_all (\<lambda>kv. tile_ok (snd kv)) (kpi_tiles obs t)"
    by (simp add: kpi_tiles_def ACCENTS_def Let_def)
  moreover have "list_all (\<lambda>kv. kpi_key (fst kv)) (kpi_tiles obs t)"
    using kpi_order_keys kpi_tiles_keys [of obs t] unfolding list_all_iff by (metis image_eqI list.set_map)
  moreover have "kpi_tiles obs t \<noteq> []" by (simp add: kpi_tiles_def Let_def)
  ultimately show ?thesis by (simp add: kpis_ok_def list_all_iff)
qed

lemma alias_bar: "''alias'' \<in> set (filter (\<lambda>b. P b \<or> b \<in> {''alias'', ''fuzzy'', ''llm''}) BUCKET_ORDER)"
  by (simp add: BUCKET_ORDER_def)

lemma bar_rows_ok:
  assumes "consistent obs"
  shows "list_all bar_ok (bar_rows obs) \<longleftrightarrow> 0 < columns obs" and "bar_rows obs \<noteq> []"
proof -
  define bs where "bs = filter (\<lambda>b. count_of (by_bucket obs) b \<noteq> 0 \<or> b \<in> {''alias'', ''fuzzy'', ''llm''}) BUCKET_ORDER"
  have rows: "bar_rows obs = map (bar_row obs) bs" by (simp only: bar_rows_def bs_def)
  have a: "''alias'' \<in> set bs" unfolding bs_def by (rule alias_bar)
  have "set bs \<subseteq> set BUCKET_ORDER" unfolding bs_def by (rule filter_is_subset)
  then have "bar_ok (bar_row obs b) \<longleftrightarrow> 0 < columns obs" if "b \<in> set bs" for b
    using that bar_ok_row [OF _ assms] by blast
  moreover have "list_all bar_ok (bar_rows obs) \<longleftrightarrow> (\<forall>b \<in> set bs. bar_ok (bar_row obs b))"
    by (simp add: rows list_all_iff)
  ultimately show "list_all bar_ok (bar_rows obs) \<longleftrightarrow> 0 < columns obs" using a by blast
  show "bar_rows obs \<noteq> []" using a by (auto simp: rows)
qed

lemma facts_ok: "list_all fact_ok (fact_rows obs t) \<longleftrightarrow> tr_status t \<in> set STATUSES"
  by (simp add: fact_rows_def STATUSES_def)

lemma headline_ok_iff:
  assumes "consistent obs" and "tr_status t \<in> set STATUSES"
  shows "headline_ok (headline obs t) \<longleftrightarrow> 0 < columns obs"
proof -
  have "fact_rows obs t \<noteq> []" by (simp add: fact_rows_def)
  then show ?thesis
    using bar_rows_ok [OF assms(1)] facts_ok [of obs t] assms(2) kpis_ok_tiles [of obs t]
    by (simp add: headline_ok_def headline_def has_keys_def TOP_LEVEL_KEYS_def panel_ok_def insert_commute)
qed

lemma drawable_rows: "list_all drawable (bar_rows obs)"
  by (simp add: bar_rows_def list.pred_map comp_def list_all_iff drawable_def bar_row_def Let_def)

lemma build_headline_parts:
  assumes "build_headline config base today read sha256 au g = Inr (doc, obs)"
  obtains t where "replay config base today read sha256 g = Inr obs" "tamper_check au = Inr t" "doc = headline obs t"
    "problems_in doc = Inr []"
  using assms
  by (auto simp: build_headline_def load_golden_def res_bind_Inr_iff assert_valid_def Let_def split: if_splits)

lemma check_bar_total:
  assumes "choice_at (members row) ''accent'' ACCENTS"
  shows "succeeds (check_bar path row)"
proof -
  have "check_choice path (members row) ''accent'' ACCENTS = Inr []" using assms check_choice_ok by blast
  then show ?thesis by (simp add: check_bar_def Let_def split: prod.split)
qed

lemma bar_accents: "row \<in> set (bar_rows obs) \<Longrightarrow> choice_at (members row) ''accent'' ACCENTS"
proof -
  assume "row \<in> set (bar_rows obs)"
  then obtain b where b: "b \<in> set BUCKET_ORDER" "row = bar_row obs b" unfolding bar_rows_def by auto
  then show ?thesis using bucket_accent [OF b(1)] by (simp add: bar_row_def choice_at_def)
qed

lemma panel_total:
  assumes "\<And>path row. row \<in> set rows \<Longrightarrow> succeeds (check path row)"
  shows "succeeds (check_panel name check (JObj [(''title'', t), (''rows'', JArr rows)]))"
proof -
  have "succeeds (check_rows check path rs)" if "set rs \<subseteq> set rows" for path rs
    unfolding check_rows_def using assms that
    by (intro succeeds_bind succeeds_res_map) (auto simp: enumerate_eq_zip dest!: set_zip_rightD)
  then show ?thesis
    by (cases rows) (auto simp: check_panel_def Let_def intro!: succeeds_bind split: prod.split)
qed

lemma headline_problems_total:
  assumes "tr_status t \<in> set STATUSES"
  shows "succeeds (problems_in (headline obs t))"
proof -
  have "check_kpis (JObj (kpi_tiles obs t)) = Inr []" using kpis_ok_tiles check_kpis_ok by blast
  moreover have "succeeds (check_panel ''bars'' check_bar (JObj [(''title'', a), (''rows'', JArr (bar_rows obs))]))" for a
    by (intro panel_total check_bar_total bar_accents)
  moreover have "succeeds (check_panel ''facts'' check_fact (JObj [(''title'', a), (''rows'', JArr (fact_rows obs t))]))" for a
  proof (rule panel_total)
    fix path row
    assume "row \<in> set (fact_rows obs t)"
    then have "check_fact path row = Inr []" using facts_ok [of obs t] assms check_fact_ok by (auto simp: list_all_iff)
    then show "succeeds (check_fact path row)" by simp
  qed
  ultimately show ?thesis
    by (auto simp: problems_in_def headline_def check_bars_def check_facts_def Let_def intro!: succeeds_bind split: prod.split)
qed

text \<open>C39. A headline the bench returns is one the renderer can draw: it satisfies the closed schema, and
  validation, the SVG card and the README block succeed on it, without an exception.\<close>

theorem bench_output_renders:
  assumes "build_headline config base today read sha256 au g = Inr (doc, obs)" and "cd_kpi_order cd = KPI_ORDER"
  shows "headline_ok doc \<and> (\<exists>svg block. validate doc (cd_kpi_order cd) = Inr () \<and> render_svg doc cd = Inr svg
    \<and> render_markdown doc cd = Inr block)"
proof -
  obtain t where d: "doc = headline obs t" and p: "problems_in doc = Inr []"
    by (rule build_headline_parts [OF assms(1)])
  have ok: "headline_ok doc" using p problems_iff by blast
  have "json_index doc ''kpis'' = Inr (JObj (kpi_tiles obs t))" "panel_rows doc ''bars'' = Inr (bar_rows obs)"
    by (simp_all add: d headline_def panel_rows_def)
  with headline_renders [OF ok] assms(2) kpi_tiles_keys drawable_rows ok show ?thesis by metis
qed

text \<open>The schema check refuses the bench's own document exactly when no column was scored.\<close>

lemma headline_fails_only_when_empty:
  assumes "replay config base today read sha256 g = Inr obs" and "tamper_check au = Inr t"
  shows "(assert_valid (headline obs t) = Inr () \<longleftrightarrow> 0 < columns obs)
    \<and> (columns obs = 0 \<longrightarrow> (\<exists>m. assert_valid (headline obs t) = Inl (HeadlineError m)))"
proof -
  have "consistent obs" using replay_facts [OF assms(1)] by blast
  moreover have st: "tr_status t \<in> set STATUSES" using tamper_status [OF assms(2)] by (auto simp: STATUSES_def)
  ultimately have "problems_in (headline obs t) = Inr [] \<longleftrightarrow> 0 < columns obs"
    using headline_ok_iff problems_iff by blast
  moreover have "\<exists>ps. problems_in (headline obs t) = Inr ps"
    using headline_problems_total st by (simp add: succeeds_def)
  ultimately show ?thesis by (auto simp: assert_valid_def)
qed


section \<open>Examples\<close>

definition desk_table :: parsed_table where
  "desk_table = \<lparr>t_headers = [''Account''], t_rows = [[(''Account'', ''A1'')]], t_evidence = [], t_warnings = []\<rparr>"

definition desk_parser :: parser where
  "desk_parser = \<lparr>p_format = ''CSV'', p_sniff = (\<lambda>bytes name. 1), p_parse = (\<lambda>bytes. Inr desk_table)\<rparr>"

definition desk_registry :: registry where
  "desk_registry = \<lparr>reg_clients = [], reg_calendars = [(''US_EQUITY'', weekend_calendar)]\<rparr>"

definition desk_inspector :: "(unit, memory_cache, traffic) inspector" where
  "desk_inspector = \<lparr>in_registry = desk_registry, in_parsers = [desk_parser], in_adjudicator = None,
     in_cache_get = mem_get, in_cache_put = mem_put, in_fresh = None, in_extract = exact_extract,
     in_model = no_model, in_digest = (\<lambda>s. ''d''), in_env = no_env\<rparr>"

definition desk_golden :: golden where
  "desk_golden = \<lparr>g_layouts = [(''L'', [(''Account'', Some ''account_id'')])], g_either = [],
     g_files = [\<lparr>gf_path = ''x/a.csv'', gf_sha256 = Some ''s'', gf_layout = ''L'', gf_expected_held = True\<rparr>]\<rparr>"

abbreviation desk_read :: "string \<Rightarrow> string option" where
  "desk_read path \<equiv> if path = ''x/a.csv'' then Some ''a'' else None"

abbreviation desk_sha :: "string \<Rightarrow> string" where
  "desk_sha bytes \<equiv> ''s''"

definition desk_att :: attribution where
  "desk_att = attribute ''a.csv'' (t_headers desk_table) (t_rows desk_table) desk_registry"

definition desk_columns :: "mapping list" where
  "desk_columns = [assigned ''Account'' ''account_id'' ALIAS 1 ''alias:account'']"

definition no_traffic :: traffic where
  "no_traffic = \<lparr>tf_requests = 0, tf_headers = 0\<rparr>"

lemma desk_attributed [simp]: "att_client_id desk_att = None" "str_or (att_domain desk_att) ''UNKNOWN'' = ''UNKNOWN''"
  by code_simp+

lemma desk_resolved:
  "case resolve_table mem_get mem_put (Some observed_adjudicate) exact_extract no_model []
      (job_of desk_registry desk_att ''UNKNOWN'' ''tf_d'') desk_table (Unloaded, empty_cache, no_traffic) of
     Inr (oc, st, c, w) \<Rightarrow> o_mappings oc = desk_columns | Inl _ \<Rightarrow> False"
  by code_simp

lemma desk_ungrouped: "split_by_value_date (t_rows desk_table) (t_headers desk_table) [] = []"
  by code_simp

lemma desk_no_quantity: "dict_get_or (by_field desk_columns) ''quantity'' [] = []"
  by code_simp

lemma unknown_coverage: "mapping_coverage ms ''UNKNOWN'' = Inr (1, [])"
  by code_simp

lemma desk_classified:
  "\<exists>r c w. classify (bench_inspector desk_inspector desk_registry) 739930 n ''a'' ''a.csv'' (empty_cache, no_traffic)
      = Inr ([r], c, w) \<and> cl_mappings r = desk_columns"
proof -
  obtain oc st c w where r: "resolve_table mem_get mem_put (Some observed_adjudicate) exact_extract no_model []
      (job_of desk_registry desk_att ''UNKNOWN'' ''tf_d'') desk_table (Unloaded, empty_cache, no_traffic)
      = Inr (oc, st, c, w)" and oc: "o_mappings oc = desk_columns"
    using desk_resolved by (cases "resolve_table mem_get mem_put (Some observed_adjudicate) exact_extract no_model []
      (job_of desk_registry desk_att ''UNKNOWN'' ''tf_d'') desk_table (Unloaded, empty_cache, no_traffic)") auto
  have k: "cross_check_amount desk_table desk_columns = Inr (None, ''insufficient columns for an arithmetic cross-check'')"
    by (simp add: cross_check_amount_def desk_no_quantity Let_def)
  have s: "sniff [desk_parser] ''a'' ''a.csv'' = Inr (desk_parser, 1)"
    by (simp add: sniff_def desk_parser_def)
  have cal: "calendar_of desk_registry None = Inr weekend_calendar"
    by (simp add: calendar_of_def truthy_def reg_calendar_def desk_registry_def)
  have reg: "hints_for desk_registry None = []" "overrides_for desk_registry None = []"
    by (simp_all add: hints_for_def overrides_for_def client_of_def truthy_def)
  have t: "t_headers desk_table = [''Account'']" by (simp add: desk_table_def)
  have p: "p_parse desk_parser ''a'' = Inr desk_table" by (simp add: desk_parser_def)
  have d: "template_fingerprint (\<lambda>s. ''d'') None [''Account''] = ''tf_d''" by (simp add: template_fingerprint_def)
  have i: "in_registry (bench_inspector desk_inspector desk_registry) = desk_registry"
     "in_parsers (bench_inspector desk_inspector desk_registry) = [desk_parser]"
     "in_digest (bench_inspector desk_inspector desk_registry) = (\<lambda>s. ''d'')"
     "in_cache_get (bench_inspector desk_inspector desk_registry) = mem_get"
     "in_cache_put (bench_inspector desk_inspector desk_registry) = mem_put"
     "in_adjudicator (bench_inspector desk_inspector desk_registry) = Some observed_adjudicate"
     "in_extract (bench_inspector desk_inspector desk_registry) = exact_extract"
     "in_model (bench_inspector desk_inspector desk_registry) = no_model"
     "in_env (bench_inspector desk_inspector desk_registry) = no_env"
     "in_fresh (bench_inspector desk_inspector desk_registry) = None"
    by (simp_all add: bench_inspector_def desk_inspector_def)
  have "\<exists>r. classify_batches (bench_inspector desk_inspector desk_registry) 739930 n ''a.csv'' desk_parser desk_att weekend_calendar []
     ''UNKNOWN'' desk_columns fp nt desk_table = Inr [r] \<and> cl_mappings r = desk_columns" for fp nt
    by (simp add: classify_batches_def desk_ungrouped classify_rows_def compose_def unknown_coverage i make_classification_def Let_def)
  then obtain r0 where r0: "classify_batches (bench_inspector desk_inspector desk_registry) 739930 n ''a.csv'' desk_parser desk_att
      weekend_calendar [] ''UNKNOWN'' desk_columns ''tf_d'' ''insufficient columns for an arithmetic cross-check'' desk_table
      = Inr [r0]" "cl_mappings r0 = desk_columns" by blast
  have "attribute ''a.csv'' [''Account''] (t_rows desk_table) desk_registry = desk_att" by (simp add: desk_att_def t)
  then show ?thesis
    using r oc k s cal reg p d r0
    by (simp add: classify_def i ladder_cache_def t Let_def cross_check_text_def)
qed

lemma columns_score_disposition [simp]: "columns (score_disposition e rs obs) = columns obs"
  by (induction rs arbitrary: obs) (simp_all add: score_disposition_def score_one_def Let_def)

lemma desk_scored:
  "case score_mappings (hd (g_files desk_golden)) desk_golden desk_columns (no_observation\<lparr>files := 1\<rparr>) of
     Inr obs \<Rightarrow> columns obs = 1 | Inl _ \<Rightarrow> False"
  by code_simp

lemma desk_replayed:
  obtains obs where "replay (Inr desk_registry) desk_inspector 739930 desk_read desk_sha desk_golden = Inr obs" "columns obs = 1"
proof -
  let ?e = "hd (g_files desk_golden)"
  obtain r c w where r: "classify (bench_inspector desk_inspector desk_registry) 739930 (''bench-'' @ pad_left 3 (CHR ''0'') (nat_str 0))
      ''a'' ''a.csv'' (empty_cache, no_traffic) = Inr ([r], c, w)" "cl_mappings r = desk_columns"
    using desk_classified by blast
  obtain o1 where o1: "score_mappings ?e desk_golden desk_columns (no_observation\<lparr>files := 1\<rparr>) = Inr o1" "columns o1 = 1"
    using desk_scored by (cases "score_mappings ?e desk_golden desk_columns (no_observation\<lparr>files := 1\<rparr>)") auto
  have e: "enumerate 0 (g_files desk_golden) = [(0, ?e)]" "gf_path ?e = ''x/a.csv''" "gf_sha256 ?e = Some ''s''"
    by (simp_all add: desk_golden_def)
  have f: "file_name ''x/a.csv'' = ''a.csv''" "files no_observation = 0" by (simp_all add: file_name_def no_observation_def)
  have "replay_file (bench_inspector desk_inspector desk_registry) 739930 desk_read desk_sha desk_golden (0, ?e)
      (no_observation, empty_cache, no_traffic) = Inr (score_disposition ?e [r] o1, c, w)"
    using r o1 e f by (simp add: replay_file_def fetch_pinned_def score_file_def)
  then show thesis
    using that o1(2) e(1) by (simp add: replay_def no_traffic_def)
qed

text \<open>A verifier that knows the recorded chain and calls every other broken at record 1.\<close>

definition desk_chain :: string where
  "desk_chain = json_dumps (JArr [JObj [(''A'', JInt 1)], JObj [(''B'', JInt 2)], JObj [(''C'', JInt 3)]])"

definition desk_tools :: audit_tools where
  "desk_tools = \<lparr>au_has_go = True, au_fixture = Some desk_chain, au_builds = True,
     au_verify = (\<lambda>chain. if chain = desk_chain then (0, json_dumps (JObj [(''ok'', JBool True)]), [])
        else (2, json_dumps (JObj [(''ok'', JBool False), (''position'', JInt 1)]), []))\<rparr>"

lemma desk_tampered: "case tamper_check desk_tools of Inr t \<Rightarrow> tr_status t = ''ok'' | Inl _ \<Rightarrow> False"
  by code_simp

lemma desk_tampered_ok: obtains t where "tamper_check desk_tools = Inr t" "tr_status t = ''ok''"
  using desk_tampered by (cases "tamper_check desk_tools") auto

theorem tamper_check_fails_closed_witness:
  "\<exists>records edited. chain_records desk_chain = Inr records \<and> edited_chain records = Inr edited
     \<and> rejects_at desk_tools edited 1 \<and> rejects_at desk_tools (shortened_chain records) 1"
proof -
  obtain t where "tamper_check desk_tools = Inr t" "tr_status t = ''ok''" by (rule desk_tampered_ok)
  from tamper_check_fails_closed [OF this(1)] this(2) show ?thesis by (auto simp: desk_tools_def)
qed

lemma desk_built:
  obtains doc obs where "build_headline (Inr desk_registry) desk_inspector 739930 desk_read desk_sha desk_tools desk_golden = Inr (doc, obs)"
    "columns obs = 1"
proof -
  obtain obs where r: "replay (Inr desk_registry) desk_inspector 739930 desk_read desk_sha desk_golden = Inr obs" "columns obs = 1"
    by (rule desk_replayed)
  obtain t where t: "tamper_check desk_tools = Inr t" "tr_status t = ''ok''" by (rule desk_tampered_ok)
  have "consistent obs" using replay_facts [OF r(1)] by blast
  then have "problems_in (headline obs t) = Inr []"
    using headline_ok_iff problems_iff r(2) t(2) by (simp add: STATUSES_def)
  moreover have "load_golden desk_golden = Inr desk_golden" by code_simp
  ultimately show thesis using r t that by (simp add: build_headline_def assert_valid_def Let_def)
qed

definition bench_card :: card where
  "bench_card = sample_card\<lparr>cd_kpi_order := KPI_ORDER\<rparr>"

theorem bench_output_renders_witness:
  "\<exists>doc obs svg. build_headline (Inr desk_registry) desk_inspector 739930 desk_read desk_sha desk_tools desk_golden = Inr (doc, obs)
     \<and> columns obs = 1 \<and> render_svg doc bench_card = Inr svg"
proof -
  obtain doc obs where b: "build_headline (Inr desk_registry) desk_inspector 739930 desk_read desk_sha desk_tools desk_golden = Inr (doc, obs)"
    "columns obs = 1" by (rule desk_built)
  from bench_output_renders [OF b(1), of bench_card] b show ?thesis by (auto simp: bench_card_def)
qed

lemma headline_fails_only_when_empty_witness:
  "\<exists>obs t. replay (Inr desk_registry) desk_inspector 739930 desk_read desk_sha desk_golden = Inr obs
     \<and> tamper_check desk_tools = Inr t \<and> assert_valid (headline obs t) = Inr ()"
proof -
  obtain obs where r: "replay (Inr desk_registry) desk_inspector 739930 desk_read desk_sha desk_golden = Inr obs" "columns obs = 1"
    by (rule desk_replayed)
  obtain t where t: "tamper_check desk_tools = Inr t" by (rule desk_tampered_ok)
  from headline_fails_only_when_empty [OF r(1) t] r t show ?thesis by auto
qed


end
