(* ===== verification/Spec2Isabelle.thy ===== *)
theory Spec2Isabelle
  imports Masking Tier3_LLM DefaultParsers ReconStub Onboard
begin

text \<open>
  Harbormaster receives files from counterparties, finds out what they are and writes them as
  canonical records that a reconciliation can compare. This library models the Python services of the
  repository (\<^verbatim>\<open>src/python/src\<close>): the Inspector, which parses, attributes, dates, maps, scores, emits and
  announces a file, and the reconciliation stub at the end of the pipeline. It also models the bench that
  replays labelled files through the Inspector and publishes what it observed (\<^verbatim>\<open>src/bench\<close>), and the
  renderer of the results card (\<^verbatim>\<open>src/metrics\<close>).

  \<^bold>\<open>The pipeline.\<close> A message on the topic of raw arrivals names a file. \<^verbatim>\<open>Inspector.sniff\<close> lets every
  parser score the first 64 KiB and takes the best; the parser gives a table of texts. The contents and
  the name attribute it to a client, its date columns and the client's calendar give the value date,
  and the mapping ladder gives each column a canonical field: an alias dictionary with price
  disambiguation (tier 1), a durable cache, local matching (tier 2) and a language model (tier 3). A
  file with several value dates becomes one classification per date. The score decides between
  dispatch, quarantine and rejection; the canonical records are written and the classification is
  published under the key of its slot. The stub reconciles the two files of an assignment. The bench
  checks its labels, replays every labelled file through the same Inspector with a counting adjudicator,
  tries two forgeries on the audit verifier, checks the document it built against a closed schema, and
  the renderer turns that document into an SVG and the block of the README.

  \<^bold>\<open>Theories and code\<close> (paths below \<^verbatim>\<open>src/python/src\<close>; a definition has the name of the function or
  constant it translates, without a leading underscore, and \<^verbatim>\<open>PROJECT.json\<close> has the lines).
  \<^item> \<^verbatim>\<open>Prelude\<close>, \<^verbatim>\<open>PyText\<close>, \<^verbatim>\<open>PyBytes\<close>, \<^verbatim>\<open>PyFloat\<close>, \<^verbatim>\<open>PyDecimal\<close>, \<^verbatim>\<open>PyDate\<close>, \<^verbatim>\<open>PyRegex\<close>, \<^verbatim>\<open>PyJson\<close>, \<^verbatim>\<open>PyCsv\<close>, \<^verbatim>\<open>Values\<close>:
    what the code uses of Python and its library: dictionaries in insertion order, results that may be
    an exception, text, UTF-8, floats, decimals, dates, patterns, JSON and the csv reader.
  \<^item> \<^verbatim>\<open>ParsedTable\<close> (\<^verbatim>\<open>inspector/parsers/base.py\<close>), \<^verbatim>\<open>Rows\<close>, \<^verbatim>\<open>Tabular\<close> (what several parsers repeat),
    \<^verbatim>\<open>DelimitedParser\<close> (\<^verbatim>\<open>delimited.py\<close>), \<^verbatim>\<open>ExcelParser\<close> (\<^verbatim>\<open>excel.py\<close>), \<^verbatim>\<open>XmlTree\<close> and \<^verbatim>\<open>XmlParser\<close> (\<^verbatim>\<open>xml_parser.py\<close>),
    \<^verbatim>\<open>FixmlParser\<close> (\<^verbatim>\<open>fixml.py\<close>), \<^verbatim>\<open>JsonParser\<close> (\<^verbatim>\<open>json_parser.py\<close>), \<^verbatim>\<open>EmailParser\<close> (\<^verbatim>\<open>email_text.py\<close>) and
    \<^verbatim>\<open>DefaultParsers\<close> (\<^verbatim>\<open>DEFAULT_PARSERS\<close> of \<^verbatim>\<open>main.py\<close>, and the contract the six parsers share).
  \<^item> \<^verbatim>\<open>Registry\<close> (\<^verbatim>\<open>inspector/registry.py\<close>: clients, accounts, calendars), \<^verbatim>\<open>YamlDoc\<close> and \<^verbatim>\<open>RegistryLoad\<close>
    (the values of a YAML document, and the reading of the configuration files of the same module),
    \<^verbatim>\<open>Attribution\<close> (\<^verbatim>\<open>attribution.py\<close>),
    \<^verbatim>\<open>ValueDate\<close> (\<^verbatim>\<open>valuedate.py\<close>), \<^verbatim>\<open>Masking\<close> (\<^verbatim>\<open>masking.py\<close>).
  \<^item> \<^verbatim>\<open>Canonical\<close> (\<^verbatim>\<open>inspector/mapping/canonical.py\<close>), \<^verbatim>\<open>Tier1\<close>, \<^verbatim>\<open>Tier2\<close>, \<^verbatim>\<open>Tier3\<close> and \<^verbatim>\<open>Tier3_LLM\<close> (\<^verbatim>\<open>tier1.py\<close>,
    \<^verbatim>\<open>tier2.py\<close>, \<^verbatim>\<open>tier3.py\<close>, \<^verbatim>\<open>tier3_llm.py\<close>), \<^verbatim>\<open>Resolver\<close> (\<^verbatim>\<open>resolver.py\<close>, the ladder).
  \<^item> \<^verbatim>\<open>Confidence\<close> (\<^verbatim>\<open>confidence.py\<close>), \<^verbatim>\<open>Emit\<close> (\<^verbatim>\<open>emit.py\<close>), \<^verbatim>\<open>MessageBus\<close> (\<^verbatim>\<open>bus.py\<close>), \<^verbatim>\<open>InspectorMain\<close> (\<^verbatim>\<open>main.py\<close>),
    \<^verbatim>\<open>ReconStub\<close> (\<^verbatim>\<open>reconstub/main.py\<close>).
  \<^item> \<^verbatim>\<open>HeadlineCheck\<close> (\<^verbatim>\<open>src/bench/headline_check.py\<close>, the schema), \<^verbatim>\<open>Render\<close> (\<^verbatim>\<open>src/metrics/render.py\<close>, the
    card) and \<^verbatim>\<open>Onboard\<close> (\<^verbatim>\<open>src/bench/onboard.py\<close>, the bench).

  \<^bold>\<open>State.\<close> Objects are records, and an operation that changes one returns it changed: the bus with its
  partitions and offsets, the memory cache and the rows of the database table, the embedding matcher
  that loads once, the counters of the live adjudicator, the Inspector's bus, files and cache, and the
  voided set and report files of the stub, the observation of the bench. Every raise is a value of \<open>py_error\<close> on the left of a sum.
  Loops are recursions over the data they walk, in the order the code walks it.

  \<^bold>\<open>Interfaces.\<close> Locales state what a client of an operation relies on, and are interpreted on the
  model's own definitions: rounded arithmetic (\<^verbatim>\<open>PyFloat\<close>), the search for an open day on a calendar
  (\<^verbatim>\<open>Registry\<close>), a log that keeps the order of a key (\<^verbatim>\<open>MessageBus\<close>), an adjudicator, with the
  deterministic and the live one as instances, and a template cache, with the memory cache and the
  database table as instances (\<^verbatim>\<open>Tier3\<close>, \<^verbatim>\<open>Tier3_LLM\<close>), the ladder over both (\<^verbatim>\<open>Resolver\<close>), a table
  parser with the six parsers as instances (\<^verbatim>\<open>DefaultParsers\<close>), the check of the rows of a panel, with the
  bars and the facts as instances (\<^verbatim>\<open>HeadlineCheck\<close>), a text with markers (\<^verbatim>\<open>Render\<close>) and a tally
  (\<^verbatim>\<open>Onboard\<close>).

  \<^bold>\<open>What the lemmas show.\<close> For the parsers: the csv reader inverts a quoting writer; rows are neither
  lost nor invented; the ways to fail are listed; merged cells, repeated XML groups and e-mail amounts
  keep their values; content decides the format; every parser keeps the contract. For attribution and
  dates: the evidence behind a client, the precedence of contents over names, business days, the
  partition of rows by date. For the mapping: one field per column and one column per field through all
  tiers, prices not swapped, bounded calls to the model and answers that stay within the request. For
  the pipeline: what is on the topic of classified arrivals has its evidence, its file exists, parse
  errors change nothing, keys keep their order. For the reconciliation: missing sides, tolerance,
  symmetry, reflexivity up to not-a-number cells, and voided assignments that stay voided. For the
  configuration: what a calendar file says is what the calendar answers, every client has its calendar.
  For the bench and the card: the check finds no problem in exactly the documents of the schema, the
  counts add up over pinned files, the tamper check fails closed, the document of the bench can be
  drawn, and drawing twice changes nothing.

  \<^bold>\<open>Bounds and fuel.\<close> The JSON reader runs on a fuel of twice the length of the text plus one, which
  is never used up (\<open>scan_fuel\<close>). The other bounds are the code's own: \<open>MAX_DEPTH\<close> of nested records,
  \<open>MAX_CALENDAR_STEP_DAYS\<close> of a roll, \<open>MAX_ATTEMPTS\<close> of the adjudicator, \<open>SNIFF_BYTES\<close>, the rows searched for
  a header and the field limit of the csv reader. All other recursions are structural or shrink the
  text they read.

  \<^bold>\<open>Parameters.\<close> What is not under \<^verbatim>\<open>src/\<close> is an argument: lxml (a tree or a syntax error), openpyxl (sheets
  or an exception), rapidfuzz, the embedding model and the cosine of its vectors, the model service, the
  digest of the fingerprint and of the partition key, Parquet files, the clock and the environment; for the
  configuration PyYAML and \<^verbatim>\<open>re.compile\<close>; for the bench the generated files, their SHA-256 and the built Go
  verifier; for the card its three characters beyond Latin-1.

  \<^bold>\<open>Limits of the model.\<close> A text is a list of characters below 256; the euro sign is outside. Floats are
  rounded to 53 bits without bounds on the exponent. The messages of foreign exceptions are left out
  of error texts. The coercion of the written frame by polars is the identity on the types it is given.

  \<^bold>\<open>Not modelled.\<close> Logging (no effect on results); the corpus generator, with the part of the bench that
  calls it (test data from a random generator and third-party writers), and the script that writes task
  packs (planning documents); argument parsing, printing and the building of the verifier; the generated
  message classes (their values are records here); the Kafka bus and the protobuf codec (calls of
  third-party libraries); the Go services (another language with its own build).
\<close>

section \<open>Configuration and pipeline\<close>

text \<open>C11. A configuration that loads never leaves an attributed file without a calendar: whatever client
  the name or the contents of a file point to, resolution gets the calendar that client's file names,
  read from the calendar directory, with a weekend of real weekdays. Only a file without a client can
  lack one, and only when the default calendar is not configured.\<close>

theorem loaded_config_gives_calendar:
  assumes "load_config safe_load compile config_dir calendar_dir client_dir = Inr r"
    and "[] \<notin> client_id ` set (clients r)"
  shows "case att_client_id (attribute fn headers rows r) of
      None \<Rightarrow> calendar_of r None = Inl (ConfigError ''no calendar available for value-date resolution'')
                \<longleftrightarrow> reg_calendar r ''US_EQUITY'' = None
    | Some c \<Rightarrow> \<exists>cl cal f. reg_client r c = Some cl \<and> calendar_of r (Some c) = Inr cal
                \<and> calendar_id cal = client_calendar cl \<and> f \<in> set calendar_dir \<and> load_calendar safe_load f = Inr cal
                \<and> set (weekend cal) \<subseteq> {0..6}"
proof (cases "att_client_id (attribute fn headers rows r)")
  case None
  then show ?thesis by (auto simp: calendar_of_def truthy_def split: option.splits)
next
  case (Some c)
  then have c: "c \<in> client_id ` set (clients r)" using attribution_facts [OF assms(2)] by blast
  then have ne: "c \<noteq> []" using assms(2) by metis
  obtain k cl where k: "reg_client r k = Some cl" "client_id cl = c"
    using c by (auto simp: clients_mem reg_client_def)
  note sound = loaded_registry_sound [OF assms(1), THEN conjunct2, THEN conjunct2, rule_format, OF k(1)]
  then have "k = c" using k(2) by simp
  from sound obtain cal f where cal: "calendar_for r k = Some cal" "calendar_id cal = client_calendar cl"
    "set (weekend cal) \<subseteq> {0..6}" "f \<in> set calendar_dir" "load_calendar safe_load f = Inr cal"
    by blast
  have "calendar_of r (Some c) = Inr cal"
    using cal(1) ne \<open>k = c\<close> by (simp add: calendar_of_def truthy_def)
  then show ?thesis using cal k(1) \<open>k = c\<close> Some by (cases f) auto
qed

text \<open>An arrival named by a filename pattern of the sample client, which matches every name.\<close>

definition always_matches :: re_compiler where
  "always_matches p = Inr (\<lambda>name. Some (\<lambda>g. None))"

abbreviation hinted_config :: "registry result" where
  "hinted_config \<equiv> load_config sample_load always_matches ''config'' [(''us.yaml'', ''calendar'')]
     [(''prs.yaml'', ''client'')]"

lemma attributed_by_name_only:
  assumes "map_option client_id (fst (match_filename fn r)) = Some c" "c \<noteq> []"
  shows "att_client_id (attribute fn headers [] r) = Some c"
  using assms
  by (cases "match_filename fn r")
    (auto simp: attribute_def find_account_ids_def account_clients_def most_common_def truthy_def build_def Let_def
      split: prod.splits option.splits list.splits)

theorem loaded_config_gives_calendar_witness:
  "\<exists>r cal. hinted_config = Inr r \<and> att_client_id (attribute ''PRS.csv'' [''Account''] [] r) = Some ''CLNT031''
     \<and> calendar_of r (Some ''CLNT031'') = Inr cal \<and> calendar_id cal = ''US_EQUITY''"
proof -
  have "case hinted_config of
      Inr r \<Rightarrow> map client_id (clients r) = [''CLNT031'']
        \<and> map_option client_calendar (reg_client r ''CLNT031'') = Some ''US_EQUITY''
        \<and> map_option client_id (fst (match_filename ''PRS.csv'' r)) = Some ''CLNT031''
    | Inl _ \<Rightarrow> False"
    by code_simp
  then obtain r where r: "hinted_config = Inr r" "map client_id (clients r) = [''CLNT031'']"
    "map_option client_calendar (reg_client r ''CLNT031'') = Some ''US_EQUITY''"
    "map_option client_id (fst (match_filename ''PRS.csv'' r)) = Some ''CLNT031''"
    by (cases hinted_config) auto
  have ids: "[] \<notin> client_id ` set (clients r)" using arg_cong [OF r(2), of set] by simp
  have who: "att_client_id (attribute ''PRS.csv'' [''Account''] [] r) = Some ''CLNT031''"
    by (rule attributed_by_name_only [OF r(4)]) simp
  from loaded_config_gives_calendar [OF r(1) ids, of "''PRS.csv''" "[''Account'']" "[]"] who r(1,3)
  show ?thesis by auto
qed

end
